theory Spec2Isabelle
  imports Complex_Main
begin

section \<open>JSON values\<close>

text \<open>
  The values the TypeScript code handles: the JSON data of schemas and instances, plus
  JavaScript's \<open>undefined\<close> (what a missing property or a lookup miss evaluates to).
  An object keeps its properties in insertion order.
\<close>

datatype json =
    JUndefined
  | JNull
  | JBool bool
  | JNum rat
  | JStr string
  | JArr "json list"
  | JObj "(string \<times> json) list"

type_synonym JSONPointer = string
type_synonym URI = string

text \<open>\<open>key in object\<close> and \<open>object[key]\<close> for a value known to be an object.\<close>

definition hasKey :: "string \<Rightarrow> (string \<times> 'v) list \<Rightarrow> bool" where
  "hasKey k ps = (map_of ps k \<noteq> None)"

definition getProp :: "string \<Rightarrow> (string \<times> json) list \<Rightarrow> json" where
  "getProp k ps = (case map_of ps k of None \<Rightarrow> JUndefined | Some v \<Rightarrow> v)"

section \<open>Keyword validators (draft 2020-12 validation vocabulary)\<close>

text \<open>
  \<open>Output\<close> of \<open>validation/Output\<close>: the valid and the invalid shape in one datatype;
  a key the source leaves out is \<open>None\<close>.
\<close>

datatype Output = Output
  (valid: bool)
  (schemaLocation: JSONPointer)
  (schemaKeyword: "string option")
  (instanceLocation: JSONPointer)
  (message: "string option")
  (errors: "Output list option")

text \<open>
  The keywords of \<open>DereferencedJSONSchemaObjectDraft2020_12\<close> that the three validators
  read, with the types the TypeScript declaration gives them; \<open>None\<close> is an absent key.
\<close>

record SchemaObject =
  maxItems :: "rat option"
  uniqueItems :: "bool option"
  dependentRequired :: "(string \<times> string list) list option"

record ValidatorContext =
  failFast :: bool

text \<open>
  Helpers of the validation package whose sources are not part of the verified files
  (\<open>validation/assert\<close>, \<open>util/formatList\<close>, \<open>util/circularEqual\<close> and the rendering of a
  number inside a template literal). They are parameters of the validators.
\<close>

record AssertInfo =
  ai_schemaLocation :: JSONPointer
  ai_schemaKeyword :: string
  ai_instanceLocation :: JSONPointer

record ValidationHelpers =
  assert :: "bool \<Rightarrow> string \<Rightarrow> AssertInfo \<Rightarrow> Output"
  formatList :: "string list \<Rightarrow> string \<Rightarrow> string"
  circularEqual :: "json \<Rightarrow> json \<Rightarrow> bool"
  showNumber :: "rat \<Rightarrow> string"

text \<open>
  Modelled from the spec: \<open>util/isJSONArray\<close> and \<open>util/isJSONObject\<close> are not among the
  source files; they decide whether an instance is a JSON array, respectively a JSON
  object (neither an array nor \<open>null\<close>).
\<close>

fun isJSONArray :: "json \<Rightarrow> bool" where
  "isJSONArray (JArr xs) = True"
| "isJSONArray v = False"

fun isJSONObject :: "json \<Rightarrow> bool" where
  "isJSONObject (JObj ps) = True"
| "isJSONObject v = False"

fun arrayItems :: "json \<Rightarrow> json list" where
  "arrayItems (JArr xs) = xs"
| "arrayItems v = []"

fun objectProps :: "json \<Rightarrow> (string \<times> json) list" where
  "objectProps (JObj ps) = ps"
| "objectProps v = []"

type_synonym Validator = "json \<Rightarrow> JSONPointer \<Rightarrow> (string \<times> json) list \<Rightarrow> Output"

definition validOutput :: "JSONPointer \<Rightarrow> JSONPointer \<Rightarrow> Output" where
  "validOutput schemaLoc instanceLoc = Output True schemaLoc None instanceLoc None None"

subsection \<open>maxItems\<close>

definition maxItemsValidator ::
  "ValidationHelpers \<Rightarrow> SchemaObject \<Rightarrow> JSONPointer \<Rightarrow> ValidatorContext \<Rightarrow> Validator option" where
  "maxItemsValidator H schema schemaLoc context =
     (case maxItems schema of
        None \<Rightarrow> None
      | Some maxI \<Rightarrow> Some (\<lambda>instance instanceLoc annotationResults.
          if \<not> isJSONArray instance then validOutput schemaLoc instanceLoc
          else
            let len = of_nat (length (arrayItems instance)) in
            assert H (len \<le> maxI)
              (if maxI = 1
               then ''should have up to 1 item but has '' @ showNumber H len @ '' instead''
               else ''should have up to '' @ showNumber H maxI @ '' items but has ''
                      @ showNumber H len @ '' instead'')
              \<lparr>ai_schemaLocation = schemaLoc, ai_schemaKeyword = ''maxItems'',
               ai_instanceLocation = instanceLoc\<rparr>))"

subsection \<open>uniqueItems\<close>

text \<open>
  The nested loops visit the index pairs \<open>(i, j)\<close> with \<open>i < j\<close> in lexicographic order;
  \<open>matchingPairs\<close> lists, in that order, the pairs whose items are equal. With
  \<open>failFast\<close> the loops return at the first such pair.
\<close>

definition matchingPairs :: "(json \<Rightarrow> json \<Rightarrow> bool) \<Rightarrow> json list \<Rightarrow> (nat \<times> nat) list" where
  "matchingPairs eq xs =
     concat (map (\<lambda>i. map (\<lambda>j. (i, j))
                         (filter (\<lambda>j. eq (xs ! i) (xs ! j)) [Suc i ..< length xs]))
                 [0 ..< length xs])"

definition uniqueItemsValidator ::
  "ValidationHelpers \<Rightarrow> SchemaObject \<Rightarrow> JSONPointer \<Rightarrow> ValidatorContext \<Rightarrow> Validator option" where
  "uniqueItemsValidator H schema schemaLoc context =
     (case uniqueItems schema of
        None \<Rightarrow> None
      | Some u \<Rightarrow>
          if \<not> u then None
          else Some (\<lambda>instance instanceLoc annotationResults.
            if \<not> isJSONArray instance then validOutput schemaLoc instanceLoc
            else
              let pairs = matchingPairs (circularEqual H) (arrayItems instance) in
              (case pairs of
                 (i, j) # rest \<Rightarrow>
                   if failFast context then
                     Output False schemaLoc (Some ''uniqueItems'') instanceLoc
                       (Some (''should have unique items but items at '' @ showNumber H (of_nat i)
                              @ '' and '' @ showNumber H (of_nat j) @ '' are equal instead''))
                       None
                   else
                     assert H False
                       (''should have unique items but '' @
                        formatList H
                          (map (\<lambda>(a, b). ''items at '' @ showNumber H (of_nat a) @ '' and ''
                                           @ showNumber H (of_nat b) @ '' are equal'') pairs)
                          ''and'' @ '' instead'')
                       \<lparr>ai_schemaLocation = schemaLoc, ai_schemaKeyword = ''uniqueItems'',
                        ai_instanceLocation = instanceLoc\<rparr>
               | [] \<Rightarrow>
                   assert H True
                     (''should have unique items but '' @ formatList H [] ''and'' @ '' instead'')
                     \<lparr>ai_schemaLocation = schemaLoc, ai_schemaKeyword = ''uniqueItems'',
                      ai_instanceLocation = instanceLoc\<rparr>)))"

subsection \<open>dependentRequired\<close>

text \<open>
  One iteration per entry of \<open>dependentRequired\<close>; \<open>invalid\<close> accumulates the values of
  the map \<open>invalidOutputs\<close> in insertion order (the keys of an object are distinct, so no
  entry is overwritten). The map \<open>validOutputs\<close> is written but never read.
\<close>

fun dependentRequiredLoop ::
  "ValidationHelpers \<Rightarrow> bool \<Rightarrow> JSONPointer \<Rightarrow> JSONPointer \<Rightarrow> (string \<times> json) list \<Rightarrow>
   (string \<times> string list) list \<Rightarrow> Output list \<Rightarrow> Output" where
  "dependentRequiredLoop H ff schemaLoc instanceLoc props [] invalid =
     (if invalid = [] then
        Output True schemaLoc (Some ''dependentRequired'') instanceLoc None None
      else
        Output False schemaLoc (Some ''dependentRequired'') instanceLoc
          (Some (formatList H (map (\<lambda>out. case message out of Some m \<Rightarrow> m | None \<Rightarrow> ''undefined'')
                                 invalid) ''and''))
          (Some invalid))"
| "dependentRequiredLoop H ff schemaLoc instanceLoc props ((propertyName, dependencies) # rest) invalid =
     (if \<not> hasKey propertyName props then
        dependentRequiredLoop H ff schemaLoc instanceLoc props rest invalid
      else
        let missingProperties = filter (\<lambda>d. \<not> hasKey d props) dependencies;
            out = assert H (missingProperties = [])
                    (''is mising '' @
                     formatList H (map (\<lambda>m. [CHR 0x27] @ m @ [CHR 0x27]) missingProperties) ''and'')
                    \<lparr>ai_schemaLocation = schemaLoc, ai_schemaKeyword = ''dependentRequired'',
                     ai_instanceLocation = instanceLoc\<rparr>
        in if \<not> valid out \<and> ff then out
           else dependentRequiredLoop H ff schemaLoc instanceLoc props rest
                  (if valid out then invalid else invalid @ [out]))"

definition dependentRequiredValidator ::
  "ValidationHelpers \<Rightarrow> SchemaObject \<Rightarrow> JSONPointer \<Rightarrow> ValidatorContext \<Rightarrow> Validator option" where
  "dependentRequiredValidator H schema schemaLoc context =
     (case dependentRequired schema of
        None \<Rightarrow> None
      | Some deps \<Rightarrow> Some (\<lambda>instance instanceLoc annotationResults.
          if \<not> isJSONObject instance then validOutput schemaLoc instanceLoc
          else dependentRequiredLoop H (failFast context) schemaLoc instanceLoc
                 (objectProps instance) deps []))"

section \<open>Errors\<close>

text \<open>
  Every \<open>throw\<close> of the source and every runtime failure it can run into is a value:
  the four \<open>Error\<close>s that \<open>dereferenceJSONSchema\<close> constructs (each carries the URI its
  message names), JavaScript's \<open>TypeError\<close> (the \<open>in\<close> operator on a primitive, a property
  of \<open>undefined\<close>, a call of \<open>undefined\<close>) and whatever a caller-supplied callback or a
  helper outside the verified files throws.
\<close>

datatype error =
    CannotRetrieveURI URI
  | InvalidDocumentAt URI
  | NoPlaceholderAt URI
  | ParentDoesNotExist URI
  | TypeError string
  | Thrown string

section \<open>JavaScript operators on JSON values\<close>

fun typeOf :: "json \<Rightarrow> string" where
  "typeOf JUndefined = ''undefined''"
| "typeOf JNull = ''object''"
| "typeOf (JBool b) = ''boolean''"
| "typeOf (JNum n) = ''number''"
| "typeOf (JStr s) = ''string''"
| "typeOf (JArr xs) = ''object''"
| "typeOf (JObj ps) = ''object''"

text \<open>Truthiness: \<open>undefined\<close>, \<open>null\<close>, \<open>false\<close>, \<open>0\<close> and the empty string are falsy.\<close>

fun truthy :: "json \<Rightarrow> bool" where
  "truthy JUndefined = False"
| "truthy JNull = False"
| "truthy (JBool b) = b"
| "truthy (JNum n) = (n \<noteq> 0)"
| "truthy (JStr s) = (s \<noteq> [])"
| "truthy (JArr xs) = True"
| "truthy (JObj ps) = True"

text \<open>
  \<open>key in value\<close> for a value whose \<open>typeof\<close> is \<open>object\<close>, and for the keys the code
  asks about (\<open>$dynamicAnchor\<close>, \<open>$id\<close>, \<open>$ref\<close>; none is an array index or
  \<open>length\<close>): a \<open>TypeError\<close> on \<open>null\<close> and on primitives, false on an array.
\<close>

fun keyIn :: "string \<Rightarrow> json \<Rightarrow> error + bool" where
  "keyIn k (JObj ps) = Inr (hasKey k ps)"
| "keyIn k (JArr xs) = Inr False"
| "keyIn k v = Inl (TypeError (''Cannot use the in operator to search for a key in a primitive''))"

text \<open>
  \<open>value.key\<close> for the same keys: a \<open>TypeError\<close> on \<open>undefined\<close> and \<open>null\<close>,
  \<open>undefined\<close> on every other value that is not an object.
\<close>

fun member :: "json \<Rightarrow> string \<Rightarrow> error + json" where
  "member (JObj ps) k = Inr (getProp k ps)"
| "member JUndefined k = Inl (TypeError ''Cannot read properties of undefined'')"
| "member JNull k = Inl (TypeError ''Cannot read properties of null'')"
| "member v k = Inr JUndefined"

text \<open>
  \<open>a === b\<close>: primitives are compared by type and value. Two objects or arrays are equal
  when they are the same object; trees carry no identity, so that comparison is the
  parameter \<open>same\<close>.
\<close>

fun strictEquals :: "(json \<Rightarrow> json \<Rightarrow> bool) \<Rightarrow> json \<Rightarrow> json \<Rightarrow> bool" where
  "strictEquals same JUndefined b = (b = JUndefined)"
| "strictEquals same JNull b = (b = JNull)"
| "strictEquals same (JBool x) b = (b = JBool x)"
| "strictEquals same (JNum x) b = (b = JNum x)"
| "strictEquals same (JStr x) b = (b = JStr x)"
| "strictEquals same (JArr xs) b = (case b of JArr ys \<Rightarrow> same (JArr xs) b | _ \<Rightarrow> False)"
| "strictEquals same (JObj ps) b = (case b of JObj qs \<Rightarrow> same (JObj ps) b | _ \<Rightarrow> False)"

text \<open>
  A value inside a template literal: strings as they are, \<open>undefined\<close>, \<open>null\<close> and the
  booleans by name; the rendering of numbers, arrays and objects is the parameter \<open>other\<close>.
\<close>

fun templateString :: "(json \<Rightarrow> string) \<Rightarrow> json \<Rightarrow> string" where
  "templateString other (JStr s) = s"
| "templateString other JUndefined = ''undefined''"
| "templateString other JNull = ''null''"
| "templateString other (JBool b) = (if b then ''true'' else ''false'')"
| "templateString other v = other v"

section \<open>The schema index (\<open>SchemaIndex.ts\<close>)\<close>

record IndexInfo =
  baseURI :: URI

record ReferenceInfo =
  resolvedURI :: URI

text \<open>
  The three indexes a \<open>SchemaIndex\<close> consults, in this order: its schema content index,
  its JSON reference content index and the \<open>DocumentIndex\<close> it extends. Their sources are
  not among the verified files, so each is the record of its four queries. Maps keyed by
  object identity are functions of the node.
\<close>

record ContentIndex =
  isObjectIndexed :: "json \<Rightarrow> bool"
  isURIIndexed :: "URI \<Rightarrow> bool"
  indexedObjectWithURI :: "URI \<Rightarrow> json"
  infoForIndexedObject :: "json \<Rightarrow> IndexInfo option"

text \<open>
  The state of a \<open>SchemaIndex\<close>: the three indexes, the map \<open>references\<close>, and the two
  inherited methods \<open>find\<close> (with \<open>followReferences: false\<close>; it receives \<open>undefined\<close>
  when the reference was never registered, and may throw) and \<open>root\<close>.
\<close>

record SchemaIndex =
  schemaContentIndex :: ContentIndex
  jsonReferenceContentIndex :: ContentIndex
  documentIndex :: ContentIndex
  references :: "json \<Rightarrow> ReferenceInfo option"
  find :: "URI option \<Rightarrow> error + json"
  root :: json

text \<open>
  Helpers from \<open>util/uri\<close>, \<open>util/JSONPointer\<close> and \<open>@criteria/json-pointer\<close>, outside the
  verified files: parameters. \<open>splitFragment\<close> yields the absolute URI and the fragment
  (absent when the URI has none); \<open>resolveURIReference\<close> may receive an undefined base.
\<close>

record PointerHelpers =
  evaluateJSONPointer :: "JSONPointer \<Rightarrow> json \<Rightarrow> error + json"
  isJSONPointer :: "string option \<Rightarrow> bool"
  splitFragment :: "URI option \<Rightarrow> error + (URI \<times> string option)"
  resolveURIReference :: "string \<Rightarrow> URI option \<Rightarrow> URI"
  sameObject :: "json \<Rightarrow> json \<Rightarrow> bool"
  renderValue :: "json \<Rightarrow> string"

subsection \<open>The overridden queries\<close>

definition SchemaIndex_isObjectIndexed :: "SchemaIndex \<Rightarrow> json \<Rightarrow> bool" where
  "SchemaIndex_isObjectIndexed I obj =
     (if isObjectIndexed (schemaContentIndex I) obj then True
      else if isObjectIndexed (jsonReferenceContentIndex I) obj then True
      else isObjectIndexed (documentIndex I) obj)"

text \<open>The source's last branch returns the indexed object itself, not a boolean.\<close>

definition SchemaIndex_isURIIndexed :: "SchemaIndex \<Rightarrow> URI \<Rightarrow> json" where
  "SchemaIndex_isURIIndexed I uri =
     (if isURIIndexed (schemaContentIndex I) uri then JBool True
      else if isURIIndexed (jsonReferenceContentIndex I) uri then JBool True
      else indexedObjectWithURI (documentIndex I) uri)"

definition SchemaIndex_indexedObjectWithURI :: "SchemaIndex \<Rightarrow> URI \<Rightarrow> json" where
  "SchemaIndex_indexedObjectWithURI I uri =
     (if isURIIndexed (schemaContentIndex I) uri then indexedObjectWithURI (schemaContentIndex I) uri
      else if isURIIndexed (jsonReferenceContentIndex I) uri
           then indexedObjectWithURI (jsonReferenceContentIndex I) uri
      else indexedObjectWithURI (documentIndex I) uri)"

definition SchemaIndex_infoForIndexedObject :: "SchemaIndex \<Rightarrow> json \<Rightarrow> IndexInfo option" where
  "SchemaIndex_infoForIndexedObject I obj =
     (if isObjectIndexed (schemaContentIndex I) obj then infoForIndexedObject (schemaContentIndex I) obj
      else if isObjectIndexed (jsonReferenceContentIndex I) obj
           then infoForIndexedObject (jsonReferenceContentIndex I) obj
      else infoForIndexedObject (documentIndex I) obj)"

subsection \<open>Static references\<close>

definition dereferenceReference_index :: "SchemaIndex \<Rightarrow> URI \<Rightarrow> json \<Rightarrow> JSONPointer list \<Rightarrow> error + json" where
  "dereferenceReference_index I uri reference schemaPath =
     find I (map_option resolvedURI (references I reference))"

subsection \<open>Dynamic references\<close>

text \<open>
  One iteration of the walk over \<open>schemaPath\<close> is three pieces. First the candidate
  moves: the path step is evaluated against the current candidate, and when the step is
  exactly \<open>/$ref\<close> and its value a string, that string is resolved against the base URI
  recorded for the dynamic reference under resolution and looked up with \<open>find\<close>.
\<close>

definition subReferenceStep ::
  "PointerHelpers \<Rightarrow> SchemaIndex \<Rightarrow> json \<Rightarrow> JSONPointer \<Rightarrow> json \<Rightarrow> error + json" where
  "subReferenceStep E I dynamicReference jsonPointer candidate =
     (case candidate of
        JStr s \<Rightarrow>
          if jsonPointer = ''/$ref'' then
            (case SchemaIndex_infoForIndexedObject I dynamicReference of
               None \<Rightarrow> Inl (TypeError ''Cannot read properties of undefined (reading baseURI)'')
             | Some info \<Rightarrow> find I (Some (resolveURIReference E s (Some (baseURI info)))))
          else Inr candidate
      | _ \<Rightarrow> Inr candidate)"

definition nextCandidate ::
  "PointerHelpers \<Rightarrow> SchemaIndex \<Rightarrow> json \<Rightarrow> JSONPointer \<Rightarrow> json \<Rightarrow> error + json" where
  "nextCandidate E I dynamicReference jsonPointer candidate =
     (case evaluateJSONPointer E jsonPointer candidate of
        Inl e \<Rightarrow> Inl e
      | Inr c \<Rightarrow> subReferenceStep E I dynamicReference jsonPointer c)"

text \<open>
  Second, the candidate (whose \<open>typeof\<close> is \<open>object\<close>) wins when it declares a
  \<open>$dynamicAnchor\<close> strictly equal to that of the statically resolved schema.
\<close>

definition declaresDynamicAnchor :: "PointerHelpers \<Rightarrow> json \<Rightarrow> json \<Rightarrow> error + bool" where
  "declaresDynamicAnchor E dereferencedSchema candidate =
     (case keyIn ''$dynamicAnchor'' candidate of
        Inl e \<Rightarrow> Inl e
      | Inr False \<Rightarrow> Inr False
      | Inr True \<Rightarrow>
          (case member candidate ''$dynamicAnchor'' of
             Inl e \<Rightarrow> Inl e
           | Inr a \<Rightarrow>
               (case member dereferencedSchema ''$dynamicAnchor'' of
                  Inl e \<Rightarrow> Inl e
                | Inr d \<Rightarrow> Inr (strictEquals (sameObject E) a d))))"

text \<open>
  Third, a candidate that declares a string \<open>$id\<close> is a resource root: the anchor of the
  sought name below that \<open>$id\<close> is looked up; \<open>Some\<close> node is the winner, \<open>None\<close> lets
  the walk go on.
\<close>

definition outermostURIOf :: "PointerHelpers \<Rightarrow> SchemaIndex \<Rightarrow> string \<Rightarrow> json \<Rightarrow> URI" where
  "outermostURIOf E I ident candidate =
     (let outermostBaseURI =
            map_option baseURI
              (case SchemaIndex_infoForIndexedObject I candidate of
                 Some info \<Rightarrow> Some info
               | None \<Rightarrow> SchemaIndex_infoForIndexedObject I (root I))
      in resolveURIReference E ident outermostBaseURI)"

definition dynamicAnchorURI :: "PointerHelpers \<Rightarrow> SchemaIndex \<Rightarrow> string \<Rightarrow> json \<Rightarrow> json \<Rightarrow> URI" where
  "dynamicAnchorURI E I ident candidate d =
     resolveURIReference E (''#'' @ templateString (renderValue E) d)
       (Some (outermostURIOf E I ident candidate))"

definition idRootedCandidate ::
  "PointerHelpers \<Rightarrow> SchemaIndex \<Rightarrow> json \<Rightarrow> json \<Rightarrow> error + json option" where
  "idRootedCandidate E I dereferencedSchema candidate =
     (case keyIn ''$id'' candidate of
        Inl e \<Rightarrow> Inl e
      | Inr False \<Rightarrow> Inr None
      | Inr True \<Rightarrow>
          (case member candidate ''$id'' of
             Inl e \<Rightarrow> Inl e
           | Inr (JStr ident) \<Rightarrow>
               (case member dereferencedSchema ''$dynamicAnchor'' of
                  Inl e \<Rightarrow> Inl e
                | Inr d \<Rightarrow>
                    (case find I (Some (dynamicAnchorURI E I ident candidate d)) of
                       Inl e \<Rightarrow> Inl e
                     | Inr candidateAnchor \<Rightarrow>
                         if \<not> truthy candidateAnchor then Inr None
                         else if typeOf candidateAnchor \<noteq> ''object'' then Inr None
                         else (case declaresDynamicAnchor E dereferencedSchema candidateAnchor of
                                 Inl e \<Rightarrow> Inl e
                               | Inr True \<Rightarrow> Inr (Some candidateAnchor)
                               | Inr False \<Rightarrow> Inr None)))
           | Inr other \<Rightarrow> Inr None))"

text \<open>The \<open>for\<close> loop over \<open>schemaPath\<close>, from the candidate reached so far.\<close>

fun scopeWalk ::
  "PointerHelpers \<Rightarrow> SchemaIndex \<Rightarrow> json \<Rightarrow> json \<Rightarrow> JSONPointer list \<Rightarrow> json \<Rightarrow> error + json" where
  "scopeWalk E I dynamicReference dereferencedSchema [] candidate = Inr dereferencedSchema"
| "scopeWalk E I dynamicReference dereferencedSchema (jsonPointer # rest) candidate =
     (case nextCandidate E I dynamicReference jsonPointer candidate of
        Inl e \<Rightarrow> Inl e
      | Inr c \<Rightarrow>
          if typeOf c \<noteq> ''object'' then scopeWalk E I dynamicReference dereferencedSchema rest c
          else
            (case declaresDynamicAnchor E dereferencedSchema c of
               Inl e \<Rightarrow> Inl e
             | Inr True \<Rightarrow> Inr c
             | Inr False \<Rightarrow>
                 (case idRootedCandidate E I dereferencedSchema c of
                    Inl e \<Rightarrow> Inl e
                  | Inr (Some candidateAnchor) \<Rightarrow> Inr candidateAnchor
                  | Inr None \<Rightarrow> scopeWalk E I dynamicReference dereferencedSchema rest c)))"

definition dereferenceDynamicReference ::
  "PointerHelpers \<Rightarrow> SchemaIndex \<Rightarrow> URI \<Rightarrow> json \<Rightarrow> JSONPointer list \<Rightarrow> error + json" where
  "dereferenceDynamicReference E I uri dynamicReference schemaPath =
     (let resolved = map_option resolvedURI (references I dynamicReference) in
      case find I resolved of
        Inl e \<Rightarrow> Inl e
      | Inr dereferencedSchema \<Rightarrow>
          (case splitFragment E resolved of
             Inl e \<Rightarrow> Inl e
           | Inr (absoluteURI, fragment) \<Rightarrow>
               if isJSONPointer E fragment then Inr dereferencedSchema
               else scopeWalk E I dynamicReference dereferencedSchema schemaPath (root I)))"

text \<open>
  The candidates the walk passes through, one per path step, when no step wins: the
  candidate updates of the loop alone.
\<close>

fun candidatesAlong ::
  "PointerHelpers \<Rightarrow> SchemaIndex \<Rightarrow> json \<Rightarrow> JSONPointer list \<Rightarrow> json \<Rightarrow> error + json list" where
  "candidatesAlong E I dynamicReference [] candidate = Inr []"
| "candidatesAlong E I dynamicReference (jsonPointer # rest) candidate =
     (case nextCandidate E I dynamicReference jsonPointer candidate of
        Inl e \<Rightarrow> Inl e
      | Inr c \<Rightarrow>
          (case candidatesAlong E I dynamicReference rest c of
             Inl e \<Rightarrow> Inl e
           | Inr cs \<Rightarrow> Inr (c # cs)))"

subsection \<open>An index to evaluate on\<close>

text \<open>
  A base schema \<open>urn:base\<close> declares the dynamic anchor \<open>node\<close>; a dynamic reference
  \<open>#node\<close> inside it resolves statically to the base schema itself. The schema
  \<open>urn:extended\<close> embeds the base and declares \<open>node\<close> again, on a richer definition
  (in \<open>exampleStaticIndex\<close> as a plain \<open>$anchor\<close> instead). The helpers are simple
  stand-ins: single-token pointers, fragment-only and absolute references.
\<close>

fun examplePointer :: "JSONPointer \<Rightarrow> json \<Rightarrow> error + json" where
  "examplePointer [] v = Inr v"
| "examplePointer (c # key) (JObj ps) = Inr (getProp key ps)"
| "examplePointer (c # key) v = Inr JUndefined"

definition exampleResolve :: "string \<Rightarrow> URI option \<Rightarrow> URI" where
  "exampleResolve r base =
     (case r of
        [] \<Rightarrow> (case base of None \<Rightarrow> [] | Some b \<Rightarrow> b)
      | c # cs \<Rightarrow> if c = CHR ''#''
                  then takeWhile (\<lambda>x. x \<noteq> CHR ''#'') (case base of None \<Rightarrow> [] | Some b \<Rightarrow> b) @ r
                  else r)"

definition exampleSplit :: "URI option \<Rightarrow> error + (URI \<times> string option)" where
  "exampleSplit u =
     (case u of
        None \<Rightarrow> Inl (TypeError ''Cannot read properties of undefined'')
      | Some uri \<Rightarrow>
          Inr (takeWhile (\<lambda>x. x \<noteq> CHR ''#'') uri,
               case dropWhile (\<lambda>x. x \<noteq> CHR ''#'') uri of [] \<Rightarrow> None | c # f \<Rightarrow> Some f))"

definition exampleHelpers :: PointerHelpers where
  "exampleHelpers =
     \<lparr>evaluateJSONPointer = examplePointer,
      isJSONPointer = (\<lambda>f. case f of None \<Rightarrow> True | Some [] \<Rightarrow> True | Some (c # cs) \<Rightarrow> c = CHR ''/''),
      splitFragment = exampleSplit,
      resolveURIReference = exampleResolve,
      sameObject = (=),
      renderValue = (\<lambda>v. ''[object Object]'')\<rparr>"

definition exampleBaseNode :: json where
  "exampleBaseNode =
     JObj [(''$id'', JStr ''urn:base''), (''$dynamicAnchor'', JStr ''node''), (''title'', JStr ''base'')]"

definition exampleExtendedNode :: json where
  "exampleExtendedNode = JObj [(''$dynamicAnchor'', JStr ''node''), (''title'', JStr ''extended'')]"

definition exampleStaticNode :: json where
  "exampleStaticNode = JObj [(''$anchor'', JStr ''node''), (''title'', JStr ''static'')]"

definition exampleDynamicRef :: json where
  "exampleDynamicRef = JObj [(''$dynamicRef'', JStr ''#node'')]"

definition examplePointerRef :: json where
  "examplePointerRef = JObj [(''$dynamicRef'', JStr ''urn:extended#/definitions/node'')]"

definition exampleRoot :: json where
  "exampleRoot =
     JObj [(''$id'', JStr ''urn:extended''), (''$ref'', JStr ''urn:extended#node''),
           (''$dynamicRef'', JStr ''urn:extended#node'')]"

definition exampleNoIndex :: ContentIndex where
  "exampleNoIndex =
     \<lparr>isObjectIndexed = (\<lambda>obj. False), isURIIndexed = (\<lambda>uri. False),
      indexedObjectWithURI = (\<lambda>uri. JUndefined), infoForIndexedObject = (\<lambda>obj. None)\<rparr>"

definition exampleFind :: "json \<Rightarrow> URI option \<Rightarrow> error + json" where
  "exampleFind extended u =
     (if u = Some ''urn:base#node'' \<or> u = Some ''urn:base'' then Inr exampleBaseNode
      else if u = Some ''urn:extended#node'' \<or> u = Some ''urn:extended#/definitions/node''
      then Inr extended
      else if u = Some ''urn:extended'' then Inr exampleRoot
      else Inr JUndefined)"

definition exampleSchemas :: ContentIndex where
  "exampleSchemas =
     \<lparr>isObjectIndexed = (\<lambda>obj. obj = exampleRoot \<or> obj = exampleBaseNode \<or> obj = exampleDynamicRef),
      isURIIndexed = (\<lambda>uri. uri = ''urn:base'' \<or> uri = ''urn:extended''),
      indexedObjectWithURI = (\<lambda>uri. if uri = ''urn:base'' then exampleBaseNode
                                     else if uri = ''urn:extended'' then exampleRoot else JUndefined),
      infoForIndexedObject = (\<lambda>obj. if obj = exampleRoot then Some \<lparr>baseURI = ''urn:extended''\<rparr>
                                     else if obj = exampleBaseNode \<or> obj = exampleDynamicRef
                                     then Some \<lparr>baseURI = ''urn:base''\<rparr> else None)\<rparr>"

definition exampleIndex :: SchemaIndex where
  "exampleIndex =
     \<lparr>schemaContentIndex = exampleSchemas,
      jsonReferenceContentIndex = exampleNoIndex,
      documentIndex = exampleNoIndex,
      references = (\<lambda>r. if r = exampleDynamicRef then Some \<lparr>resolvedURI = ''urn:base#node''\<rparr>
                         else if r = examplePointerRef
                         then Some \<lparr>resolvedURI = ''urn:extended#/definitions/node''\<rparr>
                         else None),
      find = exampleFind exampleExtendedNode,
      root = exampleRoot\<rparr>"

definition exampleStaticIndex :: SchemaIndex where
  "exampleStaticIndex = exampleIndex\<lparr>find := exampleFind exampleStaticNode\<rparr>"

text \<open>
  A root \<open>{$id: 'urn:nulled', default: null}\<close> under the same index: the path step
  \<open>/default\<close> reaches \<open>null\<close>. No node of the document declares a \<open>$dynamicAnchor\<close>,
  and nothing is indexed at \<open>urn:nulled#node\<close>.
\<close>

definition exampleNullRoot :: json where
  "exampleNullRoot = JObj [(''$id'', JStr ''urn:nulled''), (''default'', JNull)]"

definition exampleNullIndex :: SchemaIndex where
  "exampleNullIndex = exampleIndex\<lparr>root := exampleNullRoot\<rparr>"

section \<open>The dereferencing engine (\<open>dereferenceJSONSchema.ts\<close>)\<close>

subsection \<open>Objects with identity\<close>

text \<open>
  The engine preserves and compares object identity and mutates result nodes in place,
  so its values live in an explicit store: a value is a primitive or the address of an
  object, and the store is the list of all objects, source documents and result nodes
  alike. An object has its string-keyed properties, in insertion order, and possibly the
  property keyed by \<open>placeholderSymbol\<close>, the placeholder marker. An array is an object
  whose keys are its indices.
\<close>

type_synonym addr = nat

datatype val =
    VUndefined
  | VNull
  | VBool bool
  | VNum rat
  | VStr string
  | VRef addr

record PlaceholderInfo =
  uris :: "URI list option"
  indirect :: "val option"

record Node =
  props :: "(string \<times> val) list"
  marker :: "PlaceholderInfo option"

definition emptyNode :: Node where
  "emptyNode = \<lparr>props = [], marker = None\<rparr>"

text \<open>Reading an address; every address the engine holds is allocated.\<close>

definition nodeAt :: "Node list \<Rightarrow> addr \<Rightarrow> Node" where
  "nodeAt h a = (if a < length h then h ! a else emptyNode)"

definition updateNode :: "addr \<Rightarrow> (Node \<Rightarrow> Node) \<Rightarrow> Node list \<Rightarrow> Node list" where
  "updateNode a f h = (if a < length h then h[a := f (h ! a)] else h)"

fun truthyV :: "val \<Rightarrow> bool" where
  "truthyV VUndefined = False"
| "truthyV VNull = False"
| "truthyV (VBool b) = b"
| "truthyV (VNum n) = (n \<noteq> 0)"
| "truthyV (VStr s) = (s \<noteq> [])"
| "truthyV (VRef a) = True"

fun nullish :: "val \<Rightarrow> bool" where
  "nullish VUndefined = True"
| "nullish VNull = True"
| "nullish v = False"

fun typeOfV :: "val \<Rightarrow> string" where
  "typeOfV VUndefined = ''undefined''"
| "typeOfV VNull = ''object''"
| "typeOfV (VBool b) = ''boolean''"
| "typeOfV (VNum n) = ''number''"
| "typeOfV (VStr s) = ''string''"
| "typeOfV (VRef a) = ''object''"

text \<open>\<open>object[key] = value\<close> on a property list: an existing key keeps its position.\<close>

fun setProp :: "'k \<Rightarrow> 'v \<Rightarrow> ('k \<times> 'v) list \<Rightarrow> ('k \<times> 'v) list" where
  "setProp k v [] = [(k, v)]"
| "setProp k v ((k', v') # ps) = (if k = k' then (k, v) # ps else (k', v') # setProp k v ps)"

definition getPropV :: "string \<Rightarrow> (string \<times> val) list \<Rightarrow> val" where
  "getPropV k ps = (case map_of ps k of None \<Rightarrow> VUndefined | Some v \<Rightarrow> v)"

text \<open>Copying the properties \<open>src\<close> onto \<open>tgt\<close>, in order: later ones overwrite.\<close>

definition assignProps :: "(string \<times> val) list \<Rightarrow> (string \<times> val) list \<Rightarrow> (string \<times> val) list" where
  "assignProps tgt src = fold (\<lambda>(k, v). setProp k v) src tgt"

fun showNat :: "nat \<Rightarrow> string" where
  "showNat n = (if n < 10 then [char_of (48 + n)]
                else showNat (n div 10) @ [char_of (48 + n mod 10)])"

declare showNat.simps [simp del]

text \<open>
  The own enumerable properties \<open>Object.assign\<close> and the spread read from a source: those
  of the object, the indexed characters of a string, nothing for any other primitive; and
  the symbol-keyed marker, which both copy as well.
\<close>

fun ownProps :: "Node list \<Rightarrow> val \<Rightarrow> (string \<times> val) list" where
  "ownProps h (VRef a) = props (nodeAt h a)"
| "ownProps h (VStr s) = map (\<lambda>i. (showNat i, VStr [s ! i])) [0 ..< length s]"
| "ownProps h v = []"

fun ownMarker :: "Node list \<Rightarrow> val \<Rightarrow> PlaceholderInfo option" where
  "ownMarker h (VRef a) = marker (nodeAt h a)"
| "ownMarker h v = None"

text \<open>\<open>Object.assign(node, source)\<close> for a source already read into properties and marker.\<close>

definition assignInto :: "(string \<times> val) list \<Rightarrow> PlaceholderInfo option \<Rightarrow> Node \<Rightarrow> Node" where
  "assignInto ps m n =
     \<lparr>props = assignProps (props n) ps,
      marker = (case m of None \<Rightarrow> marker n | Some i \<Rightarrow> Some i)\<rparr>"

text \<open>
  Modelled from the spec: \<open>isPlaceholder\<close> (module \<open>./placeholder\<close>, not among the source
  files) tells whether a value is a provisional stand-in: an object that carries the
  placeholder marker.
\<close>

definition isPlaceholder :: "Node list \<Rightarrow> val \<Rightarrow> bool" where
  "isPlaceholder h v = (case v of VRef a \<Rightarrow> marker (nodeAt h a) \<noteq> None | _ \<Rightarrow> False)"

subsection \<open>Session state\<close>

text \<open>
  \<open>Context\<close> of \<open>./visitors/context\<close>, and an entry of \<open>sourceSchemasByURI\<close>. A
  \<open>Reference\<close> is an object with a string \<open>$ref\<close> (its TypeScript type); the model
  receives it destructured, as \<open>const { $ref, ...siblings } = reference\<close> does: a pure
  reference has no siblings.
\<close>

record Context =
  baseURI :: URI
  jsonPointer :: "JSONPointer option"
  resolvedURIs :: "URI list"

record SourceEntry =
  sourceValue :: val
  sourceContext :: Context

record Reference =
  ref :: string
  siblings :: "(string \<times> val) list"

text \<open>
  The mutable state the closures share: the store, the table \<open>dereferencedByURI\<close>, the
  identity-keyed map \<open>dereferencedBySource\<close> and the set \<open>placeholders\<close>, which iterates
  in insertion order.
\<close>

record DState =
  heap :: "Node list"
  dereferencedByURI :: "(URI \<times> val) list"
  dereferencedBySource :: "(val \<times> val) list"
  placeholders :: "addr list"

text \<open>
  Helpers of the package outside the verified files (\<open>../uri\<close>, \<open>./evaluateFragment\<close>,
  \<open>@criteria/json-pointer\<close>): parameters. \<open>evaluateFragment\<close> reads the store.
\<close>

record DerefHelpers =
  resolveURIReference :: "string \<Rightarrow> URI \<Rightarrow> URI"
  splitFragment :: "URI \<Rightarrow> URI \<times> string"
  evaluateFragment :: "Node list \<Rightarrow> string \<Rightarrow> val \<Rightarrow> val"
  unescapeReferenceToken :: "string \<Rightarrow> string"
  hasFragment :: "URI \<Rightarrow> bool"
  normalizeURI :: "URI \<Rightarrow> URI"

definition lookupURI :: "DState \<Rightarrow> URI \<Rightarrow> val" where
  "lookupURI s uri = (case map_of (dereferencedByURI s) uri of None \<Rightarrow> VUndefined | Some v \<Rightarrow> v)"

text \<open>\<open>uris.forEach((uri) => (dereferencedByURI[uri] = result))\<close>\<close>

definition registerURIs :: "URI list \<Rightarrow> val \<Rightarrow> DState \<Rightarrow> DState" where
  "registerURIs us result s =
     s\<lparr>dereferencedByURI := fold (\<lambda>u. setProp u result) us (dereferencedByURI s)\<rparr>"

definition allocate :: "Node \<Rightarrow> DState \<Rightarrow> val \<times> DState" where
  "allocate n s = (VRef (length (heap s)), s\<lparr>heap := heap s @ [n]\<rparr>)"

definition placeholdersAdd :: "val \<Rightarrow> DState \<Rightarrow> DState" where
  "placeholdersAdd v s =
     (case v of
        VRef a \<Rightarrow> if a \<in> set (placeholders s) then s
                  else s\<lparr>placeholders := placeholders s @ [a]\<rparr>
      | _ \<Rightarrow> s)"

text \<open>\<open>delete result[placeholderSymbol]; placeholders.delete(result)\<close>\<close>

definition unmark :: "val \<Rightarrow> DState \<Rightarrow> DState" where
  "unmark v s =
     (case v of
        VRef a \<Rightarrow> s\<lparr>heap := updateNode a (\<lambda>n. n\<lparr>marker := None\<rparr>) (heap s),
                    placeholders := removeAll a (placeholders s)\<rparr>
      | _ \<Rightarrow> s)"

text \<open>
  The lookup loop both \<open>dereferenceSubschema\<close> and \<open>dereferenceReferenceWithSiblings\<close>
  start with: \<open>result\<close> is reassigned for each URI and the loop leaves at the first
  truthy one, so \<open>result\<close> ends as the first truthy entry or else as the last entry read.
\<close>

fun lookupFirst :: "(URI \<Rightarrow> val) \<Rightarrow> URI list \<Rightarrow> val \<Rightarrow> val" where
  "lookupFirst D [] r = r"
| "lookupFirst D (u # us) r = (if truthyV (D u) then D u else lookupFirst D us (D u))"

subsection \<open>\<open>dereferenceSubschema\<close>\<close>

text \<open>
  A result is \<open>None\<close> when the call does not return, \<open>Some (Inl e)\<close> when it throws
  \<open>e\<close>. \<open>cloneInto\<close> is the callback of the context, which populates the result node
  through the visitor.
\<close>

definition dereferenceSubschema ::
  "val \<Rightarrow> Context \<Rightarrow> (val \<Rightarrow> DState \<Rightarrow> (error + DState) option) \<Rightarrow> DState
   \<Rightarrow> (error + val \<times> DState) option" where
  "dereferenceSubschema schema context cloneInto s =
     (case map_of (dereferencedBySource s) schema of
        Some r \<Rightarrow> Some (Inr (r, s))
      | None \<Rightarrow>
          let found = lookupFirst (lookupURI s) (resolvedURIs context) VUndefined in
          if truthyV found \<and> \<not> isPlaceholder (heap s) found then Some (Inr (found, s))
          else
            let s1 = (if truthyV found then unmark found s else s);
                (result, s2) = (if nullish found then allocate emptyNode s1 else (found, s1));
                s3 = registerURIs (resolvedURIs context) result
                       (s2\<lparr>dereferencedBySource := setProp schema result (dereferencedBySource s2)\<rparr>)
            in (case cloneInto result s3 of
                  None \<Rightarrow> None
                | Some (Inl e) \<Rightarrow> Some (Inl e)
                | Some (Inr s4) \<Rightarrow> Some (Inr (result, s4))))"

subsection \<open>\<open>dereferenceReference\<close>\<close>

text \<open>
  The loop condition on \<open>target.value\<close>: the \<open>$ref\<close> string when the value is an object
  whose only key is a string \<open>$ref\<close>; the \<open>in\<close> operator throws on a primitive.
\<close>

definition pureRefOf :: "Node list \<Rightarrow> val \<Rightarrow> error + string option" where
  "pureRefOf h v =
     (case v of
        VRef a \<Rightarrow>
          (let ps = props (nodeAt h a) in
           if hasKey ''$ref'' ps then
             (case getPropV ''$ref'' ps of
                VStr r \<Rightarrow> if length ps = 1 then Inr (Some r) else Inr None
              | _ \<Rightarrow> Inr None)
           else Inr None)
      | _ \<Rightarrow> Inl (TypeError ''Cannot use the in operator to search for $ref in a primitive''))"

text \<open>
  The \<open>while\<close> loop, entered with the \<open>$ref\<close> of a pure reference (so its first
  iteration always runs): it follows pure references through \<open>sourceSchemasByURI\<close>,
  appending each target's \<open>resolvedURIs\<close>, and yields the last URI computed and the
  URIs collected. On a miss the source evaluates the fragment against the parent entry,
  assigns the outcome to \<open>target\<close> and breaks; \<open>target\<close> is not read after the loop, so
  that assignment is without effect. A cycle of pure references never leaves the loop.
\<close>

partial_function (option) followReferences ::
  "DerefHelpers \<Rightarrow> (URI \<times> SourceEntry) list \<Rightarrow> Node list \<Rightarrow> string \<Rightarrow> URI \<Rightarrow> URI list
   \<Rightarrow> (error + URI \<times> URI list) option" where
  "followReferences E S h r base resolved =
     (let uri = resolveURIReference E r base in
      case map_of S uri of
        None \<Rightarrow> Some (Inr (uri, resolved))
      | Some target \<Rightarrow>
          (let resolved' = resolved @ resolvedURIs (sourceContext target) in
           case pureRefOf h (sourceValue target) of
             Inl e \<Rightarrow> Some (Inl e)
           | Inr None \<Rightarrow> Some (Inr (uri, resolved'))
           | Inr (Some r') \<Rightarrow>
               followReferences E S h r' (baseURI (sourceContext target)) resolved'))"

declare followReferences.simps [code]

text \<open>What follows the loop: the lookups, the placeholder, the registration.\<close>

definition resolveTarget :: "DerefHelpers \<Rightarrow> URI \<Rightarrow> URI list \<Rightarrow> DState \<Rightarrow> val \<times> DState" where
  "resolveTarget E uri resolved s =
     (let r0 = lookupURI s uri;
          r1 = (if truthyV r0 then r0
                else (let (absoluteURI, fragment) = splitFragment E uri;
                          parentSchema = lookupURI s absoluteURI
                      in if truthyV parentSchema
                         then evaluateFragment E (heap s) fragment parentSchema else r0));
          (result, s1) =
            (if truthyV r1 then (r1, s)
             else (let (p, s') = allocate \<lparr>props = [],
                                   marker = Some \<lparr>uris = Some (uri # resolved), indirect = None\<rparr>\<rparr> s
                   in (p, placeholdersAdd p s')))
      in (result, registerURIs resolved result s1))"

definition dereferenceReference ::
  "DerefHelpers \<Rightarrow> (URI \<times> SourceEntry) list \<Rightarrow> string \<Rightarrow> Context \<Rightarrow> DState
   \<Rightarrow> (error + val \<times> DState) option" where
  "dereferenceReference E S r context s =
     (case followReferences E S (heap s) r (baseURI context) (resolvedURIs context) of
        None \<Rightarrow> None
      | Some (Inl e) \<Rightarrow> Some (Inl e)
      | Some (Inr (uri, resolved)) \<Rightarrow> Some (Inr (resolveTarget E uri resolved s)))"

subsection \<open>\<open>dereferenceReferenceWithSiblings\<close>\<close>

text \<open>
  \<open>result[placeholderSymbol] = { ...result[placeholderSymbol], indirect: dereferenced }\<close>
  followed by \<open>Object.assign(result, siblings)\<close>, and \<open>Object.assign(result, dereferenced,
  siblings)\<close>. The table holds truthy values only, but the code allows for more: when
  \<open>result\<close> is a falsy primitive that is not nullish, setting the marker on it throws (a
  module is strict code), and \<open>Object.assign\<close> wraps it into a new object.
\<close>

definition mergeDeferred :: "val \<Rightarrow> val \<Rightarrow> (string \<times> val) list \<Rightarrow> DState \<Rightarrow> error + val \<times> DState" where
  "mergeDeferred result dereferenced sibs s =
     (case result of
        VRef a \<Rightarrow>
          Inr (result,
               placeholdersAdd result
                 (s\<lparr>heap := updateNode a
                      (\<lambda>n. \<lparr>props = assignProps (props n) sibs,
                            marker = Some \<lparr>uris = (case marker n of None \<Rightarrow> None | Some i \<Rightarrow> uris i),
                                          indirect = Some dereferenced\<rparr>\<rparr>)
                      (heap s)\<rparr>))
      | _ \<Rightarrow> Inl (TypeError ''Cannot create property Symbol(placeholder) on a primitive''))"

definition mergeImmediate :: "val \<Rightarrow> val \<Rightarrow> (string \<times> val) list \<Rightarrow> DState \<Rightarrow> val \<times> DState" where
  "mergeImmediate result dereferenced sibs s =
     (let (target, s1) = (case result of VRef a \<Rightarrow> (result, s) | _ \<Rightarrow> allocate emptyNode s) in
      case target of
        VRef a \<Rightarrow>
          (target,
           s1\<lparr>heap := updateNode a
                 (\<lambda>n. assignInto sibs None
                        (assignInto (ownProps (heap s1) dereferenced) (ownMarker (heap s1) dereferenced) n))
                 (heap s1)\<rparr>)
      | _ \<Rightarrow> (target, s1))"

definition dereferenceReferenceWithSiblings ::
  "DerefHelpers \<Rightarrow> (URI \<times> SourceEntry) list \<Rightarrow> Reference \<Rightarrow> Context \<Rightarrow> DState
   \<Rightarrow> (error + val \<times> DState) option" where
  "dereferenceReferenceWithSiblings E S reference context s =
     (let found = lookupFirst (lookupURI s) (resolvedURIs context) VUndefined in
      if truthyV found \<and> \<not> isPlaceholder (heap s) found then Some (Inr (found, s))
      else
        let (result, s1) = (if nullish found then allocate emptyNode s else (found, s)) in
        case dereferenceReference E S (ref reference)
               \<lparr>baseURI = baseURI context, jsonPointer = jsonPointer context, resolvedURIs = []\<rparr> s1 of
          None \<Rightarrow> None
        | Some (Inl e) \<Rightarrow> Some (Inl e)
        | Some (Inr (dereferenced, s2)) \<Rightarrow>
            if isPlaceholder (heap s2) dereferenced then
              (case mergeDeferred result dereferenced (siblings reference) s2 of
                 Inl e \<Rightarrow> Some (Inl e)
               | Inr (result', s3) \<Rightarrow>
                   Some (Inr (result', registerURIs (resolvedURIs context) result' s3)))
            else
              (let (result', s3) = mergeImmediate result dereferenced (siblings reference) s2
               in Some (Inr (result', registerURIs (resolvedURIs context) result' s3))))"

subsection \<open>The visitor\<close>

text \<open>
  What \<open>cloneValues\<close> hands to its callback: the value and its kind. A value of kind
  \<open>reference\<close> is a \<open>Reference\<close>; \<open>Object.keys(value).length == 1\<close> holds when it has
  no siblings.
\<close>

datatype Visited =
    VisitSchema val
  | VisitReference Reference
  | VisitOther val

definition visitor ::
  "DerefHelpers \<Rightarrow> (URI \<times> SourceEntry) list \<Rightarrow> Visited \<Rightarrow> Context
   \<Rightarrow> (val \<Rightarrow> DState \<Rightarrow> (error + DState) option) \<Rightarrow> DState \<Rightarrow> (error + val \<times> DState) option" where
  "visitor E S v context cloneInto s =
     (case v of
        VisitSchema schema \<Rightarrow> dereferenceSubschema schema context cloneInto s
      | VisitReference reference \<Rightarrow>
          if siblings reference = [] then dereferenceReference E S (ref reference) context s
          else dereferenceReferenceWithSiblings E S reference context s
      | VisitOther v' \<Rightarrow> Some (Inr (v', s)))"

subsection \<open>The patch-up phase\<close>

text \<open>
  \<open>uri.lastIndexOf('/')\<close>, \<open>uri.slice(0, index)\<close> and \<open>uri.slice(index + 1)\<close>: without a
  slash the index is \<open>-1\<close>, the first slice drops the last character and the second is
  the whole string.
\<close>

definition splitLastSlash :: "string \<Rightarrow> string \<times> string" where
  "splitLastSlash uri =
     (if CHR ''/'' \<in> set uri
      then (rev (tl (dropWhile (\<lambda>c. c \<noteq> CHR ''/'') (rev uri))),
            rev (takeWhile (\<lambda>c. c \<noteq> CHR ''/'') (rev uri)))
      else (butlast uri, uri))"

text \<open>
  The placeholder stood for a primitive: each parent that holds it, found through the
  placeholder's URIs, gets the primitive written over the property.
\<close>

fun overwriteParents :: "DerefHelpers \<Rightarrow> val \<Rightarrow> URI list \<Rightarrow> DState \<Rightarrow> error + DState" where
  "overwriteParents E realValue [] s = Inr s"
| "overwriteParents E realValue (uri # rest) s =
     (let (parentURI, token) = splitLastSlash uri;
          lastKey = unescapeReferenceToken E token;
          parent = lookupURI s parentURI
      in if truthyV parent then
           (case parent of
              VRef p \<Rightarrow>
                overwriteParents E realValue rest
                  (s\<lparr>heap := updateNode p (\<lambda>n. n\<lparr>props := setProp lastKey realValue (props n)\<rparr>) (heap s)\<rparr>)
            | _ \<Rightarrow> Inl (TypeError ''Cannot create a property on a primitive''))
         else Inl (ParentDoesNotExist uri))"

text \<open>
  The second half of an iteration, lines 221 to 257: the marker is gone, the real value is
  looked up under the first URI and merged below the node's own properties.
\<close>

definition patchOwn :: "DerefHelpers \<Rightarrow> addr \<Rightarrow> URI list option \<Rightarrow> DState \<Rightarrow> error + DState" where
  "patchOwn E a us s =
     (let s1 = unmark (VRef a) s in
      case us of
        None \<Rightarrow> Inl (TypeError ''Cannot read properties of undefined (reading 0)'')
      | Some [] \<Rightarrow> Inl (TypeError ''Cannot read properties of undefined'')
      | Some (uri # rest) \<Rightarrow>
          (let r0 = lookupURI s1 uri;
               realValue =
                 (if truthyV r0 then r0
                  else (let (absoluteURI, fragment) = splitFragment E uri;
                            parentSchema = lookupURI s1 absoluteURI
                        in if truthyV parentSchema
                           then evaluateFragment E (heap s1) fragment parentSchema else r0))
           in if \<not> truthyV realValue then Inl (NoPlaceholderAt uri)
              else if typeOfV realValue = ''object'' then
                (let own = nodeAt (heap s1) a in
                 Inr (s1\<lparr>heap := updateNode a
                          (\<lambda>n. assignInto (props own) (marker own)
                                 (assignInto (ownProps (heap s1) realValue)
                                             (ownMarker (heap s1) realValue) n))
                          (heap s1)\<rparr>))
              else
                (let (arr, s2) = allocate \<lparr>props = map (\<lambda>i. (showNat i, VStr ((uri # rest) ! i)))
                                                     [0 ..< length (uri # rest)],
                                          marker = None\<rparr> s1;
                     s3 = s2\<lparr>heap := updateNode a (\<lambda>n. n\<lparr>props := setProp ''uris'' arr (props n)\<rparr>)
                                         (heap s2)\<rparr>
                 in overwriteParents E realValue (uri # rest) s3)))"

text \<open>
  One iteration of the \<open>while\<close> loop, for a non-empty set: the placeholder is the first
  element in insertion order. \<open>continue\<close> on an indirect link that is still a placeholder
  leaves the state as it is.
\<close>

definition patchStep :: "DerefHelpers \<Rightarrow> DState \<Rightarrow> error + DState" where
  "patchStep E s =
     (case placeholders s of
        [] \<Rightarrow> Inr s
      | a # others \<Rightarrow>
          (case marker (nodeAt (heap s) a) of
             None \<Rightarrow> Inl (TypeError ''Cannot destructure property uris of undefined'')
           | Some info \<Rightarrow>
               (case indirect info of
                  None \<Rightarrow> patchOwn E a (uris info) s
                | Some ind \<Rightarrow>
                    if \<not> truthyV ind then patchOwn E a (uris info) s
                    else if isPlaceholder (heap s) ind then Inr s
                    else
                      (let own = nodeAt (heap s) a;
                           s1 = s\<lparr>heap := updateNode a
                                   (\<lambda>n. assignInto (props own) (marker own)
                                          (assignInto (ownProps (heap s) ind) (ownMarker (heap s) ind) n))
                                   (heap s)\<rparr>
                       in if uris info = None then Inr (unmark (VRef a) s1)
                          else patchOwn E a (uris info) s1))))"

partial_function (option) patchUp :: "DerefHelpers \<Rightarrow> DState \<Rightarrow> (error + DState) option" where
  "patchUp E s =
     (if placeholders s = [] then Some (Inr s)
      else (case patchStep E s of
              Inl e \<Rightarrow> Some (Inl e)
            | Inr s' \<Rightarrow> patchUp E s'))"

declare patchUp.simps [code]

subsection \<open>Retrieval\<close>

text \<open>
  The caller's options. A retrieval callback returns a value or throws; \<open>defaultRetrieve\<close>
  always throws.
\<close>

datatype CallbackResult = CallbackThrows string | CallbackReturns val

record Options =
  optionsBaseURI :: "URI option"
  optionsRetrieve :: "(URI \<Rightarrow> CallbackResult) option"

definition defaultBaseURI :: URI where
  "defaultBaseURI = ''''"

definition defaultRetrieve :: "URI \<Rightarrow> error + val" where
  "defaultRetrieve uri = Inl (CannotRetrieveURI uri)"

text \<open>
  The function handed to \<open>memoize\<close>, lines 25 to 31: the root schema for the base URI,
  else \<open>options?.retrieve(uri) ?? defaultRetrieve(uri)\<close>, and a falsy document is refused.
  With options that carry no callback, \<open>options.retrieve(uri)\<close> calls \<open>undefined\<close>.
\<close>

definition retrieveDocument :: "val \<Rightarrow> URI \<Rightarrow> Options option \<Rightarrow> URI \<Rightarrow> error + val" where
  "retrieveDocument schema base options uri =
     (case (if uri = base then Inr schema
            else (case options of
                    None \<Rightarrow> defaultRetrieve uri
                  | Some opts \<Rightarrow>
                      (case optionsRetrieve opts of
                         None \<Rightarrow> Inl (TypeError ''options.retrieve is not a function'')
                       | Some callback \<Rightarrow>
                           (case callback uri of
                              CallbackThrows e \<Rightarrow> Inl (Thrown e)
                            | CallbackReturns d \<Rightarrow> if nullish d then defaultRetrieve uri else Inr d)))) of
        Inl e \<Rightarrow> Inl e
      | Inr document \<Rightarrow> if \<not> truthyV document then Inl (InvalidDocumentAt uri) else Inr document)"

text \<open>Whether \<open>retrieveDocument\<close> invokes the caller's callback for a URI.\<close>

definition invokesCallback :: "URI \<Rightarrow> Options option \<Rightarrow> URI \<Rightarrow> bool" where
  "invokesCallback base options uri =
     (uri \<noteq> base \<and> (case options of None \<Rightarrow> False | Some opts \<Rightarrow> optionsRetrieve opts \<noteq> None))"

text \<open>
  Modelled from the spec: \<open>memoize\<close> (module \<open>../retrievers/memoize\<close>, not among the source
  files) is the store's fetch memoization: it caches retrieved documents by URI and
  invokes the wrapped function on a cache miss only. A call that throws retrieves no
  document and leaves the cache as it was. \<open>callbackLog\<close> records, in order, the URIs
  the caller's callback was invoked with.
\<close>

record RetrieveState =
  cache :: "(URI \<times> val) list"
  callbackLog :: "URI list"

definition memoizedRetrieve ::
  "val \<Rightarrow> URI \<Rightarrow> Options option \<Rightarrow> URI \<Rightarrow> RetrieveState \<Rightarrow> (error + val) \<times> RetrieveState" where
  "memoizedRetrieve schema base options uri st =
     (case map_of (cache st) uri of
        Some document \<Rightarrow> (Inr document, st)
      | None \<Rightarrow>
          (let st1 = (if invokesCallback base options uri
                      then st\<lparr>callbackLog := callbackLog st @ [uri]\<rparr> else st)
           in case retrieveDocument schema base options uri of
                Inl e \<Rightarrow> (Inl e, st1)
              | Inr document \<Rightarrow> (Inr document, st1\<lparr>cache := (uri, document) # cache st1\<rparr>)))"

text \<open>
  A session's requests, in order. Nothing in \<open>dereferenceJSONSchema\<close> catches an
  exception, so the first request that throws ends the session.
\<close>

fun retrieveAll ::
  "val \<Rightarrow> URI \<Rightarrow> Options option \<Rightarrow> URI list \<Rightarrow> RetrieveState \<Rightarrow> (error + val list) \<times> RetrieveState" where
  "retrieveAll schema base options [] st = (Inr [], st)"
| "retrieveAll schema base options (uri # rest) st =
     (case memoizedRetrieve schema base options uri st of
        (Inl e, st1) \<Rightarrow> (Inl e, st1)
      | (Inr document, st1) \<Rightarrow>
          (case retrieveAll schema base options rest st1 of
             (Inl e, st2) \<Rightarrow> (Inl e, st2)
           | (Inr documents, st2) \<Rightarrow> (Inr (document # documents), st2)))"

definition emptyRetrieveState :: RetrieveState where
  "emptyRetrieveState = \<lparr>cache = [], callbackLog = []\<rparr>"

subsection \<open>\<open>dereferenceJSONSchema\<close>\<close>

text \<open>
  \<open>indexSchemasInto\<close> and \<open>cloneValues\<close> are outside the verified files: parameters.
  The indexer receives the store, the root schema, the base URI and the retrieval
  function, and yields \<open>sourceSchemasByURI\<close> in insertion order (memoization changes how
  often the callback runs, not what a request returns, so the function passed is
  \<open>retrieveDocument\<close>). \<open>cloneValues\<close> receives a value, a context and the visitor.
\<close>

type_synonym CloneInto = "val \<Rightarrow> DState \<Rightarrow> (error + DState) option"

type_synonym VisitorFn =
  "Visited \<Rightarrow> Context \<Rightarrow> CloneInto \<Rightarrow> DState \<Rightarrow> (error + val \<times> DState) option"

type_synonym CloneValues =
  "val \<Rightarrow> Context \<Rightarrow> VisitorFn \<Rightarrow> DState \<Rightarrow> (error + val \<times> DState) option"

type_synonym IndexSchemasInto =
  "Node list \<Rightarrow> val \<Rightarrow> URI \<Rightarrow> (URI \<Rightarrow> error + val) \<Rightarrow> (error + (URI \<times> SourceEntry) list) option"

text \<open>The loop that clones every document root of the index, lines 176 to 198.\<close>

fun cloneRoots ::
  "DerefHelpers \<Rightarrow> CloneValues \<Rightarrow> (URI \<times> SourceEntry) list \<Rightarrow> (URI \<times> SourceEntry) list
   \<Rightarrow> (URI \<times> val) list \<Rightarrow> DState \<Rightarrow> (error + (URI \<times> val) list \<times> DState) option" where
  "cloneRoots E cloneValues S [] allResults s = Some (Inr (allResults, s))"
| "cloneRoots E cloneValues S ((uri, sourceSchema) # rest) allResults s =
     (if hasFragment E uri \<or> jsonPointer (sourceContext sourceSchema) \<noteq> Some []
      then cloneRoots E cloneValues S rest allResults s
      else (case cloneValues (sourceValue sourceSchema)
                   \<lparr>baseURI = baseURI (sourceContext sourceSchema), jsonPointer = Some [],
                    resolvedURIs = []\<rparr>
                   (visitor E S) s of
              None \<Rightarrow> None
            | Some (Inl e) \<Rightarrow> Some (Inl e)
            | Some (Inr (v, s')) \<Rightarrow> cloneRoots E cloneValues S rest (setProp uri v allResults) s'))"

definition initialState :: "Node list \<Rightarrow> DState" where
  "initialState h =
     \<lparr>heap = h, dereferencedByURI = [], dereferencedBySource = [], placeholders = []\<rparr>"

definition sessionBaseURI :: "DerefHelpers \<Rightarrow> Options option \<Rightarrow> URI" where
  "sessionBaseURI E options =
     normalizeURI E
       (case options of
          None \<Rightarrow> defaultBaseURI
        | Some opts \<Rightarrow> (case optionsBaseURI opts of None \<Rightarrow> defaultBaseURI | Some b \<Rightarrow> b))"

definition dereferenceJSONSchema ::
  "DerefHelpers \<Rightarrow> IndexSchemasInto \<Rightarrow> CloneValues \<Rightarrow> Node list \<Rightarrow> val \<Rightarrow> Options option
   \<Rightarrow> (error + val \<times> DState) option" where
  "dereferenceJSONSchema E indexSchemasInto cloneValues h schema options =
     (let base = sessionBaseURI E options
      in case indexSchemasInto h schema base (retrieveDocument schema base options) of
           None \<Rightarrow> None
         | Some (Inl e) \<Rightarrow> Some (Inl e)
         | Some (Inr S) \<Rightarrow>
             (case cloneRoots E cloneValues S S [] (initialState h) of
                None \<Rightarrow> None
              | Some (Inl e) \<Rightarrow> Some (Inl e)
              | Some (Inr (allResults, s)) \<Rightarrow>
                  (case patchUp E s of
                     None \<Rightarrow> None
                   | Some (Inl e) \<Rightarrow> Some (Inl e)
                   | Some (Inr s') \<Rightarrow>
                       Some (Inr (case map_of allResults base of None \<Rightarrow> VUndefined | Some v \<Rightarrow> v,
                                  s')))))"

subsection \<open>Helpers and documents to evaluate on\<close>

text \<open>
  Stand-ins for the URI and pointer helpers, sufficient for fragment-only references
  into one document with the empty base URI: a fragment reference replaces the fragment
  of the base, a URI splits at its \<open>#\<close>, and a fragment is a JSON Pointer evaluated
  token by token through the properties of objects.
\<close>

fun splitTokens :: "string \<Rightarrow> string \<Rightarrow> string list" where
  "splitTokens [] token = [token]"
| "splitTokens (c # cs) token =
     (if c = CHR ''/'' then token # splitTokens cs [] else splitTokens cs (token @ [c]))"

definition pointerTokens :: "string \<Rightarrow> string list" where
  "pointerTokens fragment = (case fragment of [] \<Rightarrow> [] | c # cs \<Rightarrow> splitTokens cs [])"

fun walkTokens :: "Node list \<Rightarrow> string list \<Rightarrow> val \<Rightarrow> val" where
  "walkTokens h [] v = v"
| "walkTokens h (t # ts) (VRef a) = walkTokens h ts (getPropV t (props (nodeAt h a)))"
| "walkTokens h (t # ts) v = VUndefined"

definition exampleDerefHelpers :: DerefHelpers where
  "exampleDerefHelpers =
     \<lparr>resolveURIReference =
        (\<lambda>r base. case r of
                     [] \<Rightarrow> base
                   | c # cs \<Rightarrow> if c = CHR ''#'' then takeWhile (\<lambda>x. x \<noteq> CHR ''#'') base @ r else r),
      splitFragment =
        (\<lambda>uri. (takeWhile (\<lambda>x. x \<noteq> CHR ''#'') uri, drop 1 (dropWhile (\<lambda>x. x \<noteq> CHR ''#'') uri))),
      evaluateFragment = (\<lambda>h fragment v. walkTokens h (pointerTokens fragment) v),
      unescapeReferenceToken = (\<lambda>t. t),
      hasFragment = (\<lambda>uri. CHR ''#'' \<in> set uri),
      normalizeURI = (\<lambda>uri. uri)\<rparr>"

text \<open>A context of the traversal, and a \<open>cloneInto\<close> that has nothing to copy.\<close>

definition contextAt :: "JSONPointer \<Rightarrow> Context" where
  "contextAt p = \<lparr>baseURI = '''', jsonPointer = Some p, resolvedURIs = [''#'' @ p]\<rparr>"

definition rootContext :: Context where
  "rootContext = \<lparr>baseURI = '''', jsonPointer = Some '''', resolvedURIs = ['''', ''#'']\<rparr>"

definition noChildren :: CloneInto where
  "noChildren result s = Some (Inr s)"

text \<open>
  Storing a cloned child: \<open>result[key] = value\<close>, the step by which a traversal
  populates a result node.
\<close>

definition storeChild :: "val \<Rightarrow> string \<Rightarrow> val \<Rightarrow> DState \<Rightarrow> DState" where
  "storeChild result key v s =
     (case result of
        VRef a \<Rightarrow> s\<lparr>heap := updateNode a (\<lambda>n. n\<lparr>props := setProp key v (props n)\<rparr>) (heap s)\<rparr>
      | _ \<Rightarrow> s)"

text \<open>
  The document
  \<open>{definitions: {a: {$ref: '#/definitions/b', title: 'a'}, b: {$ref: '#/definitions/a', title: 'b'}}}\<close>:
  two references with siblings that extend each other. Objects 0 to 3 are the source;
  the index lists the root and the two definitions.
\<close>

definition cycleHeap :: "Node list" where
  "cycleHeap =
     [\<lparr>props = [(''definitions'', VRef 1)], marker = None\<rparr>,
      \<lparr>props = [(''a'', VRef 2), (''b'', VRef 3)], marker = None\<rparr>,
      \<lparr>props = [(''$ref'', VStr ''#/definitions/b''), (''title'', VStr ''a'')], marker = None\<rparr>,
      \<lparr>props = [(''$ref'', VStr ''#/definitions/a''), (''title'', VStr ''b'')], marker = None\<rparr>]"



text \<open>
  The traversal of that document, depth first: the root is a schema, its \<open>definitions\<close>
  a plain object whose two members are references.
\<close>

definition cycleCloneValues :: CloneValues where
  "cycleCloneValues v context visit s =
     visit (VisitSchema v) rootContext
       (\<lambda>result s1.
          case visit (VisitReference \<lparr>ref = ''#/definitions/b'', siblings = [(''title'', VStr ''a'')]\<rparr>)
                 (contextAt ''/definitions/a'') noChildren s1 of
            None \<Rightarrow> None
          | Some (Inl e) \<Rightarrow> Some (Inl e)
          | Some (Inr (a, s2)) \<Rightarrow>
              (case visit (VisitReference \<lparr>ref = ''#/definitions/a'', siblings = [(''title'', VStr ''b'')]\<rparr>)
                     (contextAt ''/definitions/b'') noChildren s2 of
                 None \<Rightarrow> None
               | Some (Inl e) \<Rightarrow> Some (Inl e)
               | Some (Inr (b, s3)) \<Rightarrow>
                   (let (definitions, s4) = allocate \<lparr>props = [(''a'', a), (''b'', b)], marker = None\<rparr> s3
                    in Some (Inr (storeChild result ''definitions'' definitions s4)))))
       s"





text \<open>
  Callbacks to evaluate on: one that throws the same exception for every URI, one that
  returns nothing, one that serves a document for \<open>urn:a\<close> and \<open>urn:b\<close>; and an indexer
  that requests one external document before it indexes the root.
\<close>

definition throwingOptions :: Options where
  "throwingOptions =
     \<lparr>optionsBaseURI = None, optionsRetrieve = Some (\<lambda>uri. CallbackThrows ''boom'')\<rparr>"

definition emptyHandedOptions :: Options where
  "emptyHandedOptions =
     \<lparr>optionsBaseURI = None, optionsRetrieve = Some (\<lambda>uri. CallbackReturns VUndefined)\<rparr>"

definition servingOptions :: Options where
  "servingOptions =
     \<lparr>optionsBaseURI = None,
      optionsRetrieve = Some (\<lambda>uri. if uri = ''urn:a'' then CallbackReturns (VRef 1)
                                     else if uri = ''urn:b'' then CallbackReturns (VRef 2)
                                     else CallbackReturns VUndefined)\<rparr>"

definition fetchingIndexer :: "URI \<Rightarrow> IndexSchemasInto" where
  "fetchingIndexer external h schema base retrieve =
     (case retrieve external of
        Inl e \<Rightarrow> Some (Inl e)
      | Inr document \<Rightarrow>
          Some (Inr [(base, \<lparr>sourceValue = schema, sourceContext = rootContext\<rparr>)]))"

text \<open>
  The document
  \<open>{properties: {a: {$ref: '#/shared'}, b: {$ref: '#/shared'}}, shared: {type: 'string'}}\<close>:
  two pure references to one location that is not a schema location, so the index has
  no entry for it. The traversal clones \<open>properties\<close> before \<open>shared\<close>, which it
  copies as a plain object.
\<close>

definition sharedHeap :: "Node list" where
  "sharedHeap =
     [\<lparr>props = [(''properties'', VRef 1), (''shared'', VRef 4)], marker = None\<rparr>,
      \<lparr>props = [(''a'', VRef 2), (''b'', VRef 3)], marker = None\<rparr>,
      \<lparr>props = [(''$ref'', VStr ''#/shared'')], marker = None\<rparr>,
      \<lparr>props = [(''$ref'', VStr ''#/shared'')], marker = None\<rparr>,
      \<lparr>props = [(''type'', VStr ''string'')], marker = None\<rparr>]"

definition sharedIndex :: "(URI \<times> SourceEntry) list" where
  "sharedIndex =
     [('''', \<lparr>sourceValue = VRef 0, sourceContext = rootContext\<rparr>),
      (''#/properties/a'', \<lparr>sourceValue = VRef 2, sourceContext = contextAt ''/properties/a''\<rparr>),
      (''#/properties/b'', \<lparr>sourceValue = VRef 3, sourceContext = contextAt ''/properties/b''\<rparr>)]"

definition sharedIndexer :: IndexSchemasInto where
  "sharedIndexer h schema base retrieve = Some (Inr sharedIndex)"

definition sharedCloneValues :: CloneValues where
  "sharedCloneValues v context visit s =
     visit (VisitSchema v) rootContext
       (\<lambda>result s1.
          case visit (VisitReference \<lparr>ref = ''#/shared'', siblings = []\<rparr>)
                 (contextAt ''/properties/a'') noChildren s1 of
            None \<Rightarrow> None
          | Some (Inl e) \<Rightarrow> Some (Inl e)
          | Some (Inr (a, s2)) \<Rightarrow>
              (case visit (VisitReference \<lparr>ref = ''#/shared'', siblings = []\<rparr>)
                     (contextAt ''/properties/b'') noChildren s2 of
                 None \<Rightarrow> None
               | Some (Inl e) \<Rightarrow> Some (Inl e)
               | Some (Inr (b, s3)) \<Rightarrow>
                   (let (properties, s4) = allocate \<lparr>props = [(''a'', a), (''b'', b)], marker = None\<rparr> s3;
                        s5 = storeChild result ''properties'' properties s4
                    in case visit (VisitOther (VStr ''string'')) (contextAt ''/shared/type'') noChildren s5 of
                         None \<Rightarrow> None
                       | Some (Inl e) \<Rightarrow> Some (Inl e)
                       | Some (Inr (t, s6)) \<Rightarrow>
                           (let (shared, s7) = allocate \<lparr>props = [(''type'', t)], marker = None\<rparr> s6
                            in Some (Inr (storeChild result ''shared'' shared s7))))))
       s"

text \<open>
  The same document with \<open>shared\<close> under \<open>definitions\<close>, a schema location: the index
  has an entry for the target and the traversal visits it as a schema.
\<close>

definition indexedHeap :: "Node list" where
  "indexedHeap =
     [\<lparr>props = [(''properties'', VRef 1), (''definitions'', VRef 4)], marker = None\<rparr>,
      \<lparr>props = [(''a'', VRef 2), (''b'', VRef 3)], marker = None\<rparr>,
      \<lparr>props = [(''$ref'', VStr ''#/definitions/shared'')], marker = None\<rparr>,
      \<lparr>props = [(''$ref'', VStr ''#/definitions/shared'')], marker = None\<rparr>,
      \<lparr>props = [(''shared'', VRef 5)], marker = None\<rparr>,
      \<lparr>props = [(''type'', VStr ''string'')], marker = None\<rparr>]"

definition indexedIndex :: "(URI \<times> SourceEntry) list" where
  "indexedIndex =
     [('''', \<lparr>sourceValue = VRef 0, sourceContext = rootContext\<rparr>),
      (''#/properties/a'', \<lparr>sourceValue = VRef 2, sourceContext = contextAt ''/properties/a''\<rparr>),
      (''#/properties/b'', \<lparr>sourceValue = VRef 3, sourceContext = contextAt ''/properties/b''\<rparr>),
      (''#/definitions/shared'',
       \<lparr>sourceValue = VRef 5, sourceContext = contextAt ''/definitions/shared''\<rparr>)]"

text \<open>
  The document
  \<open>{definitions: {target: {type: 'string', title: 't'}, extended: {$ref: '#/definitions/target', title: 'override'}}}\<close>
  and four states of its dereferencing: the target already cloned when the reference is
  visited; the target not cloned yet; the patch-up of the merged node once the target
  has been cloned into the placeholder; and the same for a merged node that other
  references already point to.
\<close>

definition precedenceHeap :: "Node list" where
  "precedenceHeap =
     [\<lparr>props = [(''definitions'', VRef 1)], marker = None\<rparr>,
      \<lparr>props = [(''target'', VRef 2), (''extended'', VRef 3)], marker = None\<rparr>,
      \<lparr>props = [(''type'', VStr ''string''), (''title'', VStr ''t'')], marker = None\<rparr>,
      \<lparr>props = [(''$ref'', VStr ''#/definitions/target''), (''title'', VStr ''override'')],
       marker = None\<rparr>]"

definition precedenceIndex :: "(URI \<times> SourceEntry) list" where
  "precedenceIndex =
     [('''', \<lparr>sourceValue = VRef 0, sourceContext = rootContext\<rparr>),
      (''#/definitions/target'',
       \<lparr>sourceValue = VRef 2, sourceContext = contextAt ''/definitions/target''\<rparr>),
      (''#/definitions/extended'',
       \<lparr>sourceValue = VRef 3, sourceContext = contextAt ''/definitions/extended''\<rparr>)]"

definition precedenceReference :: Reference where
  "precedenceReference = \<lparr>ref = ''#/definitions/target'', siblings = [(''title'', VStr ''override'')]\<rparr>"

definition precedenceCloned :: DState where
  "precedenceCloned =
     \<lparr>heap = precedenceHeap @
              [\<lparr>props = [], marker = None\<rparr>,
               \<lparr>props = [(''type'', VStr ''string''), (''title'', VStr ''t'')], marker = None\<rparr>],
      dereferencedByURI = [('''', VRef 4), (''#'', VRef 4), (''#/definitions/target'', VRef 5)],
      dereferencedBySource = [(VRef 0, VRef 4), (VRef 2, VRef 5)],
      placeholders = []\<rparr>"

definition precedencePending :: DState where
  "precedencePending =
     \<lparr>heap = precedenceHeap @ [\<lparr>props = [], marker = None\<rparr>],
      dereferencedByURI = [('''', VRef 4), (''#'', VRef 4)],
      dereferencedBySource = [(VRef 0, VRef 4)],
      placeholders = []\<rparr>"

definition precedencePatch :: "URI list option \<Rightarrow> DState" where
  "precedencePatch us =
     \<lparr>heap = precedenceHeap @
              [\<lparr>props = [(''definitions'', VRef 7)], marker = None\<rparr>,
               \<lparr>props = [(''title'', VStr ''override'')],
                marker = Some \<lparr>uris = us, indirect = Some (VRef 6)\<rparr>\<rparr>,
               \<lparr>props = [(''type'', VStr ''string''), (''title'', VStr ''t'')], marker = None\<rparr>,
               \<lparr>props = [(''extended'', VRef 5), (''target'', VRef 6)], marker = None\<rparr>],
      dereferencedByURI = [('''', VRef 4), (''#'', VRef 4), (''#/definitions/target'', VRef 6),
                           (''#/definitions/extended'', VRef 5)],
      dereferencedBySource = [(VRef 0, VRef 4), (VRef 2, VRef 6)],
      placeholders = [5]\<rparr>"

text \<open>
  The document
  \<open>{type: 'object', properties: {self: {$ref: '#', title: 't'}}, description: 'd'}\<close>:
  a reference with siblings whose target is the root, an ancestor of the reference. The
  traversal copies the members of the root in their order.
\<close>

definition ancestorHeap :: "Node list" where
  "ancestorHeap =
     [\<lparr>props = [(''type'', VStr ''object''), (''properties'', VRef 1), (''description'', VStr ''d'')],
       marker = None\<rparr>,
      \<lparr>props = [(''self'', VRef 2)], marker = None\<rparr>,
      \<lparr>props = [(''$ref'', VStr ''#''), (''title'', VStr ''t'')], marker = None\<rparr>]"

definition ancestorIndex :: "(URI \<times> SourceEntry) list" where
  "ancestorIndex =
     [('''', \<lparr>sourceValue = VRef 0, sourceContext = rootContext\<rparr>),
      (''#/properties/self'',
       \<lparr>sourceValue = VRef 2, sourceContext = contextAt ''/properties/self''\<rparr>)]"

definition ancestorIndexer :: IndexSchemasInto where
  "ancestorIndexer h schema base retrieve = Some (Inr ancestorIndex)"

definition ancestorCloneValues :: CloneValues where
  "ancestorCloneValues v context visit s =
     visit (VisitSchema v) rootContext
       (\<lambda>result s1.
          case visit (VisitOther (VStr ''object'')) (contextAt ''/type'') noChildren s1 of
            None \<Rightarrow> None
          | Some (Inl e) \<Rightarrow> Some (Inl e)
          | Some (Inr (t, s2)) \<Rightarrow>
              (case visit (VisitReference \<lparr>ref = ''#'', siblings = [(''title'', VStr ''t'')]\<rparr>)
                     (contextAt ''/properties/self'') noChildren (storeChild result ''type'' t s2) of
                 None \<Rightarrow> None
               | Some (Inl e) \<Rightarrow> Some (Inl e)
               | Some (Inr (self, s3)) \<Rightarrow>
                   (let (properties, s4) = allocate \<lparr>props = [(''self'', self)], marker = None\<rparr> s3;
                        s5 = storeChild result ''properties'' properties s4
                    in case visit (VisitOther (VStr ''d'')) (contextAt ''/description'') noChildren s5 of
                         None \<Rightarrow> None
                       | Some (Inl e) \<Rightarrow> Some (Inl e)
                       | Some (Inr (d, s6)) \<Rightarrow> Some (Inr (storeChild result ''description'' d s6)))))
       s"

text \<open>
  The document
  \<open>{properties: {a: {$ref: '#/properties/x'}, x: {$ref: '#/shared', title: 't'}}, shared: {type: 'string'}}\<close>:
  a pure reference to a reference with siblings whose target is cloned later. Nothing
  here is circular.
\<close>

definition chainHeap :: "Node list" where
  "chainHeap =
     [\<lparr>props = [(''properties'', VRef 1), (''shared'', VRef 4)], marker = None\<rparr>,
      \<lparr>props = [(''a'', VRef 2), (''x'', VRef 3)], marker = None\<rparr>,
      \<lparr>props = [(''$ref'', VStr ''#/properties/x'')], marker = None\<rparr>,
      \<lparr>props = [(''$ref'', VStr ''#/shared''), (''title'', VStr ''t'')], marker = None\<rparr>,
      \<lparr>props = [(''type'', VStr ''string'')], marker = None\<rparr>]"

definition chainIndex :: "(URI \<times> SourceEntry) list" where
  "chainIndex =
     [('''', \<lparr>sourceValue = VRef 0, sourceContext = rootContext\<rparr>),
      (''#/properties/a'', \<lparr>sourceValue = VRef 2, sourceContext = contextAt ''/properties/a''\<rparr>),
      (''#/properties/x'', \<lparr>sourceValue = VRef 3, sourceContext = contextAt ''/properties/x''\<rparr>)]"

definition chainIndexer :: IndexSchemasInto where
  "chainIndexer h schema base retrieve = Some (Inr chainIndex)"

definition chainCloneValues :: CloneValues where
  "chainCloneValues v context visit s =
     visit (VisitSchema v) rootContext
       (\<lambda>result s1.
          case visit (VisitReference \<lparr>ref = ''#/properties/x'', siblings = []\<rparr>)
                 (contextAt ''/properties/a'') noChildren s1 of
            None \<Rightarrow> None
          | Some (Inl e) \<Rightarrow> Some (Inl e)
          | Some (Inr (a, s2)) \<Rightarrow>
              (case visit (VisitReference \<lparr>ref = ''#/shared'', siblings = [(''title'', VStr ''t'')]\<rparr>)
                     (contextAt ''/properties/x'') noChildren s2 of
                 None \<Rightarrow> None
               | Some (Inl e) \<Rightarrow> Some (Inl e)
               | Some (Inr (x, s3)) \<Rightarrow>
                   (let (properties, s4) = allocate \<lparr>props = [(''a'', a), (''x'', x)], marker = None\<rparr> s3;
                        s5 = storeChild result ''properties'' properties s4
                    in case visit (VisitOther (VStr ''string'')) (contextAt ''/shared/type'') noChildren s5 of
                         None \<Rightarrow> None
                       | Some (Inl e) \<Rightarrow> Some (Inl e)
                       | Some (Inr (t, s6)) \<Rightarrow>
                           (let (shared, s7) = allocate \<lparr>props = [(''type'', t)], marker = None\<rparr> s6
                            in Some (Inr (storeChild result ''shared'' shared s7))))))
       s"

text \<open>
  Invariants of the store that the closures maintain: the keys of an object are distinct
  and every address held in a property or in \<open>dereferencedByURI\<close> is allocated. And
  what the engine relies on from \<open>evaluateFragment\<close>: it yields the value it starts
  from or a property value of some object.
\<close>

definition allocated :: "Node list \<Rightarrow> val \<Rightarrow> bool" where
  "allocated h v = (case v of VRef b \<Rightarrow> b < length h | _ \<Rightarrow> True)"

definition wellFormed :: "DState \<Rightarrow> bool" where
  "wellFormed s =
     ((\<forall>(u, v) \<in> set (dereferencedByURI s). allocated (heap s) v)
      \<and> (\<forall>n \<in> set (heap s). distinct (map fst (props n))
                              \<and> (\<forall>(k, v) \<in> set (props n). allocated (heap s) v)))"

definition fragmentWithin :: "DerefHelpers \<Rightarrow> bool" where
  "fragmentWithin E =
     (\<forall>h fragment v b. evaluateFragment E h fragment v = VRef b
          \<longrightarrow> v = VRef b \<or> (\<exists>n \<in> set h. VRef b \<in> snd ` set (props n)))"

section \<open>Properties of the keyword validators\<close>

text \<open>
  Claim C10. Each of the three compiled validators accepts every instance outside the JSON
  type its keyword applies to: the validators compiled for \<open>maxItems\<close> and
  \<open>uniqueItems\<close> return the plain valid output (no keyword, no message) for every
  instance that is not an array, whatever the bound, and the validator compiled for
  \<open>dependentRequired\<close> returns it for every instance that is not an object, whatever the
  dependencies.
\<close>

theorem keyword_validators_accept_other_types:
  "(\<forall>v. maxItemsValidator H schema sl ctx = Some v \<longrightarrow> \<not> isJSONArray inst
        \<longrightarrow> v inst il ann = validOutput sl il \<and> valid (v inst il ann))
   \<and> (\<forall>v. uniqueItemsValidator H schema sl ctx = Some v \<longrightarrow> \<not> isJSONArray inst
        \<longrightarrow> v inst il ann = validOutput sl il \<and> valid (v inst il ann))
   \<and> (\<forall>v. dependentRequiredValidator H schema sl ctx = Some v \<longrightarrow> \<not> isJSONObject inst
        \<longrightarrow> v inst il ann = validOutput sl il \<and> valid (v inst il ann))"
  by (auto simp: maxItemsValidator_def uniqueItemsValidator_def dependentRequiredValidator_def
                 validOutput_def split: option.splits if_splits)

theorem keyword_validators_accept_other_types_witness:
  "(\<exists>v. maxItemsValidator
          \<lparr>assert = (\<lambda>b m i. Output b (ai_schemaLocation i) (Some (ai_schemaKeyword i))
                              (ai_instanceLocation i) (if b then None else Some m) None),
           formatList = (\<lambda>xs w. concat xs), circularEqual = (=), showNumber = (\<lambda>r. ''n'')\<rparr>
          \<lparr>maxItems = Some 0, uniqueItems = Some True,
           dependentRequired = Some [(''a'', [''b''])]\<rparr> ''/s'' \<lparr>failFast = False\<rparr> = Some v
        \<and> \<not> isJSONArray (JStr ''abc'')
        \<and> v (JStr ''abc'') ''/i'' [] = validOutput ''/s'' ''/i'')
   \<and> (\<exists>v. uniqueItemsValidator
          \<lparr>assert = (\<lambda>b m i. Output b (ai_schemaLocation i) (Some (ai_schemaKeyword i))
                              (ai_instanceLocation i) (if b then None else Some m) None),
           formatList = (\<lambda>xs w. concat xs), circularEqual = (=), showNumber = (\<lambda>r. ''n'')\<rparr>
          \<lparr>maxItems = Some 0, uniqueItems = Some True,
           dependentRequired = Some [(''a'', [''b''])]\<rparr> ''/s'' \<lparr>failFast = False\<rparr> = Some v
        \<and> \<not> isJSONArray (JObj [(''x'', JNull), (''y'', JNull)])
        \<and> v (JObj [(''x'', JNull), (''y'', JNull)]) ''/i'' [] = validOutput ''/s'' ''/i'')
   \<and> (\<exists>v. dependentRequiredValidator
          \<lparr>assert = (\<lambda>b m i. Output b (ai_schemaLocation i) (Some (ai_schemaKeyword i))
                              (ai_instanceLocation i) (if b then None else Some m) None),
           formatList = (\<lambda>xs w. concat xs), circularEqual = (=), showNumber = (\<lambda>r. ''n'')\<rparr>
          \<lparr>maxItems = Some 0, uniqueItems = Some True,
           dependentRequired = Some [(''a'', [''b''])]\<rparr> ''/s'' \<lparr>failFast = False\<rparr> = Some v
        \<and> \<not> isJSONObject (JArr [JStr ''a''])
        \<and> v (JArr [JStr ''a'']) ''/i'' [] = validOutput ''/s'' ''/i'')"
  using keyword_validators_accept_other_types
    [of "\<lparr>assert = (\<lambda>b m i. Output b (ai_schemaLocation i) (Some (ai_schemaKeyword i))
                              (ai_instanceLocation i) (if b then None else Some m) None),
           formatList = (\<lambda>xs w. concat xs), circularEqual = (=), showNumber = (\<lambda>r. ''n'')\<rparr>"
        "\<lparr>maxItems = Some 0, uniqueItems = Some True,
           dependentRequired = Some [(''a'', [''b''])]\<rparr>" "''/s''" "\<lparr>failFast = False\<rparr>"]
  by (simp add: maxItemsValidator_def uniqueItemsValidator_def dependentRequiredValidator_def)

section \<open>Properties of dynamic reference resolution\<close>

lemma declaresDynamicAnchor_True:
  "declaresDynamicAnchor E target a = Inr True \<Longrightarrow>
   \<exists>ps d. a = JObj ps \<and> hasKey ''$dynamicAnchor'' ps \<and> member target ''$dynamicAnchor'' = Inr d
        \<and> strictEquals (sameObject E) (getProp ''$dynamicAnchor'' ps) d"
  by (cases a) (auto simp: declaresDynamicAnchor_def split: sum.splits bool.splits if_splits)

lemma declaresDynamicAnchor_False:
  "member target ''$dynamicAnchor'' = Inr d \<Longrightarrow>
   hasKey ''$dynamicAnchor'' aps \<longrightarrow> \<not> strictEquals (sameObject E) (getProp ''$dynamicAnchor'' aps) d \<Longrightarrow>
   declaresDynamicAnchor E target (JObj aps) = Inr False"
  by (auto simp: declaresDynamicAnchor_def split: sum.splits bool.splits if_splits)

lemma idRootedCandidate_Some:
  "idRootedCandidate E I target c = Inr (Some a) \<Longrightarrow>
   declaresDynamicAnchor E target a = Inr True \<and>
   (\<exists>cps ident d. c = JObj cps \<and> getProp ''$id'' cps = JStr ident
        \<and> member target ''$dynamicAnchor'' = Inr d
        \<and> find I (Some (dynamicAnchorURI E I ident c d)) = Inr a)"
  by (cases c) (auto simp: idRootedCandidate_def split: sum.splits bool.splits if_splits json.splits)

lemma idRootedCandidate_rejects:
  "hasKey ''$id'' cps \<Longrightarrow> getProp ''$id'' cps = JStr ident \<Longrightarrow>
   member target ''$dynamicAnchor'' = Inr d \<Longrightarrow>
   find I (Some (dynamicAnchorURI E I ident (JObj cps) d)) = Inr (JObj aps) \<Longrightarrow>
   hasKey ''$dynamicAnchor'' aps \<longrightarrow> \<not> strictEquals (sameObject E) (getProp ''$dynamicAnchor'' aps) d \<Longrightarrow>
   idRootedCandidate E I target (JObj cps) = Inr None"
  using declaresDynamicAnchor_False [of target d aps E]
  by (simp add: idRootedCandidate_def)

text \<open>
  Claim C4. When a node on the scope path declares an \<open>$id\<close> and a node is indexed at the
  URI made of that \<open>$id\<close> and the sought anchor name, that node wins only if it is an
  object that itself declares a \<open>$dynamicAnchor\<close> strictly equal to the sought name. A
  node found there without such a \<open>$dynamicAnchor\<close> (its anchor of that name is a plain
  \<open>$anchor\<close>) is not accepted, and the walk goes on with the rest of the path.
\<close>

theorem id_rooted_candidate_needs_dynamic_anchor:
  "(idRootedCandidate E I target c = Inr (Some a) \<longrightarrow>
      (\<exists>ps d. a = JObj ps \<and> hasKey ''$dynamicAnchor'' ps
           \<and> member target ''$dynamicAnchor'' = Inr d
           \<and> strictEquals (sameObject E) (getProp ''$dynamicAnchor'' ps) d))
   \<and> (\<forall>cps ident d aps.
        c = JObj cps \<and> hasKey ''$id'' cps \<and> getProp ''$id'' cps = JStr ident
        \<and> member target ''$dynamicAnchor'' = Inr d
        \<and> find I (Some (dynamicAnchorURI E I ident c d)) = Inr (JObj aps)
        \<and> (hasKey ''$dynamicAnchor'' aps
             \<longrightarrow> \<not> strictEquals (sameObject E) (getProp ''$dynamicAnchor'' aps) d)
        \<longrightarrow> idRootedCandidate E I target c = Inr None
            \<and> (\<forall>p rest cand.
                  nextCandidate E I dref p cand = Inr c \<and> declaresDynamicAnchor E target c = Inr False
                  \<longrightarrow> scopeWalk E I dref target (p # rest) cand = scopeWalk E I dref target rest c))"
proof (intro conjI impI allI)
  assume "idRootedCandidate E I target c = Inr (Some a)"
  then show "\<exists>ps d. a = JObj ps \<and> hasKey ''$dynamicAnchor'' ps
           \<and> member target ''$dynamicAnchor'' = Inr d
           \<and> strictEquals (sameObject E) (getProp ''$dynamicAnchor'' ps) d"
    using idRootedCandidate_Some declaresDynamicAnchor_True by blast
next
  fix cps ident d aps
  assume h: "c = JObj cps \<and> hasKey ''$id'' cps \<and> getProp ''$id'' cps = JStr ident
        \<and> member target ''$dynamicAnchor'' = Inr d
        \<and> find I (Some (dynamicAnchorURI E I ident c d)) = Inr (JObj aps)
        \<and> (hasKey ''$dynamicAnchor'' aps
             \<longrightarrow> \<not> strictEquals (sameObject E) (getProp ''$dynamicAnchor'' aps) d)"
  then show none: "idRootedCandidate E I target c = Inr None"
    using idRootedCandidate_rejects [of cps ident target d I E aps] by blast
  fix p rest cand
  assume "nextCandidate E I dref p cand = Inr c \<and> declaresDynamicAnchor E target c = Inr False"
  with none h show "scopeWalk E I dref target (p # rest) cand = scopeWalk E I dref target rest c"
    by simp
qed

theorem id_rooted_candidate_needs_dynamic_anchor_witness:
  "idRootedCandidate exampleHelpers exampleIndex exampleBaseNode exampleRoot
     = Inr (Some exampleExtendedNode)
   \<and> (\<exists>ps d. exampleExtendedNode = JObj ps \<and> hasKey ''$dynamicAnchor'' ps
          \<and> member exampleBaseNode ''$dynamicAnchor'' = Inr d
          \<and> strictEquals (sameObject exampleHelpers) (getProp ''$dynamicAnchor'' ps) d)
   \<and> find exampleStaticIndex
        (Some (dynamicAnchorURI exampleHelpers exampleStaticIndex ''urn:extended'' exampleRoot
                 (JStr ''node'')))
       = Inr exampleStaticNode
   \<and> idRootedCandidate exampleHelpers exampleStaticIndex exampleBaseNode exampleRoot = Inr None
   \<and> scopeWalk exampleHelpers exampleStaticIndex exampleDynamicRef exampleBaseNode
        ['''', ''/title''] exampleRoot
       = scopeWalk exampleHelpers exampleStaticIndex exampleDynamicRef exampleBaseNode
           [''/title''] exampleRoot"
proof -
  have accepted: "idRootedCandidate exampleHelpers exampleIndex exampleBaseNode exampleRoot
     = Inr (Some exampleExtendedNode)"
    by code_simp
  have target: "member exampleBaseNode ''$dynamicAnchor'' = Inr (JStr ''node'')"
    by code_simp
  from id_rooted_candidate_needs_dynamic_anchor
         [of exampleHelpers exampleIndex exampleBaseNode exampleRoot exampleExtendedNode]
       accepted
  have shape: "\<exists>ps d. exampleExtendedNode = JObj ps \<and> hasKey ''$dynamicAnchor'' ps
          \<and> member exampleBaseNode ''$dynamicAnchor'' = Inr d
          \<and> strictEquals (sameObject exampleHelpers) (getProp ''$dynamicAnchor'' ps) d"
    by blast
  have found: "find exampleStaticIndex
        (Some (dynamicAnchorURI exampleHelpers exampleStaticIndex ''urn:extended'' exampleRoot
                 (JStr ''node'')))
       = Inr exampleStaticNode"
    by code_simp
  have hyps: "exampleRoot = JObj [(''$id'', JStr ''urn:extended''), (''$ref'', JStr ''urn:extended#node''),
           (''$dynamicRef'', JStr ''urn:extended#node'')]
     \<and> hasKey ''$id'' [(''$id'', JStr ''urn:extended''), (''$ref'', JStr ''urn:extended#node''),
           (''$dynamicRef'', JStr ''urn:extended#node'')]
     \<and> getProp ''$id'' [(''$id'', JStr ''urn:extended''), (''$ref'', JStr ''urn:extended#node''),
           (''$dynamicRef'', JStr ''urn:extended#node'')] = JStr ''urn:extended''
     \<and> member exampleBaseNode ''$dynamicAnchor'' = Inr (JStr ''node'')
     \<and> find exampleStaticIndex
          (Some (dynamicAnchorURI exampleHelpers exampleStaticIndex ''urn:extended'' exampleRoot
                   (JStr ''node'')))
         = Inr (JObj [(''$anchor'', JStr ''node''), (''title'', JStr ''static'')])
     \<and> (hasKey ''$dynamicAnchor'' [(''$anchor'', JStr ''node''), (''title'', JStr ''static'')]
          \<longrightarrow> \<not> strictEquals (sameObject exampleHelpers)
                 (getProp ''$dynamicAnchor'' [(''$anchor'', JStr ''node''), (''title'', JStr ''static'')])
                 (JStr ''node''))"
    using found target
    by (simp add: exampleRoot_def exampleStaticNode_def hasKey_def getProp_def)
  have step: "nextCandidate exampleHelpers exampleStaticIndex exampleDynamicRef '''' exampleRoot
                = Inr exampleRoot
              \<and> declaresDynamicAnchor exampleHelpers exampleBaseNode exampleRoot = Inr False"
    by code_simp
  from id_rooted_candidate_needs_dynamic_anchor
         [of exampleHelpers exampleStaticIndex exampleBaseNode exampleRoot exampleStaticNode
             exampleDynamicRef]
       hyps step
  have rejected: "idRootedCandidate exampleHelpers exampleStaticIndex exampleBaseNode exampleRoot = Inr None"
    and goes_on: "scopeWalk exampleHelpers exampleStaticIndex exampleDynamicRef exampleBaseNode
        ['''', ''/title''] exampleRoot
       = scopeWalk exampleHelpers exampleStaticIndex exampleDynamicRef exampleBaseNode
           [''/title''] exampleRoot"
    by blast+
  from accepted shape found rejected goes_on show ?thesis by blast
qed

text \<open>
  Claim C5. A dynamic reference whose statically resolved URI has a JSON Pointer fragment
  resolves to the statically resolved target, the result of the plain reference lookup,
  for every scope path: the path and the root are not looked at.
\<close>

theorem dynamic_reference_with_pointer_fragment_is_static:
  assumes "references I dynamicReference = Some info"
      and "find I (Some (resolvedURI info)) = Inr target"
      and "PointerHelpers.splitFragment E (Some (resolvedURI info)) = Inr (absoluteURI, fragment)"
      and "isJSONPointer E fragment"
  shows "dereferenceDynamicReference E I uri dynamicReference schemaPath = Inr target
         \<and> dereferenceDynamicReference E I uri dynamicReference schemaPath
             = dereferenceReference_index I uri dynamicReference schemaPath"
  using assms by (simp add: dereferenceDynamicReference_def dereferenceReference_index_def)

theorem dynamic_reference_with_pointer_fragment_is_static_witness:
  "references exampleIndex examplePointerRef = Some \<lparr>resolvedURI = ''urn:extended#/definitions/node''\<rparr>
   \<and> find exampleIndex (Some ''urn:extended#/definitions/node'') = Inr exampleExtendedNode
   \<and> PointerHelpers.splitFragment exampleHelpers (Some ''urn:extended#/definitions/node'')
       = Inr (''urn:extended'', Some ''/definitions/node'')
   \<and> isJSONPointer exampleHelpers (Some ''/definitions/node'')
   \<and> dereferenceDynamicReference exampleHelpers exampleIndex [] examplePointerRef ['''', ''/$ref'']
       = Inr exampleExtendedNode"
proof -
  have r: "references exampleIndex examplePointerRef = Some \<lparr>resolvedURI = ''urn:extended#/definitions/node''\<rparr>"
    by code_simp
  have f: "find exampleIndex (Some (resolvedURI \<lparr>resolvedURI = ''urn:extended#/definitions/node''\<rparr>))
             = Inr exampleExtendedNode"
    by code_simp
  have sp: "PointerHelpers.splitFragment exampleHelpers (Some (resolvedURI \<lparr>resolvedURI = ''urn:extended#/definitions/node''\<rparr>))
       = Inr (''urn:extended'', Some ''/definitions/node'')"
    by code_simp
  have p: "isJSONPointer exampleHelpers (Some ''/definitions/node'')"
    by code_simp
  from dynamic_reference_with_pointer_fragment_is_static [OF r f sp p, of "[]" "['''', ''/$ref'']"]
  have "dereferenceDynamicReference exampleHelpers exampleIndex [] examplePointerRef ['''', ''/$ref'']
       = Inr exampleExtendedNode"
    by simp
  with r f sp p show ?thesis by simp
qed

lemma scopeWalk_no_match:
  "candidatesAlong E I dref path cand = Inr cs \<Longrightarrow>
   (\<forall>c \<in> set cs. typeOf c = ''object'' \<longrightarrow>
        declaresDynamicAnchor E target c = Inr False \<and> idRootedCandidate E I target c = Inr None) \<Longrightarrow>
   scopeWalk E I dref target path cand = Inr target"
proof (induction path arbitrary: cand cs)
  case Nil
  then show ?case by simp
next
  case (Cons p ps)
  from Cons.prems(1) obtain c cs' where
    c: "nextCandidate E I dref p cand = Inr c" and
    cs': "candidatesAlong E I dref ps c = Inr cs'" and
    cs: "cs = c # cs'"
    by (auto split: sum.splits)
  have rest: "scopeWalk E I dref target ps c = Inr target"
    using Cons.IH [OF cs'] Cons.prems(2) cs by simp
  show ?case
  proof (cases "typeOf c = ''object''")
    case True
    with Cons.prems(2) cs have
      "declaresDynamicAnchor E target c = Inr False" "idRootedCandidate E I target c = Inr None"
      by simp_all
    with c rest True show ?thesis by simp
  next
    case False
    with c rest show ?thesis by simp
  qed
qed

text \<open>
  Where the fallback holds. When the static target is found, its URI's fragment is not a
  JSON Pointer, every step of the path evaluates, and on every candidate whose \<open>typeof\<close>
  is \<open>object\<close> the two tests of the loop evaluate and find no match, the result is the
  statically resolved target. The tests evaluate on objects and arrays; they do not on
  \<open>null\<close>.
\<close>

theorem dynamic_reference_without_match_is_static:
  assumes "references I dynamicReference = Some info"
      and "find I (Some (resolvedURI info)) = Inr target"
      and "PointerHelpers.splitFragment E (Some (resolvedURI info)) = Inr (absoluteURI, fragment)"
      and "\<not> isJSONPointer E fragment"
      and "candidatesAlong E I dynamicReference schemaPath (root I) = Inr cs"
      and "\<forall>c \<in> set cs. typeOf c = ''object'' \<longrightarrow>
             declaresDynamicAnchor E target c = Inr False \<and> idRootedCandidate E I target c = Inr None"
  shows "dereferenceDynamicReference E I uri dynamicReference schemaPath = Inr target"
  using assms scopeWalk_no_match [of E I dynamicReference schemaPath "root I" cs target]
  by (simp add: dereferenceDynamicReference_def)

theorem dynamic_reference_without_match_is_static_witness:
  "references exampleStaticIndex exampleDynamicRef = Some \<lparr>resolvedURI = ''urn:base#node''\<rparr>
   \<and> find exampleStaticIndex (Some ''urn:base#node'') = Inr exampleBaseNode
   \<and> PointerHelpers.splitFragment exampleHelpers (Some ''urn:base#node'') = Inr (''urn:base'', Some ''node'')
   \<and> \<not> isJSONPointer exampleHelpers (Some ''node'')
   \<and> candidatesAlong exampleHelpers exampleStaticIndex exampleDynamicRef ['''', ''/title'']
        (root exampleStaticIndex) = Inr [exampleRoot, JUndefined]
   \<and> dereferenceDynamicReference exampleHelpers exampleStaticIndex [] exampleDynamicRef ['''', ''/title'']
       = Inr exampleBaseNode"
proof -
  have r: "references exampleStaticIndex exampleDynamicRef = Some \<lparr>resolvedURI = ''urn:base#node''\<rparr>"
    by code_simp
  have f: "find exampleStaticIndex (Some (resolvedURI \<lparr>resolvedURI = ''urn:base#node''\<rparr>))
             = Inr exampleBaseNode"
    by code_simp
  have sp: "PointerHelpers.splitFragment exampleHelpers (Some (resolvedURI \<lparr>resolvedURI = ''urn:base#node''\<rparr>))
              = Inr (''urn:base'', Some ''node'')"
    by code_simp
  have p: "\<not> isJSONPointer exampleHelpers (Some ''node'')"
    by code_simp
  have cs: "candidatesAlong exampleHelpers exampleStaticIndex exampleDynamicRef ['''', ''/title'']
        (root exampleStaticIndex) = Inr [exampleRoot, JUndefined]"
    by code_simp
  have m1: "declaresDynamicAnchor exampleHelpers exampleBaseNode exampleRoot = Inr False"
    by code_simp
  have m2: "idRootedCandidate exampleHelpers exampleStaticIndex exampleBaseNode exampleRoot = Inr None"
    by code_simp
  have none: "\<forall>c \<in> set [exampleRoot, JUndefined]. typeOf c = ''object'' \<longrightarrow>
             declaresDynamicAnchor exampleHelpers exampleBaseNode c = Inr False
             \<and> idRootedCandidate exampleHelpers exampleStaticIndex exampleBaseNode c = Inr None"
    using m1 m2 by simp
  from dynamic_reference_without_match_is_static [OF r f sp p cs none, of "[]"]
  have "dereferenceDynamicReference exampleHelpers exampleStaticIndex [] exampleDynamicRef ['''', ''/title'']
       = Inr exampleBaseNode" .
  with r f sp p cs show ?thesis by simp
qed

text \<open>
  Claim C6 does not hold of the code. The guard of line 105 lets \<open>null\<close> through, since
  \<open>typeof null\<close> is \<open>object\<close>, and \<open>'$dynamicAnchor' in null\<close> on line 109 throws. On
  the path that goes from the root \<open>{$id: 'urn:nulled', default: null}\<close> to its member
  \<open>default\<close>, no node declares the sought anchor, directly or below its \<open>$id\<close>, and the
  static target exists; yet the resolution ends in a \<open>TypeError\<close> instead of the static
  target.
\<close>

theorem dynamic_reference_null_candidate_throws:
  "candidatesAlong exampleHelpers exampleNullIndex exampleDynamicRef ['''', ''/default'']
       (root exampleNullIndex) = Inr [exampleNullRoot, JNull]
   \<and> declaresDynamicAnchor exampleHelpers exampleBaseNode exampleNullRoot = Inr False
   \<and> idRootedCandidate exampleHelpers exampleNullIndex exampleBaseNode exampleNullRoot = Inr None
   \<and> typeOf JNull = ''object''
   \<and> dereferenceReference_index exampleNullIndex [] exampleDynamicRef [] = Inr exampleBaseNode
   \<and> dereferenceDynamicReference exampleHelpers exampleNullIndex [] exampleDynamicRef ['''', ''/default'']
       = Inl (TypeError ''Cannot use the in operator to search for a key in a primitive'')"
  by code_simp

text \<open>
  Claim C7, as stated, fails on the code: only a path step that is exactly \<open>/$ref\<close> is
  re-resolved. At the step \<open>/$dynamicRef\<close> the candidate becomes the reference string
  itself; the node it designates (which declares the sought dynamic anchor) is never
  visited, and the resolution falls back to the static target, where the same node
  reached through \<open>/$ref\<close> wins.
\<close>

theorem sub_reference_dynamicRef_counterexample:
  "member exampleRoot ''$dynamicRef'' = Inr (JStr ''urn:extended#node'')
   \<and> find exampleIndex (Some (PointerHelpers.resolveURIReference exampleHelpers ''urn:extended#node'' (Some ''urn:base'')))
       = Inr exampleExtendedNode
   \<and> nextCandidate exampleHelpers exampleIndex exampleDynamicRef ''/$dynamicRef'' exampleRoot
       = Inr (JStr ''urn:extended#node'')
   \<and> dereferenceDynamicReference exampleHelpers exampleIndex [] exampleDynamicRef [''/$dynamicRef'']
       = Inr exampleBaseNode
   \<and> nextCandidate exampleHelpers exampleIndex exampleDynamicRef ''/$ref'' exampleRoot
       = Inr exampleExtendedNode
   \<and> dereferenceDynamicReference exampleHelpers exampleIndex [] exampleDynamicRef [''/$ref'']
       = Inr exampleExtendedNode
   \<and> exampleExtendedNode \<noteq> exampleBaseNode"
  by code_simp

text \<open>
  Claim C7, amended. At every position of the scope path, a step that is exactly \<open>/$ref\<close>
  and evaluates to a string is re-resolved: the string is resolved against the base URI
  recorded for the dynamic reference under resolution, the node found there becomes the
  candidate, and the walk continues from it. Every other step, \<open>/$dynamicRef\<close> included,
  leaves the evaluated value as the candidate.
\<close>

theorem sub_reference_step_follows_ref_only:
  "(evaluateJSONPointer E ''/$ref'' cand = Inr (JStr s)
      \<and> SchemaIndex_infoForIndexedObject I dynamicReference = Some info
      \<and> find I (Some (PointerHelpers.resolveURIReference E s (Some (IndexInfo.baseURI info)))) = Inr t
    \<longrightarrow> nextCandidate E I dynamicReference ''/$ref'' cand = Inr t
        \<and> candidatesAlong E I dynamicReference (''/$ref'' # rest) cand
            = (case candidatesAlong E I dynamicReference rest t of
                 Inl e \<Rightarrow> Inl e | Inr cs \<Rightarrow> Inr (t # cs)))
   \<and> (p \<noteq> ''/$ref''
    \<longrightarrow> nextCandidate E I dynamicReference p cand = evaluateJSONPointer E p cand)"
  by (auto simp: nextCandidate_def subReferenceStep_def split: sum.splits json.splits)

theorem sub_reference_step_follows_ref_only_witness:
  "evaluateJSONPointer exampleHelpers ''/$ref'' exampleRoot = Inr (JStr ''urn:extended#node'')
   \<and> SchemaIndex_infoForIndexedObject exampleIndex exampleDynamicRef = Some \<lparr>IndexInfo.baseURI = ''urn:base''\<rparr>
   \<and> find exampleIndex (Some (PointerHelpers.resolveURIReference exampleHelpers ''urn:extended#node'' (Some ''urn:base'')))
       = Inr exampleExtendedNode
   \<and> nextCandidate exampleHelpers exampleIndex exampleDynamicRef ''/$ref'' exampleRoot
       = Inr exampleExtendedNode
   \<and> candidatesAlong exampleHelpers exampleIndex exampleDynamicRef [''/$ref'', ''/title''] exampleRoot
       = Inr [exampleExtendedNode, JStr ''extended'']
   \<and> ''/$dynamicRef'' \<noteq> ''/$ref''
   \<and> nextCandidate exampleHelpers exampleIndex exampleDynamicRef ''/$dynamicRef'' exampleRoot
       = Inr (JStr ''urn:extended#node'')"
proof -
  have e: "evaluateJSONPointer exampleHelpers ''/$ref'' exampleRoot = Inr (JStr ''urn:extended#node'')"
    by code_simp
  have i: "SchemaIndex_infoForIndexedObject exampleIndex exampleDynamicRef = Some \<lparr>IndexInfo.baseURI = ''urn:base''\<rparr>"
    by code_simp
  have f: "find exampleIndex (Some (PointerHelpers.resolveURIReference exampleHelpers ''urn:extended#node''
                                      (Some (IndexInfo.baseURI \<lparr>IndexInfo.baseURI = ''urn:base''\<rparr>))))
       = Inr exampleExtendedNode"
    by code_simp
  have rest: "candidatesAlong exampleHelpers exampleIndex exampleDynamicRef [''/title''] exampleExtendedNode
                = Inr [JStr ''extended'']"
    by code_simp
  have ne: "''/$dynamicRef'' \<noteq> ''/$ref''" by simp
  have ev: "evaluateJSONPointer exampleHelpers ''/$dynamicRef'' exampleRoot = Inr (JStr ''urn:extended#node'')"
    by code_simp
  from sub_reference_step_follows_ref_only
         [of exampleHelpers exampleRoot "''urn:extended#node''" exampleIndex exampleDynamicRef
             "\<lparr>IndexInfo.baseURI = ''urn:base''\<rparr>" exampleExtendedNode "[''/title'']" "''/$dynamicRef''"]
       e i f rest ne ev
  have "nextCandidate exampleHelpers exampleIndex exampleDynamicRef ''/$ref'' exampleRoot
       = Inr exampleExtendedNode"
    and "candidatesAlong exampleHelpers exampleIndex exampleDynamicRef [''/$ref'', ''/title''] exampleRoot
       = Inr [exampleExtendedNode, JStr ''extended'']"
    and "nextCandidate exampleHelpers exampleIndex exampleDynamicRef ''/$dynamicRef'' exampleRoot
       = Inr (JStr ''urn:extended#node'')"
    by simp_all
  with e i f ne show ?thesis by simp
qed

section \<open>Properties of the dereferencing engine\<close>

subsection \<open>Retrieval\<close>

lemma memoizedRetrieve_invariant:
  assumes "memoizedRetrieve schema base options uri st = (r, st')"
      and "distinct (callbackLog st)" and "base \<notin> set (callbackLog st)"
      and "set (callbackLog st) \<subseteq> fst ` set (cache st)"
  shows "distinct (callbackLog st') \<and> base \<notin> set (callbackLog st')
         \<and> (\<forall>d. r = Inr d \<longrightarrow> set (callbackLog st') \<subseteq> fst ` set (cache st'))"
proof (cases "map_of (cache st) uri")
  case (Some d)
  with assms show ?thesis by (auto simp: memoizedRetrieve_def)
next
  case None
  then have notin: "uri \<notin> fst ` set (cache st)" by (simp add: map_of_eq_None_iff)
  with assms(4) have "uri \<notin> set (callbackLog st)" by blast
  with assms None show ?thesis
    by (auto simp: memoizedRetrieve_def Let_def invokesCallback_def split: sum.splits if_splits)
qed

lemma retrieveAll_invariant:
  "retrieveAll schema base options requests st = (r, st') \<Longrightarrow>
   distinct (callbackLog st) \<Longrightarrow> base \<notin> set (callbackLog st) \<Longrightarrow>
   set (callbackLog st) \<subseteq> fst ` set (cache st) \<Longrightarrow>
   distinct (callbackLog st') \<and> base \<notin> set (callbackLog st')"
proof (induction requests arbitrary: st r st')
  case Nil
  then show ?case by simp
next
  case (Cons uri rest)
  obtain r1 st1 where m: "memoizedRetrieve schema base options uri st = (r1, st1)"
    by (cases "memoizedRetrieve schema base options uri st")
  from memoizedRetrieve_invariant [OF m Cons.prems(2,3,4)]
  have inv: "distinct (callbackLog st1)" "base \<notin> set (callbackLog st1)"
    and cached: "\<forall>d. r1 = Inr d \<longrightarrow> set (callbackLog st1) \<subseteq> fst ` set (cache st1)"
    by simp_all
  show ?case
  proof (cases r1)
    case (Inl e)
    with Cons.prems(1) m inv show ?thesis by simp
  next
    case (Inr d)
    obtain r2 st2 where rest: "retrieveAll schema base options rest st1 = (r2, st2)"
      by (cases "retrieveAll schema base options rest st1")
    from Cons.IH [OF rest inv] cached Inr
    have "distinct (callbackLog st2) \<and> base \<notin> set (callbackLog st2)" by simp
    moreover from Cons.prems(1) m Inr rest have "st' = st2"
      by (auto split: sum.splits)
    ultimately show ?thesis by simp
  qed
qed

lemma memoizedRetrieve_hit:
  "memoizedRetrieve schema base options uri st = (Inr d, st1) \<Longrightarrow>
   memoizedRetrieve schema base options uri st1 = (Inr d, st1)"
  by (auto simp: memoizedRetrieve_def Let_def split: option.splits sum.splits)

lemma memoizedRetrieve_base:
  "callbackLog (snd (memoizedRetrieve schema base options base st)) = callbackLog st"
  by (auto simp: memoizedRetrieve_def Let_def invokesCallback_def split: option.splits sum.splits)

lemma memoizedRetrieve_base_value:
  "map_of (cache st) base = None \<Longrightarrow> truthyV schema \<Longrightarrow>
   fst (memoizedRetrieve schema base options base st) = Inr schema"
  by (auto simp: memoizedRetrieve_def Let_def retrieveDocument_def split: option.splits sum.splits)

text \<open>
  Claim C9. Within one session, whatever URIs are requested and in whatever order, the
  caller's retrieval callback is invoked at most once per URI and never for the base URI:
  a second request for a URI that was retrieved is answered from the cache, the state
  unchanged; a request for the base URI leaves the callback log as it is and yields the
  root schema.
\<close>

theorem retrieval_callback_invoked_at_most_once:
  "(\<forall>r st. retrieveAll schema base options requests emptyRetrieveState = (r, st)
       \<longrightarrow> distinct (callbackLog st) \<and> base \<notin> set (callbackLog st))
   \<and> (\<forall>st d st1. memoizedRetrieve schema base options uri st = (Inr d, st1)
       \<longrightarrow> memoizedRetrieve schema base options uri st1 = (Inr d, st1))
   \<and> (\<forall>st. callbackLog (snd (memoizedRetrieve schema base options base st)) = callbackLog st
           \<and> (map_of (cache st) base = None \<and> truthyV schema
                \<longrightarrow> fst (memoizedRetrieve schema base options base st) = Inr schema))"
  using retrieveAll_invariant [of schema base options requests emptyRetrieveState]
        memoizedRetrieve_hit [of schema base options uri]
        memoizedRetrieve_base [of schema base options]
        memoizedRetrieve_base_value [of _ base schema options]
  by (simp add: emptyRetrieveState_def)

subsection \<open>The patch-up loop\<close>

text \<open>
  An iteration that leaves a non-empty set of placeholders as it found it is repeated
  forever: the loop takes the first element of the set again.
\<close>

lemma patchUp_stuck:
  assumes "patchStep E s = Inr s" and "placeholders s \<noteq> []"
  shows "patchUp E s = None"
proof (rule ccontr)
  assume "patchUp E s \<noteq> None"
  then obtain y where y: "patchUp E s = Some y" by auto
  have "\<not> (patchStep E s = Inr s \<and> placeholders s \<noteq> [])"
  proof (rule patchUp.raw_induct
           [where P = "\<lambda>E s y. \<not> (patchStep E s = Inr s \<and> placeholders s \<noteq> [])", OF _ y])
    fix f E' s' y'
    assume IH: "\<And>E s y. f E s = Some y \<Longrightarrow> \<not> (patchStep E s = Inr s \<and> placeholders s \<noteq> [])"
       and unfold: "(if placeholders s' = [] then Some (Inr s')
                     else case patchStep E' s' of Inl e \<Rightarrow> Some (Inl e) | Inr s'' \<Rightarrow> f E' s'')
                    = Some y'"
    show "\<not> (patchStep E' s' = Inr s' \<and> placeholders s' \<noteq> [])"
    proof
      assume stuck: "patchStep E' s' = Inr s' \<and> placeholders s' \<noteq> []"
      with unfold have "f E' s' = Some y'" by simp
      from IH [OF this] stuck show False by simp
    qed
  qed
  with assms show False by simp
qed

lemma patchStep_continue:
  "placeholders s = a # others \<Longrightarrow> marker (nodeAt (heap s) a) = Some info \<Longrightarrow>
   indirect info = Some ind \<Longrightarrow> truthyV ind \<Longrightarrow> isPlaceholder (heap s) ind \<Longrightarrow>
   patchStep E s = Inr s"
  by (simp add: patchStep_def)




theorem retrieval_callback_invoked_at_most_once_witness:
  "retrieveAll (VRef 0) '''' (Some servingOptions) [''urn:a'', '''', ''urn:a'', ''urn:b'', ''urn:b'']
       emptyRetrieveState
     = (Inr [VRef 1, VRef 0, VRef 1, VRef 2, VRef 2],
        \<lparr>cache = [(''urn:b'', VRef 2), ('''', VRef 0), (''urn:a'', VRef 1)],
         callbackLog = [''urn:a'', ''urn:b'']\<rparr>)
   \<and> distinct [''urn:a'', ''urn:b''] \<and> '''' \<notin> set [''urn:a'', ''urn:b'']
   \<and> memoizedRetrieve (VRef 0) '''' (Some servingOptions) ''urn:a'' emptyRetrieveState
       = (Inr (VRef 1), \<lparr>cache = [(''urn:a'', VRef 1)], callbackLog = [''urn:a'']\<rparr>)
   \<and> memoizedRetrieve (VRef 0) '''' (Some servingOptions) ''urn:a''
         \<lparr>cache = [(''urn:a'', VRef 1)], callbackLog = [''urn:a'']\<rparr>
       = (Inr (VRef 1), \<lparr>cache = [(''urn:a'', VRef 1)], callbackLog = [''urn:a'']\<rparr>)
   \<and> fst (memoizedRetrieve (VRef 0) '''' (Some servingOptions) '''' emptyRetrieveState) = Inr (VRef 0)"
proof -
  have run: "retrieveAll (VRef 0) '''' (Some servingOptions) [''urn:a'', '''', ''urn:a'', ''urn:b'', ''urn:b'']
       emptyRetrieveState
     = (Inr [VRef 1, VRef 0, VRef 1, VRef 2, VRef 2],
        \<lparr>cache = [(''urn:b'', VRef 2), ('''', VRef 0), (''urn:a'', VRef 1)],
         callbackLog = [''urn:a'', ''urn:b'']\<rparr>)"
    by code_simp
  have one: "memoizedRetrieve (VRef 0) '''' (Some servingOptions) ''urn:a'' emptyRetrieveState
       = (Inr (VRef 1), \<lparr>cache = [(''urn:a'', VRef 1)], callbackLog = [''urn:a'']\<rparr>)"
    by code_simp
  have miss: "map_of (cache emptyRetrieveState) '''' = None \<and> truthyV (VRef 0)"
    by code_simp
  note once = retrieval_callback_invoked_at_most_once
               [of "VRef 0" "''''" "Some servingOptions"
                   "[''urn:a'', '''', ''urn:a'', ''urn:b'', ''urn:b'']" "''urn:a''"]
  from once run have "distinct [''urn:a'', ''urn:b''] \<and> '''' \<notin> set [''urn:a'', ''urn:b'']"
    by fastforce
  moreover from once one
  have "memoizedRetrieve (VRef 0) '''' (Some servingOptions) ''urn:a''
         \<lparr>cache = [(''urn:a'', VRef 1)], callbackLog = [''urn:a'']\<rparr>
       = (Inr (VRef 1), \<lparr>cache = [(''urn:a'', VRef 1)], callbackLog = [''urn:a'']\<rparr>)"
    by blast
  moreover from once miss
  have "fst (memoizedRetrieve (VRef 0) '''' (Some servingOptions) '''' emptyRetrieveState) = Inr (VRef 0)"
    by blast
  ultimately show ?thesis using run one by blast
qed

lemma retrieveDocument_cases:
  assumes "uri \<noteq> base" and "options = Some opts" and "optionsRetrieve opts = Some callback"
  shows "retrieveDocument schema base options uri =
           (case callback uri of
              CallbackThrows e \<Rightarrow> Inl (Thrown e)
            | CallbackReturns d \<Rightarrow>
                if nullish d then Inl (CannotRetrieveURI uri)
                else if \<not> truthyV d then Inl (InvalidDocumentAt uri) else Inr d)"
  using assms
  by (auto simp: retrieveDocument_def defaultRetrieve_def split: CallbackResult.splits)

lemma memoizedRetrieve_failure:
  assumes "uri \<noteq> base" and "options = Some opts" and "optionsRetrieve opts = Some callback"
      and "retrieveDocument schema base options uri = Inl e" and "map_of (cache st) uri = None"
  shows "memoizedRetrieve schema base options uri st = (Inl e, st\<lparr>callbackLog := callbackLog st @ [uri]\<rparr>)"
  using assms by (simp add: memoizedRetrieve_def invokesCallback_def)

lemma indexing_error_propagates:
  "indexSchemasInto h schema (sessionBaseURI E options)
     (retrieveDocument schema (sessionBaseURI E options) options) = Some (Inl e) \<Longrightarrow>
   dereferenceJSONSchema E indexSchemasInto cloneValues h schema options = Some (Inl e)"
  by (simp add: dereferenceJSONSchema_def)

lemma lookupURI_unmark [simp]: "lookupURI (unmark v s) u = lookupURI s u"
  by (cases v) (simp_all add: unmark_def lookupURI_def)

lemma patchOwn_missing:
  assumes "\<not> truthyV (lookupURI s uri)"
      and "splitFragment E uri = (absoluteURI, fragment)"
      and "truthyV (lookupURI s absoluteURI) \<longrightarrow>
             \<not> truthyV (evaluateFragment E (heap (unmark (VRef a) s)) fragment (lookupURI s absoluteURI))"
  shows "patchOwn E a (Some (uri # rest)) s = Inl (NoPlaceholderAt uri)"
  using assms by (auto simp: patchOwn_def Let_def)

text \<open>
  Claim C8, amended. For a URI other than the base URI and a caller that supplied a
  callback: when the callback returns nothing the engine throws \<open>Cannot retrieve URI\<close>
  naming the URI; when it returns another falsy value, \<open>Invalid document\<close> naming the
  URI; when the callback throws, its own exception is passed on as it is. A document that
  is returned is truthy. The failing request invokes the callback once, caches nothing
  and ends the session's requests; an error raised while indexing is what
  \<open>dereferenceJSONSchema\<close> throws. In the patch-up phase a placeholder for whose first
  URI no value exists raises \<open>No placeholder at\<close> naming that URI.
\<close>

theorem failed_retrieval_is_surfaced:
  assumes "uri \<noteq> base" and "options = Some opts" and "optionsRetrieve opts = Some callback"
  shows "(\<forall>d. callback uri = CallbackReturns d \<and> nullish d
            \<longrightarrow> retrieveDocument schema base options uri = Inl (CannotRetrieveURI uri))
       \<and> (\<forall>d. callback uri = CallbackReturns d \<and> \<not> nullish d \<and> \<not> truthyV d
            \<longrightarrow> retrieveDocument schema base options uri = Inl (InvalidDocumentAt uri))
       \<and> (\<forall>e. callback uri = CallbackThrows e
            \<longrightarrow> retrieveDocument schema base options uri = Inl (Thrown e))
       \<and> (\<forall>d. retrieveDocument schema base options uri = Inr d
            \<longrightarrow> truthyV d \<and> callback uri = CallbackReturns d)
       \<and> (\<forall>e st rest. retrieveDocument schema base options uri = Inl e \<and> map_of (cache st) uri = None
            \<longrightarrow> memoizedRetrieve schema base options uri st
                  = (Inl e, st\<lparr>callbackLog := callbackLog st @ [uri]\<rparr>)
                \<and> retrieveAll schema base options (uri # rest) st
                  = (Inl e, st\<lparr>callbackLog := callbackLog st @ [uri]\<rparr>))
       \<and> (\<forall>e E indexSchemasInto cloneValues h.
             base = sessionBaseURI E options
             \<and> indexSchemasInto h schema base (retrieveDocument schema base options) = Some (Inl e)
            \<longrightarrow> dereferenceJSONSchema E indexSchemasInto cloneValues h schema options = Some (Inl e))
       \<and> (\<forall>E s a u us absoluteURI fragment.
             \<not> truthyV (lookupURI s u) \<and> splitFragment E u = (absoluteURI, fragment)
             \<and> (truthyV (lookupURI s absoluteURI)
                  \<longrightarrow> \<not> truthyV (evaluateFragment E (heap (unmark (VRef a) s)) fragment
                                   (lookupURI s absoluteURI)))
            \<longrightarrow> patchOwn E a (Some (u # us)) s = Inl (NoPlaceholderAt u))"
proof -
  note rd = retrieveDocument_cases [OF assms, of schema]
  have 1: "\<forall>d. callback uri = CallbackReturns d \<and> nullish d
            \<longrightarrow> retrieveDocument schema base options uri = Inl (CannotRetrieveURI uri)"
    by (simp add: rd)
  have 2: "\<forall>d. callback uri = CallbackReturns d \<and> \<not> nullish d \<and> \<not> truthyV d
            \<longrightarrow> retrieveDocument schema base options uri = Inl (InvalidDocumentAt uri)"
    by (simp add: rd)
  have 3: "\<forall>e. callback uri = CallbackThrows e
            \<longrightarrow> retrieveDocument schema base options uri = Inl (Thrown e)"
    by (simp add: rd)
  have 4: "\<forall>d. retrieveDocument schema base options uri = Inr d
            \<longrightarrow> truthyV d \<and> callback uri = CallbackReturns d"
    by (auto simp: rd split: CallbackResult.splits if_splits)
  have 5: "\<forall>e st rest. retrieveDocument schema base options uri = Inl e \<and> map_of (cache st) uri = None
            \<longrightarrow> memoizedRetrieve schema base options uri st
                  = (Inl e, st\<lparr>callbackLog := callbackLog st @ [uri]\<rparr>)
                \<and> retrieveAll schema base options (uri # rest) st
                  = (Inl e, st\<lparr>callbackLog := callbackLog st @ [uri]\<rparr>)"
    using memoizedRetrieve_failure [OF assms] by simp
  have 6: "\<forall>e E indexSchemasInto cloneValues h.
             base = sessionBaseURI E options
             \<and> indexSchemasInto h schema base (retrieveDocument schema base options) = Some (Inl e)
            \<longrightarrow> dereferenceJSONSchema E indexSchemasInto cloneValues h schema options = Some (Inl e)"
    using indexing_error_propagates by blast
  have 7: "\<forall>E s a u us absoluteURI fragment.
             \<not> truthyV (lookupURI s u) \<and> splitFragment E u = (absoluteURI, fragment)
             \<and> (truthyV (lookupURI s absoluteURI)
                  \<longrightarrow> \<not> truthyV (evaluateFragment E (heap (unmark (VRef a) s)) fragment
                                   (lookupURI s absoluteURI)))
            \<longrightarrow> patchOwn E a (Some (u # us)) s = Inl (NoPlaceholderAt u)"
    using patchOwn_missing by blast
  from 1 2 3 4 5 6 7 show ?thesis by blast
qed

text \<open>
  Claim C8, as stated, fails when the callback throws: the engine adds nothing to the
  callback's exception, so two references to different URIs surface the very same error,
  which names neither.
\<close>

theorem thrown_retrieval_error_counterexample:
  "retrieveDocument (VRef 0) '''' (Some throwingOptions) ''urn:a'' = Inl (Thrown ''boom'')
   \<and> retrieveDocument (VRef 0) '''' (Some throwingOptions) ''urn:b'' = Inl (Thrown ''boom'')
   \<and> ''urn:a'' \<noteq> ''urn:b''
   \<and> dereferenceJSONSchema exampleDerefHelpers (fetchingIndexer ''urn:a'') cycleCloneValues cycleHeap
        (VRef 0) (Some throwingOptions) = Some (Inl (Thrown ''boom''))
   \<and> dereferenceJSONSchema exampleDerefHelpers (fetchingIndexer ''urn:b'') cycleCloneValues cycleHeap
        (VRef 0) (Some throwingOptions) = Some (Inl (Thrown ''boom''))"
  by code_simp

theorem failed_retrieval_is_surfaced_witness:
  "''urn:a'' \<noteq> '''' \<and> optionsRetrieve emptyHandedOptions = Some (\<lambda>uri. CallbackReturns VUndefined)
   \<and> nullish VUndefined
   \<and> retrieveDocument (VRef 0) '''' (Some emptyHandedOptions) ''urn:a'' = Inl (CannotRetrieveURI ''urn:a'')
   \<and> map_of (cache emptyRetrieveState) ''urn:a'' = None
   \<and> retrieveAll (VRef 0) '''' (Some emptyHandedOptions) [''urn:a'', ''urn:b''] emptyRetrieveState
       = (Inl (CannotRetrieveURI ''urn:a''),
          emptyRetrieveState\<lparr>callbackLog := callbackLog emptyRetrieveState @ [''urn:a'']\<rparr>)
   \<and> '''' = sessionBaseURI exampleDerefHelpers (Some emptyHandedOptions)
   \<and> fetchingIndexer ''urn:a'' cycleHeap (VRef 0) ''''
        (retrieveDocument (VRef 0) '''' (Some emptyHandedOptions)) = Some (Inl (CannotRetrieveURI ''urn:a''))
   \<and> dereferenceJSONSchema exampleDerefHelpers (fetchingIndexer ''urn:a'') cycleCloneValues cycleHeap
        (VRef 0) (Some emptyHandedOptions) = Some (Inl (CannotRetrieveURI ''urn:a''))
   \<and> \<not> truthyV (lookupURI (initialState cycleHeap) ''#/x'')
   \<and> splitFragment exampleDerefHelpers ''#/x'' = ('''', ''/x'')
   \<and> \<not> truthyV (lookupURI (initialState cycleHeap) '''')
   \<and> patchOwn exampleDerefHelpers 0 (Some [''#/x'']) (initialState cycleHeap) = Inl (NoPlaceholderAt ''#/x'')"
proof -
  have a1: "''urn:a'' \<noteq> ''''" by simp
  have a3: "optionsRetrieve emptyHandedOptions = Some (\<lambda>uri. CallbackReturns VUndefined)"
    by (simp add: emptyHandedOptions_def)
  note surfaced = failed_retrieval_is_surfaced [OF a1 refl a3, of "VRef 0"]
  have nothing: "(\<lambda>uri. CallbackReturns VUndefined) ''urn:a'' = CallbackReturns VUndefined \<and> nullish VUndefined"
    by simp
  note c1 = surfaced [THEN conjunct1, rule_format]
  note c5 = surfaced [THEN conjunct2, THEN conjunct2, THEN conjunct2, THEN conjunct2, THEN conjunct1,
                      rule_format]
  note c6 = surfaced [THEN conjunct2, THEN conjunct2, THEN conjunct2, THEN conjunct2, THEN conjunct2,
                      THEN conjunct1, rule_format]
  note c7 = surfaced [THEN conjunct2, THEN conjunct2, THEN conjunct2, THEN conjunct2, THEN conjunct2,
                      THEN conjunct2, rule_format]
  have r: "retrieveDocument (VRef 0) '''' (Some emptyHandedOptions) ''urn:a'' = Inl (CannotRetrieveURI ''urn:a'')"
    by (rule c1 [of VUndefined]) simp_all
  have miss: "map_of (cache emptyRetrieveState) ''urn:a'' = None"
    by (simp add: emptyRetrieveState_def)
  have run: "retrieveAll (VRef 0) '''' (Some emptyHandedOptions) [''urn:a'', ''urn:b''] emptyRetrieveState
       = (Inl (CannotRetrieveURI ''urn:a''),
          emptyRetrieveState\<lparr>callbackLog := callbackLog emptyRetrieveState @ [''urn:a'']\<rparr>)"
    using c5 [of "CannotRetrieveURI ''urn:a''" emptyRetrieveState "[''urn:b'']"] r miss by simp
  have b: "'''' = sessionBaseURI exampleDerefHelpers (Some emptyHandedOptions)"
    by code_simp
  have ix: "fetchingIndexer ''urn:a'' cycleHeap (VRef 0) ''''
        (retrieveDocument (VRef 0) '''' (Some emptyHandedOptions)) = Some (Inl (CannotRetrieveURI ''urn:a''))"
    using r by (simp add: fetchingIndexer_def)
  have top: "dereferenceJSONSchema exampleDerefHelpers (fetchingIndexer ''urn:a'') cycleCloneValues cycleHeap
        (VRef 0) (Some emptyHandedOptions) = Some (Inl (CannotRetrieveURI ''urn:a''))"
    by (rule c6) (rule conjI [OF b ix])
  have p1: "\<not> truthyV (lookupURI (initialState cycleHeap) ''#/x'')" by code_simp
  have p2: "splitFragment exampleDerefHelpers ''#/x'' = ('''', ''/x'')" by code_simp
  have p3: "\<not> truthyV (lookupURI (initialState cycleHeap) '''')" by code_simp
  have patch: "patchOwn exampleDerefHelpers 0 (Some [''#/x'']) (initialState cycleHeap)
                 = Inl (NoPlaceholderAt ''#/x'')"
    by (rule c7 [where absoluteURI = "[]" and fragment = "[CHR 0x2F, CHR 0x78]"]) (use p1 p2 p3 in simp)
  from a1 a3 r miss run b ix top p1 p2 p3 patch show ?thesis by simp
qed

subsection \<open>Property lists and the tables of the session\<close>

lemma map_of_setProp: "map_of (setProp k v ps) = (map_of ps)(k \<mapsto> v)"
  by (induction ps) (auto simp: fun_upd_twist)

lemma keys_setProp: "set (map fst (setProp k v ps)) = insert k (set (map fst ps))"
proof (induction ps)
  case Nil
  then show ?case by simp
next
  case (Cons p ps)
  obtain k' v' where p: "p = (k', v')" by (cases p)
  show ?case
  proof (cases "k = k'")
    case True
    then show ?thesis by (simp add: p)
  next
    case False
    then show ?thesis using Cons.IH by (simp add: p insert_commute)
  qed
qed

lemma distinct_setProp: "distinct (map fst ps) \<Longrightarrow> distinct (map fst (setProp k v ps))"
proof (induction ps)
  case Nil
  then show ?case by simp
next
  case (Cons p ps)
  obtain k' v' where p: "p = (k', v')" by (cases p)
  show ?case
  proof (cases "k = k'")
    case True
    with Cons.prems p show ?thesis by simp
  next
    case False
    from Cons have "distinct (map fst (setProp k v ps))" by simp
    moreover from Cons.prems p False have "k' \<notin> set (map fst (setProp k v ps))"
      unfolding keys_setProp by simp
    ultimately show ?thesis using p False by simp
  qed
qed

lemma map_of_rev_distinct: "distinct (map fst xs) \<Longrightarrow> map_of (rev xs) = map_of xs"
proof (induction xs)
  case Nil
  then show ?case by simp
next
  case (Cons p xs)
  obtain k v where p: "p = (k, v)" by (cases p)
  from Cons.prems p have notin: "map_of xs k = None"
    by (simp add: map_of_eq_None_iff)
  from Cons have IH: "map_of (rev xs) = map_of xs" by simp
  show ?case
  proof (rule ext)
    fix x
    show "map_of (rev (p # xs)) x = map_of (p # xs) x"
      using notin IH by (simp add: p map_add_def split: option.splits)
  qed
qed

lemma map_of_assignProps: "map_of (assignProps tgt src) = map_of tgt ++ map_of (rev src)"
proof (induction src arbitrary: tgt)
  case Nil
  then show ?case by (simp add: assignProps_def)
next
  case (Cons p src)
  obtain k v where p: "p = (k, v)" by (cases p)
  have step: "assignProps tgt (p # src) = assignProps (setProp k v tgt) src"
    by (simp add: assignProps_def p)
  show ?case
  proof (rule ext)
    fix x
    show "map_of (assignProps tgt (p # src)) x = (map_of tgt ++ map_of (rev (p # src))) x"
      unfolding step Cons.IH [of "setProp k v tgt"]
      by (simp add: p map_of_setProp map_add_def split: option.splits)
  qed
qed

lemma getPropV_assignProps_src:
  "distinct (map fst src) \<Longrightarrow> map_of src k = Some v \<Longrightarrow> getPropV k (assignProps tgt src) = v"
  by (simp add: getPropV_def map_of_assignProps map_of_rev_distinct)

lemma getPropV_assignProps_tgt:
  assumes "k \<notin> set (map fst src)"
  shows "getPropV k (assignProps tgt src) = getPropV k tgt"
proof -
  from assms have "map_of (rev src) k = None"
    by (simp add: map_of_eq_None_iff)
  then show ?thesis
    by (simp add: getPropV_def map_of_assignProps map_add_def)
qed

lemma keys_assignProps: "set (map fst (assignProps tgt src)) = set (map fst tgt) \<union> set (map fst src)"
proof (induction src arbitrary: tgt)
  case Nil
  then show ?case by (simp add: assignProps_def)
next
  case (Cons p src)
  obtain k v where p: "p = (k, v)" by (cases p)
  have "assignProps tgt (p # src) = assignProps (setProp k v tgt) src"
    by (simp add: assignProps_def p)
  then show ?case using Cons.IH [of "setProp k v tgt"] keys_setProp [of k v tgt]
    by (auto simp: p)
qed

lemma distinct_assignProps:
  "distinct (map fst tgt) \<Longrightarrow> distinct (map fst (assignProps tgt src))"
proof (induction src arbitrary: tgt)
  case Nil
  then show ?case by (simp add: assignProps_def)
next
  case (Cons p src)
  obtain k v where p: "p = (k, v)" by (cases p)
  have "assignProps tgt (p # src) = assignProps (setProp k v tgt) src"
    by (simp add: assignProps_def p)
  then show ?case using Cons.IH [of "setProp k v tgt"] Cons.prems
    by (simp add: distinct_setProp)
qed

lemma map_of_fold_setProp:
  "map_of (fold (\<lambda>u. setProp u v) us ps) u = (if u \<in> set us then Some v else map_of ps u)"
  by (induction us arbitrary: ps) (auto simp: map_of_setProp)

lemma lookupURI_registerURIs:
  "lookupURI (registerURIs us v s) u = (if u \<in> set us then v else lookupURI s u)"
  by (simp add: lookupURI_def registerURIs_def map_of_fold_setProp)

lemma lookupURI_allocate [simp]: "lookupURI (snd (allocate n s)) u = lookupURI s u"
  by (simp add: allocate_def lookupURI_def)

lemma lookupURI_placeholdersAdd [simp]: "lookupURI (placeholdersAdd v s) u = lookupURI s u"
  by (cases v) (simp_all add: placeholdersAdd_def lookupURI_def)


subsection \<open>Identity sharing\<close>

text \<open>The value \<open>resolveTarget\<close> returns is truthy, and it is the entry found when there is one.\<close>

lemma resolveTarget_truthy: "resolveTarget E uri rs s = (v, s') \<Longrightarrow> truthyV v"
  by (auto simp: resolveTarget_def Let_def allocate_def split: prod.splits if_splits)

lemma resolveTarget_found:
  "truthyV (lookupURI s uri) \<Longrightarrow>
   resolveTarget E uri rs s = (lookupURI s uri, registerURIs rs (lookupURI s uri) s)"
  by (simp add: resolveTarget_def Let_def)

lemma resolveTarget_registers:
  "resolveTarget E uri rs s = (v, s') \<Longrightarrow> u \<in> set rs \<Longrightarrow> lookupURI s' u = v"
  by (auto simp: resolveTarget_def Let_def lookupURI_registerURIs split: prod.splits if_splits)

lemma resolveTarget_keeps:
  "resolveTarget E uri rs s = (v, s') \<Longrightarrow> truthyV (lookupURI s uri) \<Longrightarrow> lookupURI s' uri = v"
  by (auto simp: resolveTarget_found lookupURI_registerURIs)

lemma dereferenceReference_shares:
  assumes first: "dereferenceReference E S r1 c1 s = Some (Inr (v1, s1))"
      and f1: "followReferences E S (heap s) r1 (baseURI c1) (resolvedURIs c1) = Some (Inr (uri, rs1))"
      and registered: "uri \<in> set rs1 \<or> truthyV (lookupURI s uri)"
      and later: "lookupURI s2 uri = lookupURI s1 uri"
      and f2: "followReferences E S (heap s2) r2 (baseURI c2) (resolvedURIs c2) = Some (Inr (uri, rs2))"
  shows "dereferenceReference E S r2 c2 s2 = Some (Inr (v1, registerURIs rs2 v1 s2))"
    and "truthyV v1" and "lookupURI s1 uri = v1"
proof -
  from first f1 have rt: "resolveTarget E uri rs1 s = (v1, s1)"
    by (simp add: dereferenceReference_def)
  then show t: "truthyV v1" by (rule resolveTarget_truthy)
  from registered rt show l: "lookupURI s1 uri = v1"
    using resolveTarget_registers resolveTarget_keeps by blast
  from l later t have "truthyV (lookupURI s2 uri)" "lookupURI s2 uri = v1" by simp_all
  with f2 show "dereferenceReference E S r2 c2 s2 = Some (Inr (v1, registerURIs rs2 v1 s2))"
    by (simp add: dereferenceReference_def resolveTarget_found)
qed

text \<open>
  \<open>dereferenceSubschema\<close> hands \<open>cloneInto\<close> the result node in a state in which every
  URI of the schema is registered to that node.
\<close>

lemma dereferenceSubschema_registers:
  assumes "map_of (dereferencedBySource s) schema = None"
      and "\<not> (truthyV (lookupFirst (lookupURI s) (resolvedURIs context) VUndefined)
              \<and> \<not> isPlaceholder (heap s) (lookupFirst (lookupURI s) (resolvedURIs context) VUndefined))"
  shows "\<exists>result s3.
           (\<forall>u \<in> set (resolvedURIs context). lookupURI s3 u = result)
           \<and> (nullish (lookupFirst (lookupURI s) (resolvedURIs context) VUndefined)
                \<longrightarrow> result = VRef (length (heap s)))
           \<and> (\<not> nullish (lookupFirst (lookupURI s) (resolvedURIs context) VUndefined)
                \<longrightarrow> result = lookupFirst (lookupURI s) (resolvedURIs context) VUndefined)
           \<and> (\<forall>cloneInto. dereferenceSubschema schema context cloneInto s =
                 (case cloneInto result s3 of
                    None \<Rightarrow> None
                  | Some (Inl e) \<Rightarrow> Some (Inl e)
                  | Some (Inr s4) \<Rightarrow> Some (Inr (result, s4))))"
proof -
  let ?found = "lookupFirst (lookupURI s) (resolvedURIs context) VUndefined"
  let ?s1 = "if truthyV ?found then unmark ?found s else s"
  let ?rs2 = "if nullish ?found then allocate emptyNode ?s1 else (?found, ?s1)"
  let ?s3 = "registerURIs (resolvedURIs context) (fst ?rs2)
               ((snd ?rs2)\<lparr>dereferencedBySource :=
                            setProp schema (fst ?rs2) (dereferencedBySource (snd ?rs2))\<rparr>)"
  have reg: "\<forall>u \<in> set (resolvedURIs context). lookupURI ?s3 u = fst ?rs2"
    by (simp add: lookupURI_registerURIs)
  have len: "length (heap ?s1) = length (heap s)"
    by (cases ?found) (simp_all add: unmark_def updateNode_def)
  have fresh: "nullish ?found \<longrightarrow> fst ?rs2 = VRef (length (heap s))"
    using len by (simp add: allocate_def)
  have old: "\<not> nullish ?found \<longrightarrow> fst ?rs2 = ?found"
    by simp
  have call: "\<forall>cloneInto. dereferenceSubschema schema context cloneInto s =
                 (case cloneInto (fst ?rs2) ?s3 of
                    None \<Rightarrow> None
                  | Some (Inl e) \<Rightarrow> Some (Inl e)
                  | Some (Inr s4) \<Rightarrow> Some (Inr (fst ?rs2, s4)))"
    using assms
    by (simp add: dereferenceSubschema_def Let_def split_beta)
  from reg fresh old call show ?thesis
    by blast
qed


text \<open>
  Claim C1, as stated, fails for a target that has no entry in the index. In the document
  \<open>{properties: {a: {$ref: '#/shared'}, b: {$ref: '#/shared'}}, shared: {type: 'string'}}\<close>
  both references resolve to \<open>#/shared\<close>; neither call registers that URI, each stores a
  placeholder of its own, and the patch-up copies the properties of \<open>shared\<close> into both:
  the two sites end as two distinct nodes with equal content, distinct from \<open>shared\<close> too.
\<close>

theorem unindexed_target_not_shared_counterexample:
  "followReferences exampleDerefHelpers sharedIndex sharedHeap ''#/shared'' '''' [''#/properties/a'']
     = Some (Inr (''#/shared'', [''#/properties/a'']))
   \<and> followReferences exampleDerefHelpers sharedIndex sharedHeap ''#/shared'' '''' [''#/properties/b'']
     = Some (Inr (''#/shared'', [''#/properties/b'']))
   \<and> (case dereferenceJSONSchema exampleDerefHelpers sharedIndexer sharedCloneValues sharedHeap (VRef 0) None of
         Some (Inr (res, st)) \<Rightarrow>
           walkTokens (heap st) [''properties'', ''a''] res = VRef 6
           \<and> walkTokens (heap st) [''properties'', ''b''] res = VRef 7
           \<and> walkTokens (heap st) [''shared''] res = VRef 9
           \<and> props (nodeAt (heap st) 6) = [(''type'', VStr ''string'')]
           \<and> props (nodeAt (heap st) 7) = [(''type'', VStr ''string'')]
           \<and> props (nodeAt (heap st) 9) = [(''type'', VStr ''string'')]
       | _ \<Rightarrow> False)
   \<and> VRef 6 \<noteq> VRef 7"
  by code_simp


text \<open>
  Claim C1, amended. When a pure reference has been dereferenced to a node and its target
  URI is registered by that call (the index has an entry for the target, whose URIs are
  then among those the call registers) or was registered before, every later pure
  reference that resolves to the same URI, while the entry stands, yields that very node.
  And once \<open>dereferenceSubschema\<close> has started on a schema, every pure reference that
  resolves to one of the schema's URIs yields the schema's result node: this is the case
  of the root and of an ancestor of the reference site, whose children are cloned after
  the registration.
\<close>

theorem references_to_registered_target_share_node:
  "(dereferenceReference E S r1 c1 s = Some (Inr (v1, s1))
      \<and> followReferences E S (heap s) r1 (baseURI c1) (resolvedURIs c1) = Some (Inr (uri, rs1))
      \<and> (uri \<in> set rs1 \<or> truthyV (lookupURI s uri))
      \<and> lookupURI s2 uri = lookupURI s1 uri
      \<and> followReferences E S (heap s2) r2 (baseURI c2) (resolvedURIs c2) = Some (Inr (uri, rs2))
    \<longrightarrow> dereferenceReference E S r2 c2 s2 = Some (Inr (v1, registerURIs rs2 v1 s2))
        \<and> truthyV v1 \<and> lookupURI s1 uri = v1)
   \<and> (map_of (dereferencedBySource s) schema = None
      \<and> \<not> (truthyV (lookupFirst (lookupURI s) (resolvedURIs ctx) VUndefined)
             \<and> \<not> isPlaceholder (heap s) (lookupFirst (lookupURI s) (resolvedURIs ctx) VUndefined))
    \<longrightarrow> (\<exists>result s3.
           (\<forall>cloneInto. dereferenceSubschema schema ctx cloneInto s =
                 (case cloneInto result s3 of
                    None \<Rightarrow> None
                  | Some (Inl e) \<Rightarrow> Some (Inl e)
                  | Some (Inr s4) \<Rightarrow> Some (Inr (result, s4))))
           \<and> (\<forall>r c u rs. u \<in> set (resolvedURIs ctx) \<and> truthyV result
                   \<and> followReferences E S (heap s3) r (baseURI c) (resolvedURIs c) = Some (Inr (u, rs))
                 \<longrightarrow> dereferenceReference E S r c s3 = Some (Inr (result, registerURIs rs result s3)))))"
proof (intro conjI impI)
  assume h: "dereferenceReference E S r1 c1 s = Some (Inr (v1, s1))
      \<and> followReferences E S (heap s) r1 (baseURI c1) (resolvedURIs c1) = Some (Inr (uri, rs1))
      \<and> (uri \<in> set rs1 \<or> truthyV (lookupURI s uri))
      \<and> lookupURI s2 uri = lookupURI s1 uri
      \<and> followReferences E S (heap s2) r2 (baseURI c2) (resolvedURIs c2) = Some (Inr (uri, rs2))"
  then have a: "dereferenceReference E S r1 c1 s = Some (Inr (v1, s1))"
    and b: "followReferences E S (heap s) r1 (baseURI c1) (resolvedURIs c1) = Some (Inr (uri, rs1))"
    and c: "uri \<in> set rs1 \<or> truthyV (lookupURI s uri)"
    and d: "lookupURI s2 uri = lookupURI s1 uri"
    and e: "followReferences E S (heap s2) r2 (baseURI c2) (resolvedURIs c2) = Some (Inr (uri, rs2))"
    by simp_all
  from dereferenceReference_shares [OF a b c d e]
  show "dereferenceReference E S r2 c2 s2 = Some (Inr (v1, registerURIs rs2 v1 s2))"
    and "truthyV v1" and "lookupURI s1 uri = v1" .
next
  assume h: "map_of (dereferencedBySource s) schema = None
      \<and> \<not> (truthyV (lookupFirst (lookupURI s) (resolvedURIs ctx) VUndefined)
             \<and> \<not> isPlaceholder (heap s) (lookupFirst (lookupURI s) (resolvedURIs ctx) VUndefined))"
  then have h1: "map_of (dereferencedBySource s) schema = None"
    and h2: "\<not> (truthyV (lookupFirst (lookupURI s) (resolvedURIs ctx) VUndefined)
             \<and> \<not> isPlaceholder (heap s) (lookupFirst (lookupURI s) (resolvedURIs ctx) VUndefined))"
    by simp_all
  from dereferenceSubschema_registers [OF h1 h2]
  obtain result s3 where big:
    "(\<forall>u \<in> set (resolvedURIs ctx). lookupURI s3 u = result)
           \<and> (nullish (lookupFirst (lookupURI s) (resolvedURIs ctx) VUndefined)
                \<longrightarrow> result = VRef (length (heap s)))
           \<and> (\<not> nullish (lookupFirst (lookupURI s) (resolvedURIs ctx) VUndefined)
                \<longrightarrow> result = lookupFirst (lookupURI s) (resolvedURIs ctx) VUndefined)
           \<and> (\<forall>cloneInto. dereferenceSubschema schema ctx cloneInto s =
                 (case cloneInto result s3 of
                    None \<Rightarrow> None
                  | Some (Inl e) \<Rightarrow> Some (Inl e)
                  | Some (Inr s4) \<Rightarrow> Some (Inr (result, s4))))"
    by (elim exE) (rule that)
  from big have reg: "\<forall>u \<in> set (resolvedURIs ctx). lookupURI s3 u = result"
    and call: "\<forall>cloneInto. dereferenceSubschema schema ctx cloneInto s =
                 (case cloneInto result s3 of
                    None \<Rightarrow> None
                  | Some (Inl e) \<Rightarrow> Some (Inl e)
                  | Some (Inr s4) \<Rightarrow> Some (Inr (result, s4)))"
    by simp_all
  have inner: "\<forall>r c u rs. u \<in> set (resolvedURIs ctx) \<and> truthyV result
                   \<and> followReferences E S (heap s3) r (baseURI c) (resolvedURIs c) = Some (Inr (u, rs))
                 \<longrightarrow> dereferenceReference E S r c s3 = Some (Inr (result, registerURIs rs result s3))"
    using reg by (auto simp: dereferenceReference_def resolveTarget_found)
  from call inner
  show "\<exists>result s3.
           (\<forall>cloneInto. dereferenceSubschema schema ctx cloneInto s =
                 (case cloneInto result s3 of
                    None \<Rightarrow> None
                  | Some (Inl e) \<Rightarrow> Some (Inl e)
                  | Some (Inr s4) \<Rightarrow> Some (Inr (result, s4))))
           \<and> (\<forall>r c u rs. u \<in> set (resolvedURIs ctx) \<and> truthyV result
                   \<and> followReferences E S (heap s3) r (baseURI c) (resolvedURIs c) = Some (Inr (u, rs))
                 \<longrightarrow> dereferenceReference E S r c s3 = Some (Inr (result, registerURIs rs result s3)))"
    by blast
qed

theorem references_to_registered_target_share_node_witness:
  "(\<exists>s1 s2. dereferenceReference exampleDerefHelpers indexedIndex ''#/definitions/shared''
                (contextAt ''/properties/a'') (initialState indexedHeap) = Some (Inr (VRef 6, s1))
            \<and> dereferenceReference exampleDerefHelpers indexedIndex ''#/definitions/shared''
                (contextAt ''/properties/b'') s1 = Some (Inr (VRef 6, s2)))
   \<and> (\<exists>s3 s4. dereferenceSubschema (VRef 0) rootContext noChildren (initialState indexedHeap)
                = Some (Inr (VRef 6, s3))
            \<and> dereferenceReference exampleDerefHelpers indexedIndex ''#''
                (contextAt ''/properties/self'') s3 = Some (Inr (VRef 6, s4)))"
proof (intro conjI)
  let ?E = exampleDerefHelpers
  let ?s = "initialState indexedHeap"
  let ?a = "contextAt ''/properties/a''"
  let ?b = "contextAt ''/properties/b''"
  let ?uri = "''#/definitions/shared''"
  define s1 where "s1 = (case dereferenceReference ?E indexedIndex ?uri ?a ?s of
                           Some (Inr (v, s)) \<Rightarrow> s | _ \<Rightarrow> ?s)"
  have first: "dereferenceReference ?E indexedIndex ?uri ?a ?s = Some (Inr (VRef 6, s1))"
    unfolding s1_def by code_simp
  have f1: "followReferences ?E indexedIndex (heap ?s) ?uri (baseURI ?a) (resolvedURIs ?a)
            = Some (Inr (?uri, [''#/properties/a'', ?uri]))"
    by code_simp
  have f2: "followReferences ?E indexedIndex (heap s1) ?uri (baseURI ?b) (resolvedURIs ?b)
            = Some (Inr (?uri, [''#/properties/b'', ?uri]))"
    unfolding s1_def by code_simp
  have reg: "?uri \<in> set [''#/properties/a'', ?uri] \<or> truthyV (lookupURI ?s ?uri)" by simp
  note share = references_to_registered_target_share_node
      [where E = ?E and S = indexedIndex and ?r1.0 = ?uri and ?c1.0 = ?a and s = ?s
         and ?v1.0 = "VRef 6" and ?s1.0 = s1 and uri = ?uri
         and ?rs1.0 = "[''#/properties/a'', ?uri]" and ?s2.0 = s1 and ?r2.0 = ?uri
         and ?c2.0 = ?b and ?rs2.0 = "[''#/properties/b'', ?uri]",
       THEN conjunct1, rule_format]
  have "dereferenceReference ?E indexedIndex ?uri ?b s1
          = Some (Inr (VRef 6, registerURIs [''#/properties/b'', ?uri] (VRef 6) s1))
        \<and> truthyV (VRef 6) \<and> lookupURI s1 ?uri = VRef 6"
    by (rule share) (intro conjI first f1 reg refl f2)
  with first
  show "\<exists>s1 s2. dereferenceReference exampleDerefHelpers indexedIndex ''#/definitions/shared''
                (contextAt ''/properties/a'') (initialState indexedHeap) = Some (Inr (VRef 6, s1))
            \<and> dereferenceReference exampleDerefHelpers indexedIndex ''#/definitions/shared''
                (contextAt ''/properties/b'') s1 = Some (Inr (VRef 6, s2))"
    by blast
next
  let ?E = exampleDerefHelpers
  let ?s = "initialState indexedHeap"
  let ?c = "contextAt ''/properties/self''"
  define t3 where "t3 = (case dereferenceSubschema (VRef 0) rootContext noChildren ?s of
                           Some (Inr (v, s)) \<Rightarrow> s | _ \<Rightarrow> ?s)"
  have sub: "dereferenceSubschema (VRef 0) rootContext noChildren ?s = Some (Inr (VRef 6, t3))"
    unfolding t3_def by code_simp
  have h: "map_of (dereferencedBySource ?s) (VRef 0) = None
      \<and> \<not> (truthyV (lookupFirst (lookupURI ?s) (resolvedURIs rootContext) VUndefined)
             \<and> \<not> isPlaceholder (heap ?s) (lookupFirst (lookupURI ?s) (resolvedURIs rootContext) VUndefined))"
    by (intro conjI; code_simp)
  note root = references_to_registered_target_share_node
      [where E = ?E and S = indexedIndex and s = ?s and schema = "VRef 0" and ctx = rootContext,
       THEN conjunct2, rule_format]
  from root [OF h] obtain result s3 where
    call: "\<forall>cloneInto. dereferenceSubschema (VRef 0) rootContext cloneInto ?s =
                 (case cloneInto result s3 of
                    None \<Rightarrow> None
                  | Some (Inl e) \<Rightarrow> Some (Inl e)
                  | Some (Inr s4) \<Rightarrow> Some (Inr (result, s4)))"
    and refs: "\<forall>r c u rs. u \<in> set (resolvedURIs rootContext) \<and> truthyV result
                   \<and> followReferences ?E indexedIndex (heap s3) r (baseURI c) (resolvedURIs c)
                       = Some (Inr (u, rs))
                 \<longrightarrow> dereferenceReference ?E indexedIndex r c s3
                       = Some (Inr (result, registerURIs rs result s3))"
    by (elim exE conjE) (rule that)
  from call [rule_format, of noChildren] sub
  have eq: "result = VRef 6" "s3 = t3" by (simp_all add: noChildren_def)
  have u: "''#'' \<in> set (resolvedURIs rootContext)" by code_simp
  have f: "followReferences ?E indexedIndex (heap t3) ''#'' (baseURI ?c) (resolvedURIs ?c)
           = Some (Inr (''#'', [''#/properties/self'']))"
    unfolding t3_def by code_simp
  have tr: "truthyV (VRef 6)" by code_simp
  have "dereferenceReference ?E indexedIndex ''#'' ?c t3
          = Some (Inr (VRef 6, registerURIs [''#/properties/self''] (VRef 6) t3))"
    using refs u f tr unfolding eq by blast
  with sub
  show "\<exists>s3 s4. dereferenceSubschema (VRef 0) rootContext noChildren (initialState indexedHeap)
                = Some (Inr (VRef 6, s3))
            \<and> dereferenceReference exampleDerefHelpers indexedIndex ''#''
                (contextAt ''/properties/self'') s3 = Some (Inr (VRef 6, s4))"
    by blast
qed


subsection \<open>References with siblings\<close>

lemma nodeAt_append:
  "nodeAt (h @ [n]) a = (if a < length h then nodeAt h a else if a = length h then n else emptyNode)"
  by (simp add: nodeAt_def nth_append)

lemma nodeAt_updateNode:
  "nodeAt (updateNode a f h) b = (if b = a \<and> a < length h then f (nodeAt h a) else nodeAt h b)"
  by (simp add: nodeAt_def updateNode_def)

lemma length_updateNode [simp]: "length (updateNode a f h) = length h"
  by (simp add: updateNode_def)

lemma marker_in_range: "marker (nodeAt h a) \<noteq> None \<Longrightarrow> a < length h"
  by (simp add: nodeAt_def emptyNode_def split: if_splits)

lemma isPlaceholder_VRef: "isPlaceholder h v \<Longrightarrow> \<exists>a. v = VRef a \<and> a < length h \<and> marker (nodeAt h a) \<noteq> None"
  by (cases v) (auto simp: isPlaceholder_def nodeAt_def emptyNode_def split: if_splits)

lemma lookupURI_cases: "lookupURI s u = VUndefined \<or> (u, lookupURI s u) \<in> set (dereferencedByURI s)"
  by (auto simp: lookupURI_def dest: map_of_SomeD split: option.splits)

lemma allocated_lookupURI: "wellFormed s \<Longrightarrow> allocated (heap s) (lookupURI s u)"
  using lookupURI_cases [of s u] by (auto simp: wellFormed_def allocated_def)

lemma heap_registerURIs [simp]: "heap (registerURIs us v s) = heap s"
  by (simp add: registerURIs_def)

lemma placeholders_registerURIs [simp]: "placeholders (registerURIs us v s) = placeholders s"
  by (simp add: registerURIs_def)

lemma lookupURI_heap_update [simp]: "lookupURI (s\<lparr>heap := h\<rparr>) u = lookupURI s u"
  by (simp add: lookupURI_def)

text \<open>
  A value \<open>resolveTarget\<close> returns that is not a placeholder was found, in the table or by
  evaluating a fragment, and the store is as before.
\<close>

lemma resolveTarget_concrete:
  assumes "resolveTarget E uri rs s = (v, s')" and "\<not> isPlaceholder (heap s') v"
  shows "heap s' = heap s \<and> placeholders s' = placeholders s
         \<and> (v = lookupURI s uri
              \<or> (\<exists>absoluteURI fragment. v = evaluateFragment E (heap s) fragment (lookupURI s absoluteURI)))"
  using assms
  by (auto simp: resolveTarget_def Let_def allocate_def placeholdersAdd_def isPlaceholder_def
                 nodeAt_append
           split: prod.splits if_splits)

text \<open>A node allocated just now is not what a lookup or a fragment evaluation yields.\<close>

lemma fresh_not_found:
  assumes wf: "wellFormed s" and fw: "fragmentWithin E"
      and v: "v = lookupURI s uri
              \<or> (\<exists>absoluteURI fragment.
                    v = evaluateFragment E (heap s @ [emptyNode]) fragment (lookupURI s absoluteURI))"
  shows "v \<noteq> VRef (length (heap s))"
proof
  assume eq: "v = VRef (length (heap s))"
  from v show False
  proof
    assume "v = lookupURI s uri"
    with allocated_lookupURI [OF wf, of uri] eq show False by (simp add: allocated_def)
  next
    assume "\<exists>absoluteURI fragment.
              v = evaluateFragment E (heap s @ [emptyNode]) fragment (lookupURI s absoluteURI)"
    then obtain absoluteURI fragment where
      ev: "evaluateFragment E (heap s @ [emptyNode]) fragment (lookupURI s absoluteURI) = VRef (length (heap s))"
      using eq by auto
    from fw ev have "lookupURI s absoluteURI = VRef (length (heap s))
                     \<or> (\<exists>n \<in> set (heap s @ [emptyNode]). VRef (length (heap s)) \<in> snd ` set (props n))"
      unfolding fragmentWithin_def by blast
    then show False
    proof
      assume "lookupURI s absoluteURI = VRef (length (heap s))"
      with allocated_lookupURI [OF wf, of absoluteURI] show False by (simp add: allocated_def)
    next
      assume "\<exists>n \<in> set (heap s @ [emptyNode]). VRef (length (heap s)) \<in> snd ` set (props n)"
      then obtain n where n: "n \<in> set (heap s)" and "VRef (length (heap s)) \<in> snd ` set (props n)"
        by (auto simp: emptyNode_def)
      then obtain k where "(k, VRef (length (heap s))) \<in> set (props n)" by auto
      with wf n have "allocated (heap s) (VRef (length (heap s)))"
        unfolding wellFormed_def by blast
      then show False by (simp add: allocated_def)
    qed
  qed
qed

lemma dereferenceReference_resolveTarget:
  "dereferenceReference E S r c s = Some (Inr (v, s')) \<Longrightarrow>
   \<exists>uri rs. followReferences E S (heap s) r (baseURI c) (resolvedURIs c) = Some (Inr (uri, rs))
            \<and> resolveTarget E uri rs s = (v, s')"
  by (auto simp: dereferenceReference_def split: option.splits sum.splits)

lemma nullish_not_truthy: "nullish v \<Longrightarrow> \<not> truthyV v"
  by (cases v) simp_all

lemma getPropV_distinct_rev:
  "distinct (map fst ps) \<Longrightarrow> getPropV k (rev ps) = getPropV k ps"
  by (simp add: getPropV_def map_of_rev_distinct)

lemma getPropV_assignProps_from_src:
  assumes "distinct (map fst src)" and "k \<in> set (map fst src)"
  shows "getPropV k (assignProps tgt src) = getPropV k src"
proof -
  from assms(2) obtain v where "map_of src k = Some v"
    by (metis map_of_eq_None_iff not_Some_eq set_map)
  with assms(1) show ?thesis
    by (simp add: getPropV_assignProps_src) (simp add: getPropV_def)
qed

text \<open>The immediate merge, \<open>Object.assign(result, dereferenced, siblings)\<close>.\<close>

lemma merge_immediate:
  assumes wf: "wellFormed s" and fw: "fragmentWithin E"
      and ds: "distinct (map fst (siblings reference))"
      and found: "nullish (lookupFirst (lookupURI s) (resolvedURIs context) VUndefined)
                  \<or> isPlaceholder (heap s) (lookupFirst (lookupURI s) (resolvedURIs context) VUndefined)"
      and alloc: "(if nullish (lookupFirst (lookupURI s) (resolvedURIs context) VUndefined)
                   then allocate emptyNode s
                   else (lookupFirst (lookupURI s) (resolvedURIs context) VUndefined, s)) = (result, s1)"
      and inner: "dereferenceReference E S (ref reference)
                    \<lparr>baseURI = baseURI context, jsonPointer = jsonPointer context, resolvedURIs = []\<rparr> s1
                  = Some (Inr (dereferenced, s2))"
      and concrete: "\<not> isPlaceholder (heap s2) dereferenced"
  shows "\<exists>a s'. dereferenceReferenceWithSiblings E S reference context s = Some (Inr (VRef a, s'))
           \<and> result = VRef a \<and> VRef a \<noteq> dereferenced
           \<and> (\<forall>k v. map_of (siblings reference) k = Some v
                  \<longrightarrow> getPropV k (props (nodeAt (heap s') a)) = v)
           \<and> (\<forall>t k. dereferenced = VRef t \<and> k \<notin> set (map fst (siblings reference))
                     \<and> k \<in> set (map fst (props (nodeAt (heap s2) t)))
                  \<longrightarrow> getPropV k (props (nodeAt (heap s') a)) = getPropV k (props (nodeAt (heap s2) t)))
           \<and> (\<forall>t. dereferenced = VRef t \<longrightarrow> nodeAt (heap s') t = nodeAt (heap s2) t)
           \<and> (\<forall>u \<in> set (resolvedURIs context). lookupURI s' u = VRef a)"
proof -
  let ?found = "lookupFirst (lookupURI s) (resolvedURIs context) VUndefined"
  from inner obtain uri rs where rt: "resolveTarget E uri rs s1 = (dereferenced, s2)"
    using dereferenceReference_resolveTarget by blast
  from resolveTarget_concrete [OF rt concrete]
  have h2: "heap s2 = heap s1"
    and val: "dereferenced = lookupURI s1 uri
              \<or> (\<exists>absoluteURI fragment.
                    dereferenced = evaluateFragment E (heap s1) fragment (lookupURI s1 absoluteURI))"
    by simp_all
  have early: "\<not> (truthyV ?found \<and> \<not> isPlaceholder (heap s) ?found)"
    using found nullish_not_truthy by blast
  have "\<exists>a. result = VRef a \<and> a < length (heap s1) \<and> VRef a \<noteq> dereferenced
             \<and> (\<forall>n \<in> set (heap s1). distinct (map fst (props n)))"
  proof (cases "nullish ?found")
    case True
    with alloc have r: "result = VRef (length (heap s))" and s1: "s1 = s\<lparr>heap := heap s @ [emptyNode]\<rparr>"
      by (simp_all add: allocate_def)
    from val have "dereferenced = lookupURI s uri
              \<or> (\<exists>absoluteURI fragment.
                    dereferenced = evaluateFragment E (heap s @ [emptyNode]) fragment (lookupURI s absoluteURI))"
      by (simp add: s1)
    from fresh_not_found [OF wf fw this] have "VRef (length (heap s)) \<noteq> dereferenced" by simp
    moreover from wf have "\<forall>n \<in> set (heap s1). distinct (map fst (props n))"
      by (auto simp: wellFormed_def s1 emptyNode_def)
    ultimately show ?thesis by (simp add: r s1)
  next
    case False
    with found have ph: "isPlaceholder (heap s) ?found" by simp
    from False alloc have r: "result = ?found" and s1: "s1 = s" by auto
    from isPlaceholder_VRef [OF ph] obtain a where a: "?found = VRef a" "a < length (heap s)" by auto
    from ph concrete have "?found \<noteq> dereferenced" by (auto simp: h2 s1)
    moreover from wf have "\<forall>n \<in> set (heap s1). distinct (map fst (props n))"
      by (simp add: wellFormed_def s1)
    ultimately show ?thesis using a by (simp add: r s1)
  qed
  then obtain a where a: "result = VRef a" and len: "a < length (heap s1)"
    and ne: "VRef a \<noteq> dereferenced"
    and dist: "\<forall>n \<in> set (heap s1). distinct (map fst (props n))"
    by blast
  let ?f = "\<lambda>n. assignInto (siblings reference) None
                  (assignInto (ownProps (heap s2) dereferenced) (ownMarker (heap s2) dereferenced) n)"
  let ?s3 = "s2\<lparr>heap := updateNode a ?f (heap s2)\<rparr>"
  let ?s' = "registerURIs (resolvedURIs context) (VRef a) ?s3"
  have merge: "mergeImmediate result dereferenced (siblings reference) s2 = (VRef a, ?s3)"
    by (simp add: mergeImmediate_def a)
  have call: "dereferenceReferenceWithSiblings E S reference context s = Some (Inr (VRef a, ?s'))"
  proof -
    from early have early': "(truthyV ?found \<and> \<not> isPlaceholder (heap s) ?found) = False" by simp
    show ?thesis
      unfolding dereferenceReferenceWithSiblings_def Let_def
      by (simp only: early' if_False alloc prod.case inner option.case sum.case concrete merge)
  qed
  have node: "props (nodeAt (heap ?s') a)
                = assignProps (assignProps (props (nodeAt (heap s2) a)) (ownProps (heap s2) dereferenced))
                              (siblings reference)"
    using len by (simp add: nodeAt_updateNode h2 assignInto_def)
  have sib: "\<forall>k v. map_of (siblings reference) k = Some v
                  \<longrightarrow> getPropV k (props (nodeAt (heap ?s') a)) = v"
  proof (intro allI impI)
    fix k v
    assume "map_of (siblings reference) k = Some v"
    with ds show "getPropV k (props (nodeAt (heap ?s') a)) = v"
      unfolding node by (rule getPropV_assignProps_src)
  qed
  have content: "\<forall>t k. dereferenced = VRef t \<and> k \<notin> set (map fst (siblings reference))
                     \<and> k \<in> set (map fst (props (nodeAt (heap s2) t)))
                  \<longrightarrow> getPropV k (props (nodeAt (heap ?s') a)) = getPropV k (props (nodeAt (heap s2) t))"
  proof (intro allI impI)
    fix t k
    assume h: "dereferenced = VRef t \<and> k \<notin> set (map fst (siblings reference))
                     \<and> k \<in> set (map fst (props (nodeAt (heap s2) t)))"
    then have "props (nodeAt (heap s2) t) \<noteq> []" by auto
    then have "t < length (heap s2)" by (auto simp: nodeAt_def emptyNode_def split: if_splits)
    then have "nodeAt (heap s2) t \<in> set (heap s1)" by (simp add: nodeAt_def h2)
    with dist have "distinct (map fst (props (nodeAt (heap s2) t)))" by blast
    with h show "getPropV k (props (nodeAt (heap ?s') a)) = getPropV k (props (nodeAt (heap s2) t))"
      unfolding node by (simp add: getPropV_assignProps_tgt getPropV_assignProps_from_src)
  qed
  have same: "\<forall>t. dereferenced = VRef t \<longrightarrow> nodeAt (heap ?s') t = nodeAt (heap s2) t"
    using ne by (auto simp: nodeAt_updateNode)
  have reg: "\<forall>u \<in> set (resolvedURIs context). lookupURI ?s' u = VRef a"
    by (simp add: lookupURI_registerURIs)
  from call a ne sib content same reg show ?thesis by blast
qed

lemma resolveTarget_length:
  "resolveTarget E uri rs s = (v, s') \<Longrightarrow>
   length (heap s) \<le> length (heap s') \<and> (\<forall>a < length (heap s). nodeAt (heap s') a = nodeAt (heap s) a)"
  by (auto simp: resolveTarget_def Let_def allocate_def placeholdersAdd_def nodeAt_append
           split: prod.splits if_splits val.splits)

text \<open>The deferred merge: the marker gets the indirect link and the siblings are overlaid.\<close>

lemma merge_deferred:
  assumes ds: "distinct (map fst (siblings reference))"
      and found: "nullish (lookupFirst (lookupURI s) (resolvedURIs context) VUndefined)
                  \<or> isPlaceholder (heap s) (lookupFirst (lookupURI s) (resolvedURIs context) VUndefined)"
      and alloc: "(if nullish (lookupFirst (lookupURI s) (resolvedURIs context) VUndefined)
                   then allocate emptyNode s
                   else (lookupFirst (lookupURI s) (resolvedURIs context) VUndefined, s)) = (result, s1)"
      and inner: "dereferenceReference E S (ref reference)
                    \<lparr>baseURI = baseURI context, jsonPointer = jsonPointer context, resolvedURIs = []\<rparr> s1
                  = Some (Inr (dereferenced, s2))"
      and pending: "isPlaceholder (heap s2) dereferenced"
  shows "\<exists>a s'. dereferenceReferenceWithSiblings E S reference context s = Some (Inr (VRef a, s'))
           \<and> result = VRef a
           \<and> marker (nodeAt (heap s') a)
               = Some \<lparr>uris = (case marker (nodeAt (heap s2) a) of None \<Rightarrow> None | Some i \<Rightarrow> uris i),
                       indirect = Some dereferenced\<rparr>
           \<and> a \<in> set (placeholders s')
           \<and> (\<forall>k v. map_of (siblings reference) k = Some v
                  \<longrightarrow> getPropV k (props (nodeAt (heap s') a)) = v)
           \<and> (\<forall>u \<in> set (resolvedURIs context). lookupURI s' u = VRef a)"
proof -
  let ?found = "lookupFirst (lookupURI s) (resolvedURIs context) VUndefined"
  from inner obtain uri rs where rt: "resolveTarget E uri rs s1 = (dereferenced, s2)"
    using dereferenceReference_resolveTarget by blast
  from resolveTarget_length [OF rt] have le: "length (heap s1) \<le> length (heap s2)" by simp
  have early: "\<not> (truthyV ?found \<and> \<not> isPlaceholder (heap s) ?found)"
    using found nullish_not_truthy by blast
  have "\<exists>a. result = VRef a \<and> a < length (heap s1)"
  proof (cases "nullish ?found")
    case True
    with alloc show ?thesis by (auto simp: allocate_def)
  next
    case False
    with found have ph: "isPlaceholder (heap s) ?found" by simp
    from False alloc have "result = ?found" and "s1 = s" by auto
    with isPlaceholder_VRef [OF ph] show ?thesis by auto
  qed
  then obtain a where a: "result = VRef a" and len: "a < length (heap s2)"
    using le by auto
  let ?g = "\<lambda>n. \<lparr>props = assignProps (props n) (siblings reference),
                  marker = Some \<lparr>uris = (case marker n of None \<Rightarrow> None | Some i \<Rightarrow> uris i),
                                indirect = Some dereferenced\<rparr>\<rparr>"
  let ?s3 = "placeholdersAdd (VRef a) (s2\<lparr>heap := updateNode a ?g (heap s2)\<rparr>)"
  let ?s' = "registerURIs (resolvedURIs context) (VRef a) ?s3"
  have merge: "mergeDeferred result dereferenced (siblings reference) s2 = Inr (VRef a, ?s3)"
    by (simp add: mergeDeferred_def a)
  have call: "dereferenceReferenceWithSiblings E S reference context s = Some (Inr (VRef a, ?s'))"
  proof -
    from early have early': "(truthyV ?found \<and> \<not> isPlaceholder (heap s) ?found) = False" by simp
    show ?thesis
      unfolding dereferenceReferenceWithSiblings_def Let_def
      by (simp only: early' if_False alloc prod.case inner option.case sum.case pending if_True merge)
  qed
  have hp: "heap ?s' = updateNode a ?g (heap s2)"
    by (simp add: placeholdersAdd_def)
  have node: "nodeAt (heap ?s') a = ?g (nodeAt (heap s2) a)"
    unfolding hp using len by (simp add: nodeAt_updateNode)
  have mk: "marker (nodeAt (heap ?s') a)
               = Some \<lparr>uris = (case marker (nodeAt (heap s2) a) of None \<Rightarrow> None | Some i \<Rightarrow> uris i),
                       indirect = Some dereferenced\<rparr>"
    unfolding node by simp
  have inset: "a \<in> set (placeholders ?s')"
    by (simp add: placeholdersAdd_def)
  have sib: "\<forall>k v. map_of (siblings reference) k = Some v
                  \<longrightarrow> getPropV k (props (nodeAt (heap ?s') a)) = v"
  proof (intro allI impI)
    fix k v
    assume "map_of (siblings reference) k = Some v"
    with ds show "getPropV k (props (nodeAt (heap ?s') a)) = v"
      unfolding node by (simp add: getPropV_assignProps_src)
  qed
  have reg: "\<forall>u \<in> set (resolvedURIs context). lookupURI ?s' u = VRef a"
    by (simp add: lookupURI_registerURIs)
  from call a mk inset sib reg show ?thesis by blast
qed

text \<open>
  The patch-up of a placeholder whose indirect link has become a concrete node:
  \<open>Object.assign(placeholder, indirect, siblings)\<close> with \<open>siblings\<close> the placeholder's
  own properties.
\<close>

lemma patch_indirect:
  assumes head: "placeholders s = a # others"
      and mk: "marker (nodeAt (heap s) a) = Some info"
      and ind: "indirect info = Some (VRef t)"
      and concrete: "\<not> isPlaceholder (heap s) (VRef t)"
      and nouris: "uris info = None"
      and down: "distinct (map fst (props (nodeAt (heap s) a)))"
      and dtgt: "distinct (map fst (props (nodeAt (heap s) t)))"
  shows "\<exists>s'. patchStep E s = Inr s' \<and> placeholders s' = removeAll a others
           \<and> marker (nodeAt (heap s') a) = None
           \<and> (\<forall>k \<in> set (map fst (props (nodeAt (heap s) a))).
                 getPropV k (props (nodeAt (heap s') a)) = getPropV k (props (nodeAt (heap s) a)))
           \<and> (\<forall>k. k \<notin> set (map fst (props (nodeAt (heap s) a)))
                   \<and> k \<in> set (map fst (props (nodeAt (heap s) t)))
                 \<longrightarrow> getPropV k (props (nodeAt (heap s') a)) = getPropV k (props (nodeAt (heap s) t)))
           \<and> nodeAt (heap s') t = nodeAt (heap s) t"
proof -
  let ?own = "nodeAt (heap s) a"
  let ?g = "\<lambda>n. assignInto (props ?own) (marker ?own)
                  (assignInto (ownProps (heap s) (VRef t)) (ownMarker (heap s) (VRef t)) n)"
  let ?s1 = "s\<lparr>heap := updateNode a ?g (heap s)\<rparr>"
  let ?s' = "unmark (VRef a) ?s1"
  from mk have len: "a < length (heap s)" using marker_in_range [of "heap s" a] by simp
  from mk concrete have ne: "t \<noteq> a" by (auto simp: isPlaceholder_def)
  have step: "patchStep E s = Inr ?s'"
    using head mk ind concrete nouris by (simp add: patchStep_def Let_def)
  have hp: "heap ?s' = updateNode a (\<lambda>n. n\<lparr>marker := None\<rparr>) (updateNode a ?g (heap s))"
    by (simp add: unmark_def)
  have node: "props (nodeAt (heap ?s') a)
                = assignProps (assignProps (props ?own) (props (nodeAt (heap s) t))) (props ?own)"
    unfolding hp using len by (simp add: nodeAt_updateNode assignInto_def)
  have nomark: "marker (nodeAt (heap ?s') a) = None"
    unfolding hp using len by (simp add: nodeAt_updateNode)
  have pl: "placeholders ?s' = removeAll a others"
    using head by (simp add: unmark_def)
  have keep: "\<forall>k \<in> set (map fst (props ?own)).
                 getPropV k (props (nodeAt (heap ?s') a)) = getPropV k (props ?own)"
    unfolding node using down by (simp add: getPropV_assignProps_from_src)
  have take: "\<forall>k. k \<notin> set (map fst (props ?own)) \<and> k \<in> set (map fst (props (nodeAt (heap s) t)))
                 \<longrightarrow> getPropV k (props (nodeAt (heap ?s') a)) = getPropV k (props (nodeAt (heap s) t))"
    unfolding node using dtgt
    by (simp add: getPropV_assignProps_tgt getPropV_assignProps_from_src)
  have same: "nodeAt (heap ?s') t = nodeAt (heap s) t"
    unfolding hp using ne by (simp add: nodeAt_updateNode)
  from step pl nomark keep take same show ?thesis by blast
qed

text \<open>
  The same when the placeholder also stands for URIs of its own and the value found
  under the first of them is an object: its properties go below those already merged.
\<close>

lemma patch_indirect_then_own:
  assumes head: "placeholders s = a # others"
      and mk: "marker (nodeAt (heap s) a) = Some info"
      and ind: "indirect info = Some (VRef t)"
      and concrete: "\<not> isPlaceholder (heap s) (VRef t)"
      and uris: "uris info = Some (u # us)"
      and real: "lookupURI s u = VRef r"
      and down: "distinct (map fst (props (nodeAt (heap s) a)))"
      and dtgt: "distinct (map fst (props (nodeAt (heap s) t)))"
  shows "\<exists>s'. patchStep E s = Inr s' \<and> placeholders s' = removeAll a others
           \<and> (\<forall>k \<in> set (map fst (props (nodeAt (heap s) a))).
                 getPropV k (props (nodeAt (heap s') a)) = getPropV k (props (nodeAt (heap s) a)))
           \<and> (\<forall>k. k \<notin> set (map fst (props (nodeAt (heap s) a)))
                   \<and> k \<in> set (map fst (props (nodeAt (heap s) t)))
                 \<longrightarrow> getPropV k (props (nodeAt (heap s') a)) = getPropV k (props (nodeAt (heap s) t)))"
proof -
  let ?own = "nodeAt (heap s) a"
  let ?g = "\<lambda>n. assignInto (props ?own) (marker ?own)
                  (assignInto (ownProps (heap s) (VRef t)) (ownMarker (heap s) (VRef t)) n)"
  let ?s1 = "s\<lparr>heap := updateNode a ?g (heap s)\<rparr>"
  define s2 where "s2 = unmark (VRef a) ?s1"
  define P where "P = assignProps (assignProps (props ?own) (props (nodeAt (heap s) t))) (props ?own)"
  define R where "R = props (nodeAt (heap s2) r)"
  define s' where "s' = s2\<lparr>heap := updateNode a
                          (\<lambda>n. assignInto (props (nodeAt (heap s2) a)) (marker (nodeAt (heap s2) a))
                                 (assignInto (ownProps (heap s2) (VRef r)) (ownMarker (heap s2) (VRef r)) n))
                          (heap s2)\<rparr>"
  from mk have len: "a < length (heap s)" using marker_in_range [of "heap s" a] by simp
  have hp2: "heap s2 = updateNode a (\<lambda>n. n\<lparr>marker := None\<rparr>) (updateNode a ?g (heap s))"
    by (simp add: s2_def unmark_def)
  have own2: "props (nodeAt (heap s2) a) = P"
    unfolding hp2 P_def using len by (simp add: nodeAt_updateNode assignInto_def)
  have len2: "a < length (heap s2)" unfolding hp2 using len by simp
  have lk: "lookupURI s2 u = VRef r"
    using real by (simp add: s2_def unmark_def lookupURI_def)
  have pl2: "placeholders s2 = removeAll a others"
    using head by (simp add: s2_def unmark_def)
  have own_step: "patchOwn E a (Some (u # us)) ?s1 = Inr s'"
    unfolding patchOwn_def Let_def s2_def [symmetric] s'_def
    using lk by simp
  have step: "patchStep E s = Inr s'"
    using head mk ind concrete uris own_step by (simp add: patchStep_def Let_def)
  have node: "props (nodeAt (heap s') a) = assignProps (assignProps P R) P"
    unfolding s'_def using len2 by (simp add: nodeAt_updateNode assignInto_def own2 R_def)
  have dP: "distinct (map fst P)"
    unfolding P_def using down by (simp add: distinct_assignProps)
  have keysP: "set (map fst P) = set (map fst (props ?own)) \<union> set (map fst (props (nodeAt (heap s) t)))"
    unfolding P_def keys_assignProps by auto
  have fromP: "\<forall>k \<in> set (map fst P). getPropV k (props (nodeAt (heap s') a)) = getPropV k P"
    unfolding node using dP by (simp add: getPropV_assignProps_from_src)
  have keepP: "\<forall>k \<in> set (map fst (props ?own)). getPropV k P = getPropV k (props ?own)"
    unfolding P_def using down by (simp add: getPropV_assignProps_from_src)
  have takeP: "\<forall>k. k \<notin> set (map fst (props ?own)) \<and> k \<in> set (map fst (props (nodeAt (heap s) t)))
                 \<longrightarrow> getPropV k P = getPropV k (props (nodeAt (heap s) t))"
    unfolding P_def using dtgt
    by (simp add: getPropV_assignProps_tgt getPropV_assignProps_from_src)
  have pl: "placeholders s' = removeAll a others"
    using pl2 by (simp add: s'_def)
  have keep: "\<forall>k \<in> set (map fst (props ?own)).
                 getPropV k (props (nodeAt (heap s') a)) = getPropV k (props ?own)"
    using fromP keepP keysP by (metis UnCI)
  have take: "\<forall>k. k \<notin> set (map fst (props ?own)) \<and> k \<in> set (map fst (props (nodeAt (heap s) t)))
                 \<longrightarrow> getPropV k (props (nodeAt (heap s') a)) = getPropV k (props (nodeAt (heap s) t))"
    using fromP takeP keysP by (metis UnCI)
  from step pl keep take show ?thesis by blast
qed

lemma walkTokens_within:
  "walkTokens h ts v = VRef b \<Longrightarrow> v = VRef b \<or> (\<exists>n \<in> set h. VRef b \<in> snd ` set (props n))"
proof (induction ts arbitrary: v)
  case Nil
  then show ?case by simp
next
  case (Cons t ts)
  show ?case
  proof (cases v)
    case (VRef a)
    with Cons.prems have "walkTokens h ts (getPropV t (props (nodeAt h a))) = VRef b" by simp
    from Cons.IH [OF this]
    show ?thesis
    proof
      assume g: "getPropV t (props (nodeAt h a)) = VRef b"
      then have m: "map_of (props (nodeAt h a)) t = Some (VRef b)"
        by (simp add: getPropV_def split: option.splits)
      then have "(t, VRef b) \<in> set (props (nodeAt h a))" by (rule map_of_SomeD)
      moreover from m have "a < length h"
        by (auto simp: nodeAt_def emptyNode_def split: if_splits)
      then have "nodeAt h a \<in> set h" by (simp add: nodeAt_def)
      ultimately show ?thesis by force
    next
      assume "\<exists>n \<in> set h. VRef b \<in> snd ` set (props n)"
      then show ?thesis by simp
    qed
  qed (use Cons.prems in simp_all)
qed

lemma fragmentWithin_example: "fragmentWithin exampleDerefHelpers"
  unfolding fragmentWithin_def exampleDerefHelpers_def
  using walkTokens_within by simp

text \<open>
  What the two functions do guarantee. A call of \<open>dereferenceReferenceWithSiblings\<close>
  that merges yields a node of its own, never the node of its
  target, and in that node the siblings win. When the target is concrete at the visit
  (immediate path), the node returned is a fresh node or the placeholder already standing
  for the reference's own URIs; it differs from the target node, which stays as it was;
  it holds every sibling under its key and, for every other key the target object has
  at that moment, the value it has then. When the target is still a placeholder (deferred path), the node
  returned holds the siblings at once and is marked with an indirect link to that
  placeholder; the patch-up iteration that finds the link resolved keeps every property
  the node already has and adds the target's value for every key the node lacks, also
  when the node goes on to be merged with the value registered under its own URI.
\<close>

theorem reference_with_siblings_merges:
  "(wellFormed s \<and> fragmentWithin E \<and> distinct (map fst (siblings reference))
      \<and> (nullish (lookupFirst (lookupURI s) (resolvedURIs ctx) VUndefined)
           \<or> isPlaceholder (heap s) (lookupFirst (lookupURI s) (resolvedURIs ctx) VUndefined))
      \<and> (if nullish (lookupFirst (lookupURI s) (resolvedURIs ctx) VUndefined)
          then allocate emptyNode s
          else (lookupFirst (lookupURI s) (resolvedURIs ctx) VUndefined, s)) = (result, s1)
      \<and> dereferenceReference E S (ref reference)
            \<lparr>baseURI = baseURI ctx, jsonPointer = jsonPointer ctx, resolvedURIs = []\<rparr> s1
          = Some (Inr (dereferenced, s2))
      \<and> \<not> isPlaceholder (heap s2) dereferenced
    \<longrightarrow> (\<exists>a s'. dereferenceReferenceWithSiblings E S reference ctx s = Some (Inr (VRef a, s'))
           \<and> result = VRef a \<and> VRef a \<noteq> dereferenced
           \<and> (\<forall>k v. map_of (siblings reference) k = Some v
                  \<longrightarrow> getPropV k (props (nodeAt (heap s') a)) = v)
           \<and> (\<forall>t k. dereferenced = VRef t \<and> k \<notin> set (map fst (siblings reference))
                     \<and> k \<in> set (map fst (props (nodeAt (heap s2) t)))
                  \<longrightarrow> getPropV k (props (nodeAt (heap s') a)) = getPropV k (props (nodeAt (heap s2) t)))
           \<and> (\<forall>t. dereferenced = VRef t \<longrightarrow> nodeAt (heap s') t = nodeAt (heap s2) t)
           \<and> (\<forall>u \<in> set (resolvedURIs ctx). lookupURI s' u = VRef a)))
   \<and> (distinct (map fst (siblings reference))
      \<and> (nullish (lookupFirst (lookupURI s) (resolvedURIs ctx) VUndefined)
           \<or> isPlaceholder (heap s) (lookupFirst (lookupURI s) (resolvedURIs ctx) VUndefined))
      \<and> (if nullish (lookupFirst (lookupURI s) (resolvedURIs ctx) VUndefined)
          then allocate emptyNode s
          else (lookupFirst (lookupURI s) (resolvedURIs ctx) VUndefined, s)) = (result, s1)
      \<and> dereferenceReference E S (ref reference)
            \<lparr>baseURI = baseURI ctx, jsonPointer = jsonPointer ctx, resolvedURIs = []\<rparr> s1
          = Some (Inr (dereferenced, s2))
      \<and> isPlaceholder (heap s2) dereferenced
    \<longrightarrow> (\<exists>a s'. dereferenceReferenceWithSiblings E S reference ctx s = Some (Inr (VRef a, s'))
           \<and> result = VRef a
           \<and> marker (nodeAt (heap s') a)
               = Some \<lparr>uris = (case marker (nodeAt (heap s2) a) of None \<Rightarrow> None | Some i \<Rightarrow> uris i),
                       indirect = Some dereferenced\<rparr>
           \<and> a \<in> set (placeholders s')
           \<and> (\<forall>k v. map_of (siblings reference) k = Some v
                  \<longrightarrow> getPropV k (props (nodeAt (heap s') a)) = v)
           \<and> (\<forall>u \<in> set (resolvedURIs ctx). lookupURI s' u = VRef a)))
   \<and> (placeholders p = a # others \<and> marker (nodeAt (heap p) a) = Some info
      \<and> indirect info = Some (VRef t) \<and> \<not> isPlaceholder (heap p) (VRef t)
      \<and> distinct (map fst (props (nodeAt (heap p) a)))
      \<and> distinct (map fst (props (nodeAt (heap p) t)))
      \<and> (uris info = None \<or> (\<exists>u us r. uris info = Some (u # us) \<and> lookupURI p u = VRef r))
    \<longrightarrow> (\<exists>p'. patchStep E p = Inr p' \<and> placeholders p' = removeAll a others
           \<and> (\<forall>k \<in> set (map fst (props (nodeAt (heap p) a))).
                 getPropV k (props (nodeAt (heap p') a)) = getPropV k (props (nodeAt (heap p) a)))
           \<and> (\<forall>k. k \<notin> set (map fst (props (nodeAt (heap p) a)))
                   \<and> k \<in> set (map fst (props (nodeAt (heap p) t)))
                 \<longrightarrow> getPropV k (props (nodeAt (heap p') a)) = getPropV k (props (nodeAt (heap p) t)))))"
proof (intro conjI impI)
  assume h: "wellFormed s \<and> fragmentWithin E \<and> distinct (map fst (siblings reference))
      \<and> (nullish (lookupFirst (lookupURI s) (resolvedURIs ctx) VUndefined)
           \<or> isPlaceholder (heap s) (lookupFirst (lookupURI s) (resolvedURIs ctx) VUndefined))
      \<and> (if nullish (lookupFirst (lookupURI s) (resolvedURIs ctx) VUndefined)
          then allocate emptyNode s
          else (lookupFirst (lookupURI s) (resolvedURIs ctx) VUndefined, s)) = (result, s1)
      \<and> dereferenceReference E S (ref reference)
            \<lparr>baseURI = baseURI ctx, jsonPointer = jsonPointer ctx, resolvedURIs = []\<rparr> s1
          = Some (Inr (dereferenced, s2))
      \<and> \<not> isPlaceholder (heap s2) dereferenced"
  show "\<exists>a s'. dereferenceReferenceWithSiblings E S reference ctx s = Some (Inr (VRef a, s'))
           \<and> result = VRef a \<and> VRef a \<noteq> dereferenced
           \<and> (\<forall>k v. map_of (siblings reference) k = Some v
                  \<longrightarrow> getPropV k (props (nodeAt (heap s') a)) = v)
           \<and> (\<forall>t k. dereferenced = VRef t \<and> k \<notin> set (map fst (siblings reference))
                     \<and> k \<in> set (map fst (props (nodeAt (heap s2) t)))
                  \<longrightarrow> getPropV k (props (nodeAt (heap s') a)) = getPropV k (props (nodeAt (heap s2) t)))
           \<and> (\<forall>t. dereferenced = VRef t \<longrightarrow> nodeAt (heap s') t = nodeAt (heap s2) t)
           \<and> (\<forall>u \<in> set (resolvedURIs ctx). lookupURI s' u = VRef a)"
    by (rule merge_immediate [where ?s1.0 = s1, OF h [THEN conjunct1] h [THEN conjunct2, THEN conjunct1]
          h [THEN conjunct2, THEN conjunct2, THEN conjunct1]
          h [THEN conjunct2, THEN conjunct2, THEN conjunct2, THEN conjunct1]
          h [THEN conjunct2, THEN conjunct2, THEN conjunct2, THEN conjunct2, THEN conjunct1]
          h [THEN conjunct2, THEN conjunct2, THEN conjunct2, THEN conjunct2, THEN conjunct2, THEN conjunct1]
          h [THEN conjunct2, THEN conjunct2, THEN conjunct2, THEN conjunct2, THEN conjunct2, THEN conjunct2]])
next
  assume h: "distinct (map fst (siblings reference))
      \<and> (nullish (lookupFirst (lookupURI s) (resolvedURIs ctx) VUndefined)
           \<or> isPlaceholder (heap s) (lookupFirst (lookupURI s) (resolvedURIs ctx) VUndefined))
      \<and> (if nullish (lookupFirst (lookupURI s) (resolvedURIs ctx) VUndefined)
          then allocate emptyNode s
          else (lookupFirst (lookupURI s) (resolvedURIs ctx) VUndefined, s)) = (result, s1)
      \<and> dereferenceReference E S (ref reference)
            \<lparr>baseURI = baseURI ctx, jsonPointer = jsonPointer ctx, resolvedURIs = []\<rparr> s1
          = Some (Inr (dereferenced, s2))
      \<and> isPlaceholder (heap s2) dereferenced"
  show "\<exists>a s'. dereferenceReferenceWithSiblings E S reference ctx s = Some (Inr (VRef a, s'))
           \<and> result = VRef a
           \<and> marker (nodeAt (heap s') a)
               = Some \<lparr>uris = (case marker (nodeAt (heap s2) a) of None \<Rightarrow> None | Some i \<Rightarrow> uris i),
                       indirect = Some dereferenced\<rparr>
           \<and> a \<in> set (placeholders s')
           \<and> (\<forall>k v. map_of (siblings reference) k = Some v
                  \<longrightarrow> getPropV k (props (nodeAt (heap s') a)) = v)
           \<and> (\<forall>u \<in> set (resolvedURIs ctx). lookupURI s' u = VRef a)"
    by (rule merge_deferred [where ?s1.0 = s1, OF h [THEN conjunct1] h [THEN conjunct2, THEN conjunct1]
          h [THEN conjunct2, THEN conjunct2, THEN conjunct1]
          h [THEN conjunct2, THEN conjunct2, THEN conjunct2, THEN conjunct1]
          h [THEN conjunct2, THEN conjunct2, THEN conjunct2, THEN conjunct2]])
next
  assume h: "placeholders p = a # others \<and> marker (nodeAt (heap p) a) = Some info
      \<and> indirect info = Some (VRef t) \<and> \<not> isPlaceholder (heap p) (VRef t)
      \<and> distinct (map fst (props (nodeAt (heap p) a)))
      \<and> distinct (map fst (props (nodeAt (heap p) t)))
      \<and> (uris info = None \<or> (\<exists>u us r. uris info = Some (u # us) \<and> lookupURI p u = VRef r))"
  then have c: "uris info = None \<or> (\<exists>u us r. uris info = Some (u # us) \<and> lookupURI p u = VRef r)"
    by simp
  from c show "\<exists>p'. patchStep E p = Inr p' \<and> placeholders p' = removeAll a others
           \<and> (\<forall>k \<in> set (map fst (props (nodeAt (heap p) a))).
                 getPropV k (props (nodeAt (heap p') a)) = getPropV k (props (nodeAt (heap p) a)))
           \<and> (\<forall>k. k \<notin> set (map fst (props (nodeAt (heap p) a)))
                   \<and> k \<in> set (map fst (props (nodeAt (heap p) t)))
                 \<longrightarrow> getPropV k (props (nodeAt (heap p') a)) = getPropV k (props (nodeAt (heap p) t)))"
  proof
    assume n: "uris info = None"
    from h n patch_indirect [of p a others info t E] show ?thesis by blast
  next
    assume "\<exists>u us r. uris info = Some (u # us) \<and> lookupURI p u = VRef r"
    then obtain u us r where "uris info = Some (u # us)" "lookupURI p u = VRef r" by blast
    with h patch_indirect_then_own [of p a others info t u us r E] show ?thesis by blast
  qed
qed

theorem reference_with_siblings_merges_witness:
  "(\<exists>a s'. dereferenceReferenceWithSiblings exampleDerefHelpers precedenceIndex precedenceReference
               (contextAt ''/definitions/extended'') precedenceCloned = Some (Inr (VRef a, s'))
           \<and> VRef a \<noteq> VRef 5
           \<and> getPropV ''title'' (props (nodeAt (heap s') a)) = VStr ''override''
           \<and> getPropV ''type'' (props (nodeAt (heap s') a)) = VStr ''string''
           \<and> getPropV ''title'' (props (nodeAt (heap s') 5)) = VStr ''t'')
   \<and> (\<exists>a s'. dereferenceReferenceWithSiblings exampleDerefHelpers precedenceIndex precedenceReference
               (contextAt ''/definitions/extended'') precedencePending = Some (Inr (VRef a, s'))
           \<and> a \<in> set (placeholders s')
           \<and> (\<exists>i. marker (nodeAt (heap s') a) = Some i \<and> indirect i = Some (VRef 6))
           \<and> getPropV ''title'' (props (nodeAt (heap s') a)) = VStr ''override'')
   \<and> (\<exists>p'. patchStep exampleDerefHelpers (precedencePatch None) = Inr p'
           \<and> placeholders p' = []
           \<and> getPropV ''title'' (props (nodeAt (heap p') 5)) = VStr ''override''
           \<and> getPropV ''type'' (props (nodeAt (heap p') 5)) = VStr ''string'')
   \<and> (\<exists>p'. patchStep exampleDerefHelpers (precedencePatch (Some [''#/definitions/extended''])) = Inr p'
           \<and> placeholders p' = []
           \<and> getPropV ''title'' (props (nodeAt (heap p') 5)) = VStr ''override''
           \<and> getPropV ''type'' (props (nodeAt (heap p') 5)) = VStr ''string'')"
proof (intro conjI)
  let ?c = "contextAt ''/definitions/extended''"
  let ?inner = "\<lparr>baseURI = baseURI ?c, jsonPointer = jsonPointer ?c, resolvedURIs = []\<rparr>"
  define s1 where "s1 = snd (allocate emptyNode precedenceCloned)"
  define s2 where "s2 = registerURIs [''#/definitions/target''] (VRef 5) s1"
  have wf: "wellFormed precedenceCloned" by code_simp
  have ds: "distinct (map fst (siblings precedenceReference))" by code_simp
  have found: "nullish (lookupFirst (lookupURI precedenceCloned) (resolvedURIs ?c) VUndefined)
      \<or> isPlaceholder (heap precedenceCloned)
           (lookupFirst (lookupURI precedenceCloned) (resolvedURIs ?c) VUndefined)"
    by code_simp
  have alloc: "(if nullish (lookupFirst (lookupURI precedenceCloned) (resolvedURIs ?c) VUndefined)
          then allocate emptyNode precedenceCloned
          else (lookupFirst (lookupURI precedenceCloned) (resolvedURIs ?c) VUndefined,
                precedenceCloned)) = (VRef 6, s1)"
    unfolding s1_def by code_simp
  have inner: "dereferenceReference exampleDerefHelpers precedenceIndex (ref precedenceReference)
                 ?inner s1 = Some (Inr (VRef 5, s2))"
    unfolding s1_def s2_def by code_simp
  have concrete: "\<not> isPlaceholder (heap s2) (VRef 5)"
    unfolding s1_def s2_def by code_simp
  have target: "getPropV ''type'' (props (nodeAt (heap s2) 5)) = VStr ''string''"
    "getPropV ''title'' (props (nodeAt (heap s2) 5)) = VStr ''t''"
    "''type'' \<in> set (map fst (props (nodeAt (heap s2) 5)))"
    unfolding s1_def s2_def by code_simp+
  have sib: "map_of (siblings precedenceReference) ''title'' = Some (VStr ''override'')"
    "''type'' \<notin> set (map fst (siblings precedenceReference))"
    by code_simp+
  note immediate = reference_with_siblings_merges
      [where s = precedenceCloned and E = exampleDerefHelpers and reference = precedenceReference
         and ctx = ?c and result = "VRef 6" and ?s1.0 = s1 and S = precedenceIndex
         and dereferenced = "VRef 5" and ?s2.0 = s2, THEN conjunct1, rule_format]
  have "\<exists>a s'. dereferenceReferenceWithSiblings exampleDerefHelpers precedenceIndex
                 precedenceReference ?c precedenceCloned = Some (Inr (VRef a, s'))
           \<and> VRef 6 = VRef a \<and> VRef a \<noteq> VRef 5
           \<and> (\<forall>k v. map_of (siblings precedenceReference) k = Some v
                  \<longrightarrow> getPropV k (props (nodeAt (heap s') a)) = v)
           \<and> (\<forall>t k. VRef 5 = VRef t \<and> k \<notin> set (map fst (siblings precedenceReference))
                     \<and> k \<in> set (map fst (props (nodeAt (heap s2) t)))
                  \<longrightarrow> getPropV k (props (nodeAt (heap s') a)) = getPropV k (props (nodeAt (heap s2) t)))
           \<and> (\<forall>t. VRef 5 = VRef t \<longrightarrow> nodeAt (heap s') t = nodeAt (heap s2) t)
           \<and> (\<forall>u \<in> set (resolvedURIs ?c). lookupURI s' u = VRef a)"
    by (rule immediate) (intro conjI wf fragmentWithin_example ds found alloc inner concrete)
  then obtain a s' where
    r: "dereferenceReferenceWithSiblings exampleDerefHelpers precedenceIndex
          precedenceReference ?c precedenceCloned = Some (Inr (VRef a, s'))"
    and ne: "VRef a \<noteq> VRef 5"
    and win: "\<forall>k v. map_of (siblings precedenceReference) k = Some v
                  \<longrightarrow> getPropV k (props (nodeAt (heap s') a)) = v"
    and fill: "\<forall>t k. VRef 5 = VRef t \<and> k \<notin> set (map fst (siblings precedenceReference))
                     \<and> k \<in> set (map fst (props (nodeAt (heap s2) t)))
                  \<longrightarrow> getPropV k (props (nodeAt (heap s') a)) = getPropV k (props (nodeAt (heap s2) t))"
    and same: "\<forall>t. VRef 5 = VRef t \<longrightarrow> nodeAt (heap s') t = nodeAt (heap s2) t"
    by (elim exE conjE) (rule that)
  from win sib(1) have t1: "getPropV ''title'' (props (nodeAt (heap s') a)) = VStr ''override''"
    by blast
  from fill [rule_format, of 5 "''type''"] sib(2) target(3) target(1)
  have t2: "getPropV ''type'' (props (nodeAt (heap s') a)) = VStr ''string''" by simp
  from same [rule_format, of 5] target(2)
  have t3: "getPropV ''title'' (props (nodeAt (heap s') 5)) = VStr ''t''" by simp
  from r ne t1 t2 t3
  show "\<exists>a s'. dereferenceReferenceWithSiblings exampleDerefHelpers precedenceIndex precedenceReference
               (contextAt ''/definitions/extended'') precedenceCloned = Some (Inr (VRef a, s'))
           \<and> VRef a \<noteq> VRef 5
           \<and> getPropV ''title'' (props (nodeAt (heap s') a)) = VStr ''override''
           \<and> getPropV ''type'' (props (nodeAt (heap s') a)) = VStr ''string''
           \<and> getPropV ''title'' (props (nodeAt (heap s') 5)) = VStr ''t''"
    by blast
next
  let ?c = "contextAt ''/definitions/extended''"
  let ?inner = "\<lparr>baseURI = baseURI ?c, jsonPointer = jsonPointer ?c, resolvedURIs = []\<rparr>"
  define s1 where "s1 = snd (allocate emptyNode precedencePending)"
  define s2 where "s2 = (case dereferenceReference exampleDerefHelpers precedenceIndex
                                 (ref precedenceReference) ?inner s1 of
                           Some (Inr (v, s)) \<Rightarrow> s | _ \<Rightarrow> s1)"
  have ds: "distinct (map fst (siblings precedenceReference))" by code_simp
  have found: "nullish (lookupFirst (lookupURI precedencePending) (resolvedURIs ?c) VUndefined)
      \<or> isPlaceholder (heap precedencePending)
           (lookupFirst (lookupURI precedencePending) (resolvedURIs ?c) VUndefined)"
    by code_simp
  have alloc: "(if nullish (lookupFirst (lookupURI precedencePending) (resolvedURIs ?c) VUndefined)
          then allocate emptyNode precedencePending
          else (lookupFirst (lookupURI precedencePending) (resolvedURIs ?c) VUndefined,
                precedencePending)) = (VRef 5, s1)"
    unfolding s1_def by code_simp
  have inner: "dereferenceReference exampleDerefHelpers precedenceIndex (ref precedenceReference)
                 ?inner s1 = Some (Inr (VRef 6, s2))"
    unfolding s1_def s2_def by code_simp
  have pending: "isPlaceholder (heap s2) (VRef 6)"
    unfolding s1_def s2_def by code_simp
  have sib: "map_of (siblings precedenceReference) ''title'' = Some (VStr ''override'')"
    by code_simp
  note deferred = reference_with_siblings_merges
      [where s = precedencePending and E = exampleDerefHelpers and reference = precedenceReference
         and ctx = ?c and result = "VRef 5" and ?s1.0 = s1 and S = precedenceIndex
         and dereferenced = "VRef 6" and ?s2.0 = s2, THEN conjunct2, THEN conjunct1, rule_format]
  have "\<exists>a s'. dereferenceReferenceWithSiblings exampleDerefHelpers precedenceIndex
                 precedenceReference ?c precedencePending = Some (Inr (VRef a, s'))
           \<and> VRef 5 = VRef a
           \<and> marker (nodeAt (heap s') a)
               = Some \<lparr>uris = (case marker (nodeAt (heap s2) a) of None \<Rightarrow> None | Some i \<Rightarrow> uris i),
                       indirect = Some (VRef 6)\<rparr>
           \<and> a \<in> set (placeholders s')
           \<and> (\<forall>k v. map_of (siblings precedenceReference) k = Some v
                  \<longrightarrow> getPropV k (props (nodeAt (heap s') a)) = v)
           \<and> (\<forall>u \<in> set (resolvedURIs ?c). lookupURI s' u = VRef a)"
    by (rule deferred) (intro conjI ds found alloc inner pending)
  then obtain a s' where
    r: "dereferenceReferenceWithSiblings exampleDerefHelpers precedenceIndex
          precedenceReference ?c precedencePending = Some (Inr (VRef a, s'))"
    and m: "marker (nodeAt (heap s') a)
               = Some \<lparr>uris = (case marker (nodeAt (heap s2) a) of None \<Rightarrow> None | Some i \<Rightarrow> uris i),
                       indirect = Some (VRef 6)\<rparr>"
    and pl: "a \<in> set (placeholders s')"
    and win: "\<forall>k v. map_of (siblings precedenceReference) k = Some v
                  \<longrightarrow> getPropV k (props (nodeAt (heap s') a)) = v"
    by (elim exE conjE) (rule that)
  from win sib have t1: "getPropV ''title'' (props (nodeAt (heap s') a)) = VStr ''override''"
    by blast
  from m have t2: "\<exists>i. marker (nodeAt (heap s') a) = Some i \<and> indirect i = Some (VRef 6)"
    by simp
  from r pl t1 t2
  show "\<exists>a s'. dereferenceReferenceWithSiblings exampleDerefHelpers precedenceIndex precedenceReference
               (contextAt ''/definitions/extended'') precedencePending = Some (Inr (VRef a, s'))
           \<and> a \<in> set (placeholders s')
           \<and> (\<exists>i. marker (nodeAt (heap s') a) = Some i \<and> indirect i = Some (VRef 6))
           \<and> getPropV ''title'' (props (nodeAt (heap s') a)) = VStr ''override''"
    by blast
next
  let ?p = "precedencePatch None"
  let ?info = "\<lparr>uris = None, indirect = Some (VRef 6)\<rparr>"
  have h: "placeholders ?p = 5 # [] \<and> marker (nodeAt (heap ?p) 5) = Some ?info
      \<and> indirect ?info = Some (VRef 6) \<and> \<not> isPlaceholder (heap ?p) (VRef 6)
      \<and> distinct (map fst (props (nodeAt (heap ?p) 5)))
      \<and> distinct (map fst (props (nodeAt (heap ?p) 6)))
      \<and> (uris ?info = None \<or> (\<exists>u us r. uris ?info = Some (u # us) \<and> lookupURI ?p u = VRef r))"
    by (intro conjI disjI1; code_simp)
  have k: "''title'' \<in> set (map fst (props (nodeAt (heap ?p) 5)))"
    "''type'' \<notin> set (map fst (props (nodeAt (heap ?p) 5)))"
    "''type'' \<in> set (map fst (props (nodeAt (heap ?p) 6)))"
    "getPropV ''title'' (props (nodeAt (heap ?p) 5)) = VStr ''override''"
    "getPropV ''type'' (props (nodeAt (heap ?p) 6)) = VStr ''string''"
    by code_simp+
  note patch = reference_with_siblings_merges
      [where p = ?p and a = 5 and others = "[]" and info = ?info and t = 6
         and E = exampleDerefHelpers,
       THEN conjunct2, THEN conjunct2, rule_format]
  from patch [OF h] obtain p' where
    r: "patchStep exampleDerefHelpers ?p = Inr p'" and pl: "placeholders p' = removeAll 5 []"
    and keep: "\<forall>k \<in> set (map fst (props (nodeAt (heap ?p) 5))).
                 getPropV k (props (nodeAt (heap p') 5)) = getPropV k (props (nodeAt (heap ?p) 5))"
    and fill: "\<forall>k. k \<notin> set (map fst (props (nodeAt (heap ?p) 5)))
                   \<and> k \<in> set (map fst (props (nodeAt (heap ?p) 6)))
                 \<longrightarrow> getPropV k (props (nodeAt (heap p') 5)) = getPropV k (props (nodeAt (heap ?p) 6))"
    by (elim exE conjE) (rule that)
  from keep [rule_format, OF k(1)] k(4)
  have t1: "getPropV ''title'' (props (nodeAt (heap p') 5)) = VStr ''override''" by simp
  from fill [rule_format, of "''type''"] k(2) k(3) k(5)
  have t2: "getPropV ''type'' (props (nodeAt (heap p') 5)) = VStr ''string''" by simp
  from r pl t1 t2
  show "\<exists>p'. patchStep exampleDerefHelpers (precedencePatch None) = Inr p'
           \<and> placeholders p' = []
           \<and> getPropV ''title'' (props (nodeAt (heap p') 5)) = VStr ''override''
           \<and> getPropV ''type'' (props (nodeAt (heap p') 5)) = VStr ''string''"
    by simp
next
  let ?p = "precedencePatch (Some [''#/definitions/extended''])"
  let ?info = "\<lparr>uris = Some [''#/definitions/extended''], indirect = Some (VRef 6)\<rparr>"
  have own: "uris ?info = Some (''#/definitions/extended'' # [])
      \<and> lookupURI ?p ''#/definitions/extended'' = VRef 5"
    by (intro conjI; code_simp)
  have h: "placeholders ?p = 5 # [] \<and> marker (nodeAt (heap ?p) 5) = Some ?info
      \<and> indirect ?info = Some (VRef 6) \<and> \<not> isPlaceholder (heap ?p) (VRef 6)
      \<and> distinct (map fst (props (nodeAt (heap ?p) 5)))
      \<and> distinct (map fst (props (nodeAt (heap ?p) 6)))
      \<and> (uris ?info = None \<or> (\<exists>u us r. uris ?info = Some (u # us) \<and> lookupURI ?p u = VRef r))"
    apply (intro conjI)
          apply code_simp
         apply code_simp
        apply code_simp
       apply code_simp
      apply code_simp
     apply code_simp
    apply (rule disjI2)
    apply (rule exI [of _ "''#/definitions/extended''"], rule exI [of _ "[]"], rule exI [of _ 5])
    apply (rule own)
    done
  have k: "''title'' \<in> set (map fst (props (nodeAt (heap ?p) 5)))"
    "''type'' \<notin> set (map fst (props (nodeAt (heap ?p) 5)))"
    "''type'' \<in> set (map fst (props (nodeAt (heap ?p) 6)))"
    "getPropV ''title'' (props (nodeAt (heap ?p) 5)) = VStr ''override''"
    "getPropV ''type'' (props (nodeAt (heap ?p) 6)) = VStr ''string''"
    by code_simp+
  note patch = reference_with_siblings_merges
      [where p = ?p and a = 5 and others = "[]" and info = ?info and t = 6
         and E = exampleDerefHelpers,
       THEN conjunct2, THEN conjunct2, rule_format]
  from patch [OF h] obtain p' where
    r: "patchStep exampleDerefHelpers ?p = Inr p'" and pl: "placeholders p' = removeAll 5 []"
    and keep: "\<forall>k \<in> set (map fst (props (nodeAt (heap ?p) 5))).
                 getPropV k (props (nodeAt (heap p') 5)) = getPropV k (props (nodeAt (heap ?p) 5))"
    and fill: "\<forall>k. k \<notin> set (map fst (props (nodeAt (heap ?p) 5)))
                   \<and> k \<in> set (map fst (props (nodeAt (heap ?p) 6)))
                 \<longrightarrow> getPropV k (props (nodeAt (heap p') 5)) = getPropV k (props (nodeAt (heap ?p) 6))"
    by (elim exE conjE) (rule that)
  from keep [rule_format, OF k(1)] k(4)
  have t1: "getPropV ''title'' (props (nodeAt (heap p') 5)) = VStr ''override''" by simp
  from fill [rule_format, of "''type''"] k(2) k(3) k(5)
  have t2: "getPropV ''type'' (props (nodeAt (heap p') 5)) = VStr ''string''" by simp
  from r pl t1 t2
  show "\<exists>p'. patchStep exampleDerefHelpers (precedencePatch (Some [''#/definitions/extended''])) = Inr p'
           \<and> placeholders p' = []
           \<and> getPropV ''title'' (props (nodeAt (heap p') 5)) = VStr ''override''
           \<and> getPropV ''type'' (props (nodeAt (heap p') 5)) = VStr ''string''"
    by simp
qed

lemma chain_state:
  "(case cloneRoots exampleDerefHelpers chainCloneValues chainIndex chainIndex [] (initialState chainHeap) of
      Some (Inr (allResults, st)) \<Rightarrow>
        patchStep exampleDerefHelpers st = Inr st \<and> placeholders st \<noteq> []
    | _ \<Rightarrow> False)"
  by code_simp

text \<open>
  Claim C3 does not hold of the code. The immediate merge copies what the target node
  holds when the reference is visited, once: a target that is an ancestor of the
  reference is registered before its members are cloned, so the merged node misses every
  member cloned later. In
  \<open>{type: 'object', properties: {self: {$ref: '#', title: 't'}}, description: 'd'}\<close>
  the merged node ends as \<open>{type, title}\<close> while its target, the root, ends with
  \<open>type\<close>, \<open>properties\<close> and \<open>description\<close>. In the deferred path the merged node is
  produced only by a patch-up iteration that finds its indirect link resolved; in
  \<open>{properties: {a: {$ref: '#/properties/x'}, x: {$ref: '#/shared', title: 't'}}, shared: {type: 'string'}}\<close>
  the node stands first in the set with its link unresolved, and
  \<open>dereferenceJSONSchema\<close> does not return.
\<close>

theorem reference_with_siblings_misses_target_content:
  "(case dereferenceJSONSchema exampleDerefHelpers ancestorIndexer ancestorCloneValues ancestorHeap
           (VRef 0) None of
      Some (Inr (res, st)) \<Rightarrow>
        res = VRef 3
        \<and> walkTokens (heap st) [''properties'', ''self''] res = VRef 4
        \<and> props (nodeAt (heap st) 3)
            = [(''type'', VStr ''object''), (''properties'', VRef 5), (''description'', VStr ''d'')]
        \<and> props (nodeAt (heap st) 4) = [(''type'', VStr ''object''), (''title'', VStr ''t'')]
    | _ \<Rightarrow> False)
   \<and> dereferenceJSONSchema exampleDerefHelpers chainIndexer chainCloneValues chainHeap (VRef 0) None
       = None"
proof
  show "(case dereferenceJSONSchema exampleDerefHelpers ancestorIndexer ancestorCloneValues ancestorHeap
           (VRef 0) None of
      Some (Inr (res, st)) \<Rightarrow>
        res = VRef 3
        \<and> walkTokens (heap st) [''properties'', ''self''] res = VRef 4
        \<and> props (nodeAt (heap st) 3)
            = [(''type'', VStr ''object''), (''properties'', VRef 5), (''description'', VStr ''d'')]
        \<and> props (nodeAt (heap st) 4) = [(''type'', VStr ''object''), (''title'', VStr ''t'')]
    | _ \<Rightarrow> False)"
    by code_simp
next
  from chain_state obtain allResults st where
    c: "cloneRoots exampleDerefHelpers chainCloneValues chainIndex chainIndex [] (initialState chainHeap)
          = Some (Inr (allResults, st))"
    and stuck: "patchStep exampleDerefHelpers st = Inr st" "placeholders st \<noteq> []"
    by (auto split: option.splits sum.splits)
  from patchUp_stuck [OF stuck] have "patchUp exampleDerefHelpers st = None" .
  with c show "dereferenceJSONSchema exampleDerefHelpers chainIndexer chainCloneValues chainHeap (VRef 0) None = None"
    by (simp add: dereferenceJSONSchema_def chainIndexer_def)
qed

end
